(* ===== verification/Workshop_Prelude.thy ===== *)
theory Workshop_Prelude
  imports Main "HOL-Library.Char_ord" "HOL-Library.List_Lexorder"
begin

text \<open>
  Shared vocabulary of the development: the C string view of the sources (a pointer into a
  null-terminated string is the suffix it points to), the conversion functions
  \<open>strtoul\<close>/\<open>strtoull\<close> of the C library, an error-passing sequencing operator for code that
  throws, and the helpers of the \<open>libcommon\<close> submodule (not part of this repository) that the
  modelled code calls: they are the fields of a record which the definitions take as an
  argument, and the locale \<open>string_util\<close> states what the code relies on.
\<close>

named_theorems cstr_simps \<open>evaluation of the C string primitives\<close>
named_theorems wf_intros \<open>well-formedness invariants established by constructors and operations\<close>
named_theorems wf_dests \<open>consequences of the well-formedness invariants\<close>

section \<open>Errors\<close>

text \<open>Sequencing of computations that may throw: \<open>Inl\<close> is the exception in flight.\<close>

definition then_do :: "'e + 'a \<Rightarrow> ('a \<Rightarrow> 'e + 'b) \<Rightarrow> 'e + 'b" where
  "then_do m f = (case m of Inl e \<Rightarrow> Inl e | Inr x \<Rightarrow> f x)"

lemma then_do_Inr [simp]: "then_do (Inr x) f = f x"
  by (simp add: then_do_def)

lemma then_do_Inl [simp]: "then_do (Inl e) f = Inl e"
  by (simp add: then_do_def)

lemma then_do_eq_Inr:
  "then_do m f = Inr y \<longleftrightarrow> (\<exists>x. m = Inr x \<and> f x = Inr y)"
  by (cases m) auto

lemma then_do_eq_Inl:
  "then_do m f = Inl e \<longleftrightarrow> m = Inl e \<or> (\<exists>x. m = Inr x \<and> f x = Inl e)"
  by (cases m) auto

lemma then_do_cong [fundef_cong]:
  assumes "m = m'" and "\<And>x. m' = Inr x \<Longrightarrow> f x = f' x"
  shows "then_do m f = then_do m' f'"
  using assms by (cases m') auto

section \<open>C strings\<close>

abbreviation NUL :: char where
  "NUL \<equiv> CHR 0x00"

text \<open>\<open>*s\<close>: the first character, or the terminator.\<close>

definition cderef :: "string \<Rightarrow> char" where
  "cderef s = (case s of [] \<Rightarrow> NUL | c # _ \<Rightarrow> c)"

lemma cderef_Nil [simp, cstr_simps]: "cderef [] = NUL"
  by (simp add: cderef_def)

lemma cderef_Cons [simp, cstr_simps]: "cderef (c # s) = c"
  by (simp add: cderef_def)

lemma cderef_neq_NUL: "cderef s = c \<Longrightarrow> c \<noteq> NUL \<Longrightarrow> s \<noteq> []"
  by auto

lemma cderef_append: "cderef (s @ t) = (if s = [] then cderef t else cderef s)"
  by (cases s) auto

abbreviation code :: "char \<Rightarrow> nat" where
  "code c \<equiv> of_char c"

text \<open>\<open>isspace()\<close> in the C locale.\<close>

definition is_space :: "char \<Rightarrow> bool" where
  "is_space c \<longleftrightarrow> code c = 32 \<or> (9 \<le> code c \<and> code c \<le> 13)"

definition is_digit :: "nat \<Rightarrow> char \<Rightarrow> bool" where
  "is_digit base c \<longleftrightarrow> 48 \<le> code c \<and> code c < 48 + base"

definition digits_value :: "nat \<Rightarrow> string \<Rightarrow> nat" where
  "digits_value base ds = foldl (\<lambda>a c. a * base + (code c - 48)) 0 ds"

abbreviation ULONG_MAX :: nat where
  "ULONG_MAX \<equiv> 18446744073709551615"

text \<open>
  \<open>strtoul(s, &endptr, base)\<close> for a base of at most ten, and, where \<open>unsigned long\<close> has
  64 bits, \<open>strtoull()\<close>: leading white space, an optional sign, then digits. The result is the
  value and the position of \<open>endptr\<close>; with no digit at all, \<open>endptr\<close> is \<open>s\<close>. An
  out-of-range value saturates, and a minus sign negates modulo \<open>2 ^ 64\<close>.
\<close>

definition skip_sign :: "string \<Rightarrow> string" where
  "skip_sign t = (if cderef t = CHR ''+'' \<or> cderef t = CHR ''-'' then tl t else t)"

definition strtoul_digits :: "nat \<Rightarrow> string \<Rightarrow> string" where
  "strtoul_digits base s = takeWhile (is_digit base) (skip_sign (dropWhile is_space s))"

definition strtoul :: "nat \<Rightarrow> string \<Rightarrow> nat \<times> string" where
  "strtoul base s =
     (let t = dropWhile is_space s;
          ds = strtoul_digits base s;
          v = digits_value base ds
      in if ds = [] then (0, s)
         else (if v > ULONG_MAX then ULONG_MAX
               else if cderef t = CHR ''-'' then (2 ^ 64 - v) mod 2 ^ 64 else v,
               dropWhile (is_digit base) (skip_sign t)))"

lemma skip_sign_length: "length (skip_sign t) \<le> length t"
  by (simp add: skip_sign_def)

lemma length_dropWhile_takeWhile:
  "takeWhile P xs \<noteq> [] \<Longrightarrow> length (dropWhile P xs) < length xs"
  by (cases xs) (auto simp: length_dropWhile_le le_imp_less_Suc split: if_splits)

lemma strtoul_no_digits: "strtoul_digits base s = [] \<Longrightarrow> strtoul base s = (0, s)"
  by (simp add: strtoul_def)

lemma strtoul_endptr_less:
  assumes "strtoul_digits base s \<noteq> []"
  shows "length (snd (strtoul base s)) < length s"
proof -
  have "length (dropWhile (is_digit base) (skip_sign (dropWhile is_space s)))
      < length (skip_sign (dropWhile is_space s))"
    using assms unfolding strtoul_digits_def by (rule length_dropWhile_takeWhile)
  also have "\<dots> \<le> length s"
    using skip_sign_length length_dropWhile_le le_trans by blast
  finally show ?thesis using assms by (simp add: strtoul_def Let_def)
qed

text \<open>The pointer test \<open>endptr == s\<close> of the sources: no digit was found.\<close>

lemma strtoul_endptr_eq: "snd (strtoul base s) = s \<longleftrightarrow> strtoul_digits base s = []"
  using strtoul_endptr_less strtoul_no_digits by fastforce

lemma strtoul_endptr_le: "length (snd (strtoul base s)) \<le> length s"
  using strtoul_endptr_less [of base s] strtoul_no_digits [of base s] by fastforce

lemma strtoul_endptr_neq_less:
  "strtoul base s = (v, e) \<Longrightarrow> e \<noteq> s \<Longrightarrow> length e < length s"
  using strtoul_endptr_less [of base s] strtoul_no_digits [of base s] by fastforce

lemma strtoul_le_max: "fst (strtoul base s) \<le> ULONG_MAX"
proof -
  have "m mod 2 ^ 64 \<le> ULONG_MAX" for m :: nat
    using mod_less_divisor [of "2 ^ 64" m] by simp
  then show ?thesis by (simp add: strtoul_def Let_def)
qed

section \<open>Decimal printing\<close>

fun show_nat :: "nat \<Rightarrow> string" where
  "show_nat n = (if n < 10 then [char_of (48 + n)] else show_nat (n div 10) @ [char_of (48 + n mod 10)])"

declare show_nat.simps [simp del]

lemma code_char_of_digit: "n < 10 \<Longrightarrow> code (char_of (48 + n :: nat)) = 48 + n"
  by simp

lemma is_digit_show_digit: "n < 10 \<Longrightarrow> is_digit 10 (char_of (48 + n :: nat))"
  by (simp add: is_digit_def)

lemma show_nat_digits: "\<forall>c \<in> set (show_nat n). is_digit 10 c"
proof (induction n rule: show_nat.induct)
  case (1 n)
  show ?case
  proof (cases "n < 10")
    case True
    then show ?thesis by (subst show_nat.simps) (simp add: is_digit_show_digit)
  next
    case False
    moreover have "n mod 10 < 10" by simp
    ultimately show ?thesis using "1.IH"
      by (subst show_nat.simps) (auto simp: is_digit_show_digit)
  qed
qed

lemma show_nat_nonempty [simp]: "show_nat n \<noteq> []"
  by (subst show_nat.simps) simp

lemma digits_value_snoc:
  "digits_value b (ds @ [c]) = digits_value b ds * b + (code c - 48)"
  by (simp add: digits_value_def)

lemma digits_value_show_nat: "digits_value 10 (show_nat n) = n"
proof (induction n rule: show_nat.induct)
  case (1 n)
  show ?case
  proof (cases "n < 10")
    case True
    then show ?thesis by (subst show_nat.simps) (simp add: digits_value_def)
  next
    case False
    with "1.IH" show ?thesis by (subst show_nat.simps) (simp add: digits_value_snoc)
  qed
qed

lemma digit_not_space: "is_digit 10 c \<Longrightarrow> \<not> is_space c"
  by (auto simp: is_digit_def is_space_def)

lemma digit_not_sign: "is_digit 10 c \<Longrightarrow> c \<noteq> CHR ''+'' \<and> c \<noteq> CHR ''-''"
  by (auto simp: is_digit_def)

text \<open>Reading back a printed number: \<open>endptr\<close> is where the digits end.\<close>

lemma strtoul_show_nat:
  assumes "n \<le> ULONG_MAX" and "r = [] \<or> \<not> is_digit 10 (hd r)"
  shows "strtoul 10 (show_nat n @ r) = (n, r)"
proof -
  obtain c cs where sn: "show_nat n = c # cs"
    by (cases "show_nat n") auto
  have c: "is_digit 10 c" using show_nat_digits [of n] sn by simp
  have nospace: "dropWhile is_space (show_nat n @ r) = show_nat n @ r"
    using sn digit_not_space [OF c] by simp
  have nosign: "skip_sign (show_nat n @ r) = show_nat n @ r"
    using sn digit_not_sign [OF c] by (simp add: skip_sign_def)
  have tw: "takeWhile (is_digit 10) (show_nat n @ r) = show_nat n"
    using show_nat_digits assms(2) by (cases r) (auto simp: takeWhile_append)
  have dw: "dropWhile (is_digit 10) (show_nat n @ r) = r"
    using show_nat_digits assms(2) by (cases r) (auto simp: dropWhile_append)
  have "cderef (show_nat n @ r) \<noteq> CHR ''-''"
    using sn digit_not_sign [OF c] by simp
  then show ?thesis
    using assms(1) by (simp add: strtoul_def strtoul_digits_def nospace nosign tw dw digits_value_show_nat)
qed

section \<open>String helpers of libcommon\<close>

text \<open>
  \<open>StripLeft\<close> (\<open>util/StringStrip.hxx\<close>) skips leading white space;
  \<open>StringIsEqualIgnoreCase(a, b, n)\<close> (\<open>util/StringAPI.hxx\<close>) compares at most \<open>n\<close>
  characters. Both belong to the \<open>libcommon\<close> submodule and are arguments of the model.
\<close>

record string_lib =
  StripLeft :: "string \<Rightarrow> string"
  StringIsEqualIgnoreCase :: "string \<Rightarrow> string \<Rightarrow> nat \<Rightarrow> bool"

locale string_util =
  fixes lib :: string_lib
  assumes StripLeft_Nil: "StripLeft lib [] = []"
    and StripLeft_space: "StripLeft lib (CHR '' '' # s) = StripLeft lib s"
    and StripLeft_visible: "32 < code c \<Longrightarrow> code c < 127 \<Longrightarrow> StripLeft lib (c # s) = c # s"
begin

lemma StripLeft_space_visible:
  assumes "s \<noteq> []" and "32 < code (hd s)" and "code (hd s) < 127"
  shows "StripLeft lib (CHR '' '' # s) = s"
  using assms by (cases s) (auto simp: StripLeft_space StripLeft_visible)

lemma StripLeft_visible_hd:
  assumes "s \<noteq> []" and "32 < code (hd s)" and "code (hd s) < 127"
  shows "StripLeft lib s = s"
  using assms by (cases s) (auto simp: StripLeft_visible)

end

text \<open>An ASCII instance of the two helpers, on which the model is evaluated.\<close>

definition to_lower :: "char \<Rightarrow> char" where
  "to_lower c = (if 65 \<le> code c \<and> code c \<le> 90 then char_of (code c + 32) else c)"

definition ascii_lib :: string_lib where
  "ascii_lib = \<lparr>StripLeft = dropWhile (\<lambda>c. 0 < code c \<and> code c \<le> 32),
     StringIsEqualIgnoreCase = (\<lambda>a b n. map to_lower (take n a) = map to_lower (take n b))\<rparr>"

interpretation ascii: string_util ascii_lib
  by unfold_locales (simp_all add: ascii_lib_def)

end
