(* ===== verification/Range_Bit_Set.thy ===== *)
theory Range_Bit_Set
  imports Workshop_Prelude
begin

text \<open>
  \<open>src/util/RangeBitSet.hxx\<close>: a \<open>std::bitset\<close> with a lower and an upper bound. The template
  parameters \<open>MIN\<close> and \<open>MAX\<close> are fields of the value; the bits are a list of
  \<open>MAX - MIN + 1\<close> booleans. \<open>bitset::set(pos)\<close> throws when \<open>pos\<close> is out of range, and
  since \<open>RangeBitSet::set\<close> is \<open>noexcept\<close> that terminates the process: the model returns
  \<open>None\<close>. The locale \<open>bounded_bits\<close> is what the schedule code uses of the class.
\<close>

record range_bitset =
  rb_MIN :: nat
  rb_MAX :: nat
  rb_b :: "bool list"

definition rbs_new :: "nat \<Rightarrow> nat \<Rightarrow> range_bitset" where
  "rbs_new mn mx = \<lparr>rb_MIN = mn, rb_MAX = mx, rb_b = replicate (mx - mn + 1) False\<rparr>"

definition rbs_size :: "range_bitset \<Rightarrow> nat" where
  "rbs_size s = length (rb_b s)"

definition rbs_count :: "range_bitset \<Rightarrow> nat" where
  "rbs_count s = length (filter (\<lambda>x. x) (rb_b s))"

definition rbs_all :: "range_bitset \<Rightarrow> bool" where
  "rbs_all s = list_all (\<lambda>x. x) (rb_b s)"

definition rbs_any :: "range_bitset \<Rightarrow> bool" where
  "rbs_any s = list_ex (\<lambda>x. x) (rb_b s)"

definition rbs_none :: "range_bitset \<Rightarrow> bool" where
  "rbs_none s = (\<not> list_ex (\<lambda>x. x) (rb_b s))"

definition rbs_get :: "range_bitset \<Rightarrow> nat \<Rightarrow> bool" where
  "rbs_get s pos = rb_b s ! (pos - rb_MIN s)"

definition rbs_set :: "range_bitset \<Rightarrow> nat \<Rightarrow> bool \<Rightarrow> range_bitset option" where
  "rbs_set s pos v =
     (if rb_MIN s \<le> pos \<and> pos - rb_MIN s < length (rb_b s)
      then Some (s\<lparr>rb_b := (rb_b s)[pos - rb_MIN s := v]\<rparr>)
      else None)"

definition rbs_set_all :: "range_bitset \<Rightarrow> range_bitset" where
  "rbs_set_all s = s\<lparr>rb_b := replicate (length (rb_b s)) True\<rparr>"

section \<open>Invariant and abstraction\<close>

definition rbs_wf :: "nat \<Rightarrow> nat \<Rightarrow> range_bitset \<Rightarrow> bool" where
  "rbs_wf mn mx s \<longleftrightarrow> mn \<le> mx \<and> rb_MIN s = mn \<and> rb_MAX s = mx \<and> length (rb_b s) = mx - mn + 1"

text \<open>The set of positions a bit set stands for.\<close>

definition rbs_elems :: "range_bitset \<Rightarrow> nat set" where
  "rbs_elems s = {p. rb_MIN s \<le> p \<and> p \<le> rb_MAX s \<and> rbs_get s p}"

lemma rbs_new_wf [wf_intros]: "mn \<le> mx \<Longrightarrow> rbs_wf mn mx (rbs_new mn mx)"
  by (simp add: rbs_wf_def rbs_new_def)

lemma rbs_elems_new [simp]: "rbs_elems (rbs_new mn mx) = {}"
  by (auto simp: rbs_elems_def rbs_new_def rbs_get_def nth_Cons')

lemma rbs_set_all_wf [wf_intros]: "rbs_wf mn mx s \<Longrightarrow> rbs_wf mn mx (rbs_set_all s)"
  by (simp add: rbs_wf_def rbs_set_all_def)

lemma rbs_elems_set_all: "rbs_wf mn mx s \<Longrightarrow> rbs_elems (rbs_set_all s) = {mn..mx}"
  by (auto simp: rbs_elems_def rbs_set_all_def rbs_get_def rbs_wf_def nth_Cons')

lemma rbs_elems_subset: "rbs_wf mn mx s \<Longrightarrow> rbs_elems s \<subseteq> {mn..mx}"
  by (auto simp: rbs_elems_def rbs_wf_def)

lemma rbs_get_elems: "rbs_wf mn mx s \<Longrightarrow> mn \<le> p \<Longrightarrow> p \<le> mx \<Longrightarrow> rbs_get s p \<longleftrightarrow> p \<in> rbs_elems s"
  by (simp add: rbs_elems_def rbs_wf_def)

lemma rbs_set_Some:
  assumes "rbs_wf mn mx s" and "mn \<le> p" and "p \<le> mx"
  obtains t where "rbs_set s p v = Some t" and "rbs_wf mn mx t"
    and "rbs_elems t = (if v then insert p (rbs_elems s) else rbs_elems s - {p})"
proof -
  let ?t = "s\<lparr>rb_b := (rb_b s)[p - rb_MIN s := v]\<rparr>"
  have "rbs_set s p v = Some ?t" and wf: "rbs_wf mn mx ?t"
    using assms by (auto simp: rbs_set_def rbs_wf_def)
  have get: "rbs_get ?t q = (if q = p then v else rbs_get s q)" if "mn \<le> q" "q \<le> mx" for q
    using assms that by (auto simp: rbs_get_def rbs_wf_def nth_list_update)
  have "rbs_elems ?t = (if v then insert p (rbs_elems s) else rbs_elems s - {p})"
    using assms get wf by (auto simp: rbs_elems_def rbs_wf_def split: if_splits)
  with \<open>rbs_set s p v = Some ?t\<close> wf show thesis by (rule that)
qed

lemma rbs_wf_ext: "rbs_wf mn mx s \<Longrightarrow> rbs_wf mn mx t \<Longrightarrow> rbs_elems s = rbs_elems t \<Longrightarrow> s = t"
proof -
  assume s: "rbs_wf mn mx s" and t: "rbs_wf mn mx t" and eq: "rbs_elems s = rbs_elems t"
  have "rb_b s ! i = rb_b t ! i" if "i < mx - mn + 1" for i
  proof -
    have "mn + i \<le> mx" using s that by (auto simp: rbs_wf_def)
    then have "rbs_get s (mn + i) \<longleftrightarrow> rbs_get t (mn + i)"
      using rbs_get_elems [OF s, of "mn + i"] rbs_get_elems [OF t, of "mn + i"] s eq that
      by (simp add: rbs_wf_def)
    then show ?thesis using s t by (simp add: rbs_get_def rbs_wf_def)
  qed
  then have "rb_b s = rb_b t"
    using s t by (intro nth_equalityI) (auto simp: rbs_wf_def)
  with s t show "s = t" by (simp add: rbs_wf_def)
qed

lemma rbs_none_iff: "rbs_wf mn mx s \<Longrightarrow> rbs_none s \<longleftrightarrow> rbs_elems s = {}"
proof -
  assume wf: "rbs_wf mn mx s"
  have "list_ex (\<lambda>x. x) (rb_b s) \<longleftrightarrow> (\<exists>p. mn \<le> p \<and> p \<le> mx \<and> rbs_get s p)"
  proof
    assume "list_ex (\<lambda>x. x) (rb_b s)"
    then obtain i where "i < length (rb_b s)" "rb_b s ! i"
      by (auto simp: list_ex_length)
    then show "\<exists>p. mn \<le> p \<and> p \<le> mx \<and> rbs_get s p"
      using wf by (intro exI [of _ "mn + i"]) (auto simp: rbs_get_def rbs_wf_def)
  next
    assume "\<exists>p. mn \<le> p \<and> p \<le> mx \<and> rbs_get s p"
    then obtain p where "mn \<le> p" "p \<le> mx" "rbs_get s p" by blast
    then show "list_ex (\<lambda>x. x) (rb_b s)"
      using wf by (auto simp: list_ex_length rbs_get_def rbs_wf_def intro!: exI [of _ "p - mn"])
  qed
  then show ?thesis using wf by (auto simp: rbs_none_def rbs_elems_def rbs_wf_def)
qed

section \<open>Interface used by the schedule parser\<close>

text \<open>
  What a client needs of a bounded bit store with lower bound \<open>lo\<close> and upper bound \<open>hi\<close>:
  setting a bit inside the bounds succeeds and changes that bit only, outside it fails.
\<close>

locale bounded_bits =
  fixes ok :: "nat \<Rightarrow> nat \<Rightarrow> 'b \<Rightarrow> bool"
    and elems :: "'b \<Rightarrow> nat set"
    and put :: "'b \<Rightarrow> nat \<Rightarrow> bool \<Rightarrow> 'b option"
  assumes put_in: "ok lo hi s \<Longrightarrow> lo \<le> p \<Longrightarrow> p \<le> hi \<Longrightarrow>
      \<exists>t. put s p v = Some t \<and> ok lo hi t \<and>
          elems t = (if v then insert p (elems s) else elems s - {p})"
    and put_out: "ok lo hi s \<Longrightarrow> \<not> (lo \<le> p \<and> p \<le> hi) \<Longrightarrow> put s p v = None"
begin

lemma put_Some_iff: "ok lo hi s \<Longrightarrow> (\<exists>t. put s p v = Some t) \<longleftrightarrow> lo \<le> p \<and> p \<le> hi"
  using put_in put_out by (metis option.distinct(1))

lemma put_SomeD:
  assumes "ok lo hi s" and "put s p v = Some t"
  shows "ok lo hi t" and "elems t = (if v then insert p (elems s) else elems s - {p})"
proof -
  have "lo \<le> p \<and> p \<le> hi" using assms put_out by (metis option.distinct(1))
  then obtain t' where "put s p v = Some t'" "ok lo hi t'"
    "elems t' = (if v then insert p (elems s) else elems s - {p})"
    using put_in [OF assms(1), of p v] by blast
  then show "ok lo hi t" and "elems t = (if v then insert p (elems s) else elems s - {p})"
    using assms(2) by simp_all
qed

text \<open>Any sequence of sets inside the bounds succeeds, and its effect is the union.\<close>

fun put_all :: "'b \<Rightarrow> nat list \<Rightarrow> 'b option" where
  "put_all s [] = Some s"
| "put_all s (p # ps) = (case put s p True of None \<Rightarrow> None | Some t \<Rightarrow> put_all t ps)"

lemma put_all_Some:
  assumes "ok lo hi s" and "set ps \<subseteq> {lo..hi}"
  shows "\<exists>t. put_all s ps = Some t \<and> ok lo hi t \<and> elems t = elems s \<union> set ps"
  using assms
proof (induction ps arbitrary: s)
  case Nil
  then show ?case by simp
next
  case (Cons p ps)
  then obtain t where t: "put s p True = Some t" "ok lo hi t" "elems t = insert p (elems s)"
    using put_in [of lo hi s p True] by auto
  with Cons.IH [of t] Cons.prems(2) show ?case by auto
qed

end

interpretation rbs: bounded_bits rbs_wf rbs_elems rbs_set
proof unfold_locales
  fix lo hi s p v
  assume "rbs_wf lo hi s" and "lo \<le> p" and "p \<le> hi"
  then show "\<exists>t. rbs_set s p v = Some t \<and> rbs_wf lo hi t \<and>
      rbs_elems t = (if v then insert p (rbs_elems s) else rbs_elems s - {p})"
    by (metis rbs_set_Some)
next
  fix lo hi s p v
  assume "rbs_wf lo hi s" and "\<not> (lo \<le> p \<and> p \<le> hi)"
  then show "rbs_set s p v = None"
    by (auto simp: rbs_set_def rbs_wf_def)
qed

end
