(* ===== verification/Cron_Schedule.thy ===== *)
theory Cron_Schedule
  imports Range_Bit_Set
begin

text \<open>
  \<open>src/cron/Schedule.cxx\<close>, the parser of crontab schedules: the data of \<open>CronSchedule\<close>, the
  number, range and list parsers, the special schedules and the constructor. A parser takes the
  rest of the input and returns what it read and the new rest; a thrown exception is \<open>Inl\<close>.
\<close>

section \<open>Data\<close>

record cron_schedule =
  minutes :: range_bitset
  hours :: range_bitset
  days_of_month :: range_bitset
  months :: range_bitset
  days_of_week :: range_bitset
  delay_range :: int
  days_any_wildcard :: bool

text \<open>
  The exceptions the parser throws. \<open>BitSetTerminate\<close> is the process termination of
  \<open>RangeBitSet::set\<close> outside its bounds and \<open>StepZeroLoop\<close> the endless loop of
  \<open>MakeRangeBitSet\<close> with step zero; the parser reaches neither, which
  \<open>CronSchedule_no_crash\<close> shows.
\<close>

datatype cron_error =
    FailedToParseNumber
  | NumberTooSmall
  | NumberTooLarge
  | MalformedRange
  | InvalidHourlyMultiplier
  | UnsupportedSpecial
  | GarbageAtEnd
  | BitSetTerminate
  | StepZeroLoop

type_synonym cron_symbol = "string \<times> nat"

definition month_names :: "cron_symbol list" where
  "month_names = [(''jan'', 1), (''feb'', 2), (''mar'', 3), (''apr'', 4), (''may'', 5),
     (''jun'', 6), (''jul'', 7), (''aug'', 8), (''sep'', 9), (''oct'', 10), (''nov'', 11),
     (''dec'', 12)]"

definition days_of_week_names :: "cron_symbol list" where
  "days_of_week_names = [(''mon'', 1), (''tue'', 2), (''wed'', 3), (''thu'', 4), (''fri'', 5),
     (''sat'', 6), (''sun'', 7)]"

section \<open>Number, range and list parsers\<close>

fun LookupCronSymbol :: "string_lib \<Rightarrow> string \<Rightarrow> cron_symbol list \<Rightarrow> (nat \<times> string) option" where
  "LookupCronSymbol lib s [] = None"
| "LookupCronSymbol lib s ((name, v) # rest) =
     (if StringIsEqualIgnoreCase lib s name (length name)
      then Some (v, drop (length name) s)
      else LookupCronSymbol lib s rest)"

text \<open>
  \<open>for (unsigned i = first; i <= last; i += step) b.set(i);\<close> The callers pass bounds below
  one hundred, so \<open>i += step\<close> does not wrap.
\<close>

function MakeRangeBitSet :: "range_bitset \<Rightarrow> nat \<Rightarrow> nat \<Rightarrow> nat \<Rightarrow> cron_error + range_bitset" where
  "MakeRangeBitSet b first until step =
     (if first \<le> until
      then case rbs_set b first True of
             None \<Rightarrow> Inl BitSetTerminate
           | Some b' \<Rightarrow> if step = 0 then Inl StepZeroLoop
                        else MakeRangeBitSet b' (first + step) until step
      else Inr b)"
  by pat_completeness auto
termination
  by (relation "measure (\<lambda>(b, first, until, step). until + 1 - first)") auto

declare MakeRangeBitSet.simps [simp del]

definition ParseNumber ::
  "string_lib \<Rightarrow> nat \<Rightarrow> nat \<Rightarrow> string \<Rightarrow> cron_symbol list option \<Rightarrow> cron_error + nat \<times> string" where
  "ParseNumber lib mn mx s dictionary =
     (let (value, endptr) = strtoul 10 s
      in if endptr = s
         then (case dictionary of
                 None \<Rightarrow> Inl FailedToParseNumber
               | Some d \<Rightarrow> (case LookupCronSymbol lib s d of
                              None \<Rightarrow> Inl FailedToParseNumber
                            | Some (v, s') \<Rightarrow> Inr (v, s')))
         else if mn > 0 \<and> value < mn then Inl NumberTooSmall
         else if value > mx then Inl NumberTooLarge
         else Inr (value, endptr))"

text \<open>
  The first part of \<open>ParseNumericRangeBitSet\<close> (the asterisk or the number and range), then
  the whole function. \<open>wildcard\<close> is \<open>None\<close> for the null pointer.
\<close>

definition ParseFirstLast ::
  "string_lib \<Rightarrow> nat \<Rightarrow> nat \<Rightarrow> string \<Rightarrow> cron_symbol list option \<Rightarrow> bool option
     \<Rightarrow> cron_error + nat \<times> nat \<times> string \<times> bool option" where
  "ParseFirstLast lib mn mx schedule dictionary wildcard =
     (if cderef schedule = CHR ''*''
      then (let s = tl schedule
            in Inr (mn, mx, s, if cderef s \<noteq> CHR ''/'' then map_option (\<lambda>_. True) wildcard
                               else wildcard))
      else then_do (ParseNumber lib mn mx schedule dictionary) (\<lambda>(first, s).
             if cderef s = CHR ''-''
             then then_do (ParseNumber lib mn mx (tl s) dictionary) (\<lambda>(until, s').
                    if until < first then Inl MalformedRange
                    else Inr (first, until, s', wildcard))
             else Inr (first, first, s, wildcard)))"

definition ParseStep ::
  "string_lib \<Rightarrow> nat \<Rightarrow> string \<Rightarrow> cron_symbol list option \<Rightarrow> cron_error + nat \<times> string" where
  "ParseStep lib mx s dictionary =
     (if cderef s = CHR ''/'' then ParseNumber lib 1 mx (tl s) dictionary else Inr (1, s))"

definition ParseNumericRangeBitSet ::
  "string_lib \<Rightarrow> range_bitset \<Rightarrow> string \<Rightarrow> cron_symbol list option \<Rightarrow> bool option
     \<Rightarrow> cron_error + range_bitset \<times> string \<times> bool option" where
  "ParseNumericRangeBitSet lib b schedule dictionary wildcard =
     then_do (ParseFirstLast lib (rb_MIN b) (rb_MAX b) schedule dictionary wildcard)
       (\<lambda>(first, until, s, w).
          then_do (ParseStep lib (rb_MAX b) s dictionary) (\<lambda>(step, s').
            then_do (MakeRangeBitSet b first until step) (\<lambda>b'. Inr (b', s', w))))"

lemma LookupCronSymbol_SomeD:
  "LookupCronSymbol lib s d = Some (v, s') \<Longrightarrow> v \<in> snd ` set d \<and> length s' \<le> length s"
  by (induction lib s d rule: LookupCronSymbol.induct) (auto split: if_splits)

lemma ParseNumber_length:
  "ParseNumber lib mn mx s d = Inr (v, s') \<Longrightarrow> length s' \<le> length s"
  using strtoul_endptr_le [of 10 s]
  by (auto simp: ParseNumber_def Let_def split: prod.splits if_splits option.splits
      dest: LookupCronSymbol_SomeD)

lemma ParseFirstLast_length:
  "ParseFirstLast lib mn mx s d w = Inr (f, l, s', w') \<Longrightarrow> length s' \<le> length s"
  by (auto simp: ParseFirstLast_def Let_def then_do_eq_Inr split: if_splits
      dest!: ParseNumber_length)

lemma ParseStep_length:
  "ParseStep lib mx s d = Inr (v, s') \<Longrightarrow> length s' \<le> length s"
  by (auto simp: ParseStep_def split: if_splits dest!: ParseNumber_length)

lemma ParseNumericRangeBitSet_length:
  "ParseNumericRangeBitSet lib b s d w = Inr (b', s', w') \<Longrightarrow> length s' \<le> length s"
  by (auto simp: ParseNumericRangeBitSet_def then_do_eq_Inr
      dest!: ParseFirstLast_length ParseStep_length)

text \<open>The loop of \<open>ParseNumericBitSet\<close>: each round but the last consumes a comma.\<close>

function ParseNumericList ::
  "string_lib \<Rightarrow> range_bitset \<Rightarrow> string \<Rightarrow> cron_symbol list option \<Rightarrow> bool option
     \<Rightarrow> cron_error + range_bitset \<times> string \<times> bool option" where
  "ParseNumericList lib b schedule dictionary wildcard =
     then_do (ParseNumericRangeBitSet lib b schedule dictionary wildcard) (\<lambda>(b', s, w).
       if cderef s \<noteq> CHR '','' then Inr (b', s, w)
       else ParseNumericList lib b' (tl s) dictionary w)"
  by pat_completeness auto
termination
proof (relation "measure (\<lambda>(lib, b, s, d, w). length s)", simp)
  fix lib b schedule d w x y b' s w'
  assume "ParseNumericRangeBitSet lib b schedule d w = Inr x" and "(b', y) = x" and "(s, w') = y"
    and comma: "\<not> cderef s \<noteq> CHR '',''"
  then have "length s \<le> length schedule"
    by (auto dest: ParseNumericRangeBitSet_length)
  moreover from comma have "s \<noteq> []" by auto
  ultimately have "length (tl s) < length schedule"
    by (cases s) auto
  then show "((lib, b', tl s, d, w'), (lib, b, schedule, d, w)) \<in> measure (\<lambda>(lib, b, s, d, w). length s)"
    by simp
qed

declare ParseNumericList.simps [simp del]

definition ParseNumericBitSet ::
  "string_lib \<Rightarrow> range_bitset \<Rightarrow> string \<Rightarrow> cron_symbol list option \<Rightarrow> bool option
     \<Rightarrow> cron_error + range_bitset \<times> string \<times> bool option" where
  "ParseNumericBitSet lib b schedule dictionary wildcard =
     ParseNumericList lib b (StripLeft lib schedule) dictionary wildcard"

section \<open>Special schedules\<close>

definition cron_special_schedules :: "(string \<times> string \<times> int) list" where
  "cron_special_schedules =
     [(''yearly'', ''0 0 1 1 *'', 3600 * (24 * 365)),
      (''annually'', ''0 0 1 1 *'', 3600 * (24 * 365)),
      (''monthly'', ''0 0 1 * *'', 3600 * (24 * 28)),
      (''weekly'', ''0 0 * * 0'', 3600 * (24 * 7)),
      (''daily'', ''0 0 * * *'', 3600 * 24),
      (''midnight'', ''0 0 * * *'', 3600 * 1),
      (''hourly'', ''0 * * * *'', 3600 * 1)]"

definition TranslateSpecial :: "string \<Rightarrow> (string \<times> int) option" where
  "TranslateSpecial s = map_of cron_special_schedules s"

section \<open>The constructor\<close>

definition cron_schedule_init :: cron_schedule where
  "cron_schedule_init = \<lparr>minutes = rbs_new 0 59, hours = rbs_new 0 23,
     days_of_month = rbs_new 1 31, months = rbs_new 1 12, days_of_week = rbs_new 0 6,
     delay_range = 60, days_any_wildcard = False\<rparr>"

definition IsOnce :: "cron_schedule \<Rightarrow> bool" where
  "IsOnce c \<longleftrightarrow> rbs_none (minutes c) \<and> rbs_none (hours c) \<and> rbs_none (days_of_month c) \<and>
     rbs_none (months c) \<and> rbs_none (days_of_week c)"

definition cron_schedule_eq :: "cron_schedule \<Rightarrow> cron_schedule \<Rightarrow> bool" where
  "cron_schedule_eq a b \<longleftrightarrow> minutes a = minutes b \<and> hours a = hours b \<and>
     days_of_month a = days_of_month b \<and> months a = months b \<and>
     days_of_week a = days_of_week b \<and> days_any_wildcard a = days_any_wildcard b"

text \<open>\<open>for (unsigned i = 0; i < days_of_week.size(); ++i) days_of_week.set(i, _days_of_week[i])\<close>\<close>

fun copy_days :: "range_bitset \<Rightarrow> range_bitset \<Rightarrow> nat list \<Rightarrow> cron_error + range_bitset" where
  "copy_days src dst [] = Inr dst"
| "copy_days src dst (i # ks) =
     (case rbs_set dst i (rbs_get src i) of
        None \<Rightarrow> Inl BitSetTerminate
      | Some dst' \<Rightarrow> copy_days src dst' ks)"

definition fold_sunday :: "range_bitset \<Rightarrow> range_bitset \<Rightarrow> cron_error + range_bitset" where
  "fold_sunday src dst =
     then_do (copy_days src dst [0..<rbs_size dst]) (\<lambda>d.
       if rbs_get src (rbs_size d)
       then (case rbs_set d 0 True of None \<Rightarrow> Inl BitSetTerminate | Some d' \<Rightarrow> Inr d')
       else Inr d)"

definition parse_fields :: "string_lib \<Rightarrow> cron_schedule \<Rightarrow> string \<Rightarrow> cron_error + cron_schedule" where
  "parse_fields lib c s =
     then_do (ParseNumericBitSet lib (minutes c) s None None) (\<lambda>(mi, s1, _).
     then_do (ParseNumericBitSet lib (hours c) s1 None None) (\<lambda>(ho, s2, _).
     then_do (ParseNumericBitSet lib (days_of_month c) s2 None (Some (days_any_wildcard c)))
       (\<lambda>(dm, s3, w1).
     then_do (ParseNumericBitSet lib (months c) s3 (Some month_names) None) (\<lambda>(mo, s4, _).
     then_do (ParseNumericBitSet lib (rbs_new 0 7) s4 (Some days_of_week_names) w1)
       (\<lambda>(dw7, s5, w2).
     then_do (fold_sunday dw7 (days_of_week c)) (\<lambda>dw.
       if cderef (StripLeft lib s5) \<noteq> NUL then Inl GarbageAtEnd
       else Inr (c\<lparr>minutes := mi, hours := ho, days_of_month := dm, months := mo,
                   days_of_week := dw, days_any_wildcard := (w2 = Some True)\<rparr>)))))))"

definition hourly_schedule :: "cron_schedule \<Rightarrow> nat \<Rightarrow> cron_error + cron_schedule" where
  "hourly_schedule c multiplier =
     (if multiplier < 1 \<or> multiplier > 24 then Inl InvalidHourlyMultiplier
      else then_do (case rbs_set (minutes c) 0 True of
                      None \<Rightarrow> Inl BitSetTerminate | Some m \<Rightarrow> Inr m) (\<lambda>mi.
           then_do (MakeRangeBitSet (hours c) 0 23 multiplier) (\<lambda>ho.
             Inr (c\<lparr>minutes := mi, hours := ho,
                    days_of_month := rbs_set_all (days_of_month c),
                    months := rbs_set_all (months c),
                    days_of_week := rbs_set_all (days_of_week c),
                    days_any_wildcard := True, delay_range := 3600 * int multiplier\<rparr>))))"

text \<open>
  The constructor up to the handler that wraps every exception into
  \<open>std::invalid_argument\<close> (so the outcome is the exception that is nested there).
\<close>

definition CronSchedule :: "string_lib \<Rightarrow> string \<Rightarrow> cron_error + cron_schedule" where
  "CronSchedule lib str =
     (let c = cron_schedule_init
      in if cderef str = CHR ''@''
         then (let s = tl str; (multiplier, endptr) = strtoul 10 s
               in if s = ''once'' then Inr (c\<lparr>delay_range := 0\<rparr>)
                  else if endptr \<noteq> s \<and> endptr = ''hourly'' then hourly_schedule c multiplier
                  else (case TranslateSpecial s of
                          None \<Rightarrow> Inl UnsupportedSpecial
                        | Some (regular, d) \<Rightarrow>
                            parse_fields lib (c\<lparr>delay_range := d\<rparr>) regular))
         else if cderef str = CHR ''*'' \<and> cderef (tl str) = CHR ''/''
         then (let t = tl (tl str); (value, endptr) = strtoul 10 t
               in parse_fields lib
                    (if endptr \<noteq> t \<and> cderef endptr \<noteq> CHR '',''
                     then c\<lparr>delay_range := 60 * int value\<rparr> else c) str)
         else parse_fields lib c str)"

section \<open>What the parsers deliver\<close>

text \<open>A loop over \<open>first, first + step, \<dots>\<close> sets exactly those positions.\<close>

lemma dvd_diff_step:
  fixes f p st :: nat
  assumes "f < p" and "f + st \<le> p"
  shows "st dvd p - (f + st) \<longleftrightarrow> st dvd p - f"
proof -
  have "p - f = (p - (f + st)) + st" using assms by simp
  then show ?thesis by (metis dvd_add_left_iff dvd_refl)
qed

lemma dvd_diff_less:
  fixes f p st :: nat
  assumes "f \<le> p" and "st dvd p - f" and "p < f + st"
  shows "p = f"
proof -
  have "p - f < st" using assms by simp
  with assms(2) have "p - f = 0" by (metis nat_dvd_not_less gr0I)
  with assms(1) show ?thesis by simp
qed

lemma MakeRangeBitSet_Inr:
  assumes "rbs_wf mn mx b" and "mn \<le> f" and "l \<le> mx" and "0 < st"
  shows "\<exists>b'. MakeRangeBitSet b f l st = Inr b' \<and> rbs_wf mn mx b' \<and>
    rbs_elems b' = rbs_elems b \<union> {p. f \<le> p \<and> p \<le> l \<and> st dvd p - f}"
  using assms
proof (induction b f l st rule: MakeRangeBitSet.induct)
  case (1 b f l st)
  show ?case
  proof (cases "f \<le> l")
    case False
    then show ?thesis using "1.prems" by (subst MakeRangeBitSet.simps) auto
  next
    case True
    then obtain t where t: "rbs_set b f True = Some t" "rbs_wf mn mx t"
      "rbs_elems t = insert f (rbs_elems b)"
      using rbs.put_in [OF "1.prems"(1), of f True] "1.prems" by auto
    then obtain b' where b': "MakeRangeBitSet t (f + st) l st = Inr b'" "rbs_wf mn mx b'"
      "rbs_elems b' = rbs_elems t \<union> {p. f + st \<le> p \<and> p \<le> l \<and> st dvd p - (f + st)}"
      using "1.IH" [OF True t(1)] "1.prems" by auto
    have "{p. f \<le> p \<and> p \<le> l \<and> st dvd p - f}
        = insert f {p. f + st \<le> p \<and> p \<le> l \<and> st dvd p - (f + st)}" (is "?A = ?B")
    proof
      show "?A \<subseteq> ?B"
      proof
        fix p assume "p \<in> ?A"
        then show "p \<in> ?B"
          using dvd_diff_less [of f p st] \<open>0 < st\<close>
          by (cases "f + st \<le> p") (auto simp: dvd_diff_step)
      qed
      show "?B \<subseteq> ?A"
        using True \<open>0 < st\<close> by (auto simp: dvd_diff_step)
    qed
    with True t b' "1.prems"(4) show ?thesis
      by (subst MakeRangeBitSet.simps) auto
  qed
qed

text \<open>Every symbol of a dictionary is a valid value and a valid step of its field.\<close>

definition dict_ok :: "nat \<Rightarrow> cron_symbol list option \<Rightarrow> bool" where
  "dict_ok mx d \<longleftrightarrow> (\<forall>ds. d = Some ds \<longrightarrow> (\<forall>v \<in> snd ` set ds. 1 \<le> v \<and> v \<le> mx))"

lemma dict_ok_simps [simp]:
  "dict_ok mx None" "dict_ok 12 (Some month_names)" "dict_ok 7 (Some days_of_week_names)"
  by (simp_all add: dict_ok_def month_names_def days_of_week_names_def)

lemma ParseNumber_bounds:
  assumes "dict_ok mx d" and "mn \<le> 1" and "ParseNumber lib mn mx s d = Inr (v, s')"
  shows "mn \<le> v \<and> v \<le> mx"
  using assms
  by (fastforce simp: ParseNumber_def Let_def dict_ok_def
      split: prod.splits if_splits option.splits dest: LookupCronSymbol_SomeD)

lemma ParseNumber_throws:
  "ParseNumber lib mn mx s d = Inl e \<Longrightarrow>
     e = FailedToParseNumber \<or> e = NumberTooSmall \<or> e = NumberTooLarge"
  by (auto simp: ParseNumber_def Let_def split: prod.splits if_splits option.splits)

lemma ParseFirstLast_bounds:
  assumes "dict_ok mx d" and "mn \<le> 1" and "mn \<le> mx"
    and "ParseFirstLast lib mn mx s d w = Inr (f, l, s', w')"
  shows "mn \<le> f \<and> f \<le> l \<and> l \<le> mx"
  using assms
  by (auto simp: ParseFirstLast_def Let_def then_do_eq_Inr split: if_splits
      dest!: ParseNumber_bounds [OF assms(1,2)])

lemma ParseFirstLast_wildcard:
  assumes "ParseFirstLast lib mn mx s d w = Inr (f, l, s', w')"
  shows "(w' = None \<longleftrightarrow> w = None) \<and>
    (w' = Some True \<longrightarrow> w = Some True \<or> f = mn \<and> l = mx \<and> cderef s' \<noteq> CHR ''/'')"
  using assms
  by (auto simp: ParseFirstLast_def Let_def then_do_eq_Inr split: if_splits)

lemma ParseStep_bounds:
  assumes "dict_ok mx d" and "ParseStep lib mx s d = Inr (st, s')"
  shows "1 \<le> st \<and> (cderef s \<noteq> CHR ''/'' \<longrightarrow> st = 1)"
  using assms ParseNumber_bounds [OF assms(1), of 1] by (auto simp: ParseStep_def split: if_splits)

text \<open>
  What every list parser guarantees of the bit set it extends: the bounds stay, bits are only
  added, at least one is set, and the wildcard flag goes up only when the field is full.
\<close>

definition parsed :: "nat \<Rightarrow> nat \<Rightarrow> range_bitset \<Rightarrow> bool option \<Rightarrow> range_bitset \<Rightarrow> bool option \<Rightarrow> bool" where
  "parsed mn mx b w b' w' \<longleftrightarrow> rbs_wf mn mx b' \<and> rbs_elems b \<subseteq> rbs_elems b' \<and> rbs_elems b' \<noteq> {} \<and>
     (w' = None \<longleftrightarrow> w = None) \<and> (w' = Some True \<longrightarrow> w = Some True \<or> rbs_elems b' = {mn..mx})"

lemma ParseNumericRangeBitSet_parsed:
  assumes wf: "rbs_wf mn mx b" and d: "dict_ok mx d" and mn: "mn \<le> 1"
    and p: "ParseNumericRangeBitSet lib b s d w = Inr (b', s', w')"
  shows "parsed mn mx b w b' w'"
proof -
  have min_max: "rb_MIN b = mn" "rb_MAX b = mx" "mn \<le> mx"
    using wf by (auto simp: rbs_wf_def)
  obtain f l s1 st where fl: "ParseFirstLast lib mn mx s d w = Inr (f, l, s1, w')"
    and st: "ParseStep lib mx s1 d = Inr (st, s')" and mk: "MakeRangeBitSet b f l st = Inr b'"
    using p by (auto simp: ParseNumericRangeBitSet_def then_do_eq_Inr min_max)
  have bnd: "mn \<le> f \<and> f \<le> l \<and> l \<le> mx"
    by (rule ParseFirstLast_bounds [OF d mn min_max(3) fl])
  have st1: "1 \<le> st \<and> (cderef s1 \<noteq> CHR ''/'' \<longrightarrow> st = 1)"
    by (rule ParseStep_bounds [OF d st])
  have b': "rbs_wf mn mx b'" "rbs_elems b' = rbs_elems b \<union> {p. f \<le> p \<and> p \<le> l \<and> st dvd p - f}"
    using MakeRangeBitSet_Inr [OF wf, of f l st] bnd st1 mk by auto
  have "rbs_elems b \<subseteq> {mn..mx}" by (rule rbs_elems_subset [OF wf])
  with b' bnd st1 ParseFirstLast_wildcard [OF fl] show ?thesis
    by (auto simp: parsed_def)
qed

lemma parsed_trans:
  "parsed mn mx b w b1 w1 \<Longrightarrow> parsed mn mx b1 w1 b2 w2 \<Longrightarrow> parsed mn mx b w b2 w2"
  using rbs_elems_subset [of mn mx b2] by (auto simp: parsed_def)

lemma ParseNumericList_parsed:
  assumes "rbs_wf mn mx b" and "dict_ok mx d" and "mn \<le> 1"
    and "ParseNumericList lib b s d w = Inr (b', s', w')"
  shows "parsed mn mx b w b' w'"
  using assms
proof (induction lib b s d w rule: ParseNumericList.induct)
  case (1 lib b s d w)
  obtain b1 s1 w1 where r: "ParseNumericRangeBitSet lib b s d w = Inr (b1, s1, w1)"
    using "1.prems"(4) by (subst (asm) ParseNumericList.simps) (auto simp: then_do_eq_Inr)
  have p1: "parsed mn mx b w b1 w1"
    by (rule ParseNumericRangeBitSet_parsed [OF "1.prems"(1-3) r])
  show ?case
  proof (cases "cderef s1 = CHR '',''")
    case False
    then show ?thesis using p1 "1.prems"(4) r by (subst (asm) ParseNumericList.simps) auto
  next
    case True
    then have "ParseNumericList lib b1 (tl s1) d w1 = Inr (b', s', w')"
      using "1.prems"(4) r by (subst (asm) ParseNumericList.simps) auto
    then have "parsed mn mx b1 w1 b' w'"
      using "1.IH" [OF r refl refl] True p1 "1.prems"(2,3) by (auto simp: parsed_def)
    with p1 show ?thesis by (rule parsed_trans)
  qed
qed

lemma ParseNumericBitSet_parsed:
  "rbs_wf mn mx b \<Longrightarrow> dict_ok mx d \<Longrightarrow> mn \<le> 1 \<Longrightarrow>
    ParseNumericBitSet lib b s d w = Inr (b', s', w') \<Longrightarrow> parsed mn mx b w b' w'"
  unfolding ParseNumericBitSet_def by (rule ParseNumericList_parsed)

text \<open>No list parser runs into the two failures that are not exceptions.\<close>

abbreviation crash :: "cron_error set" where
  "crash \<equiv> {BitSetTerminate, StepZeroLoop}"

lemma ParseNumericRangeBitSet_no_crash:
  assumes wf: "rbs_wf mn mx b" and d: "dict_ok mx d" and mn: "mn \<le> 1"
    and p: "ParseNumericRangeBitSet lib b s d w = Inl e"
  shows "e \<notin> crash"
proof -
  have min_max: "rb_MIN b = mn" "rb_MAX b = mx" "mn \<le> mx"
    using wf by (auto simp: rbs_wf_def)
  have "\<exists>b'. MakeRangeBitSet b f l st = Inr b'"
    if "ParseFirstLast lib mn mx s d w = Inr (f, l, s1, w1)"
      and "ParseStep lib mx s1 d = Inr (st, s2)" for f l s1 w1 st s2
    using MakeRangeBitSet_Inr [OF wf, of f l st] ParseFirstLast_bounds [OF d mn min_max(3) that(1)]
      ParseStep_bounds [OF d that(2)] by auto
  then have "ParseFirstLast lib mn mx s d w = Inl e \<or> (\<exists>s1. ParseStep lib mx s1 d = Inl e)"
    using p by (fastforce simp: ParseNumericRangeBitSet_def then_do_eq_Inl min_max)
  then show ?thesis
    by (auto simp: ParseFirstLast_def ParseStep_def then_do_eq_Inl Let_def split: if_splits
        dest: ParseNumber_throws)
qed

lemma ParseNumericList_no_crash:
  assumes "rbs_wf mn mx b" and "dict_ok mx d" and "mn \<le> 1"
    and "ParseNumericList lib b s d w = Inl e"
  shows "e \<notin> crash"
  using assms
proof (induction lib b s d w rule: ParseNumericList.induct)
  case (1 lib b s d w)
  show ?case
  proof (cases "ParseNumericRangeBitSet lib b s d w")
    case (Inl e')
    then show ?thesis
      using "1.prems" ParseNumericRangeBitSet_no_crash [OF "1.prems"(1-3) Inl]
      by (subst (asm) ParseNumericList.simps) auto
  next
    case (Inr x)
    obtain b1 s1 w1 where x: "x = (b1, s1, w1)" by (cases x) auto
    have "rbs_wf mn mx b1"
      using ParseNumericRangeBitSet_parsed [OF "1.prems"(1-3), of lib s w] Inr x
      by (auto simp: parsed_def)
    moreover have "ParseNumericList lib b1 (tl s1) d w1 = Inl e" and "cderef s1 = CHR '',''"
      using "1.prems"(4) Inr x by (subst (asm) ParseNumericList.simps; simp split: if_splits)+
    ultimately show ?thesis
      using "1.IH" [OF Inr [unfolded x] refl refl] "1.prems"(2,3) by simp
  qed
qed

lemma ParseNumericBitSet_no_crash:
  "rbs_wf mn mx b \<Longrightarrow> dict_ok mx d \<Longrightarrow> mn \<le> 1 \<Longrightarrow>
    ParseNumericBitSet lib b s d w = Inl e \<Longrightarrow> e \<notin> crash"
  unfolding ParseNumericBitSet_def by (rule ParseNumericList_no_crash)

text \<open>The days-of-week copy: day 7 is folded onto day 0.\<close>

lemma copy_days_Inr:
  assumes "rbs_wf 0 7 src" and "rbs_wf 0 6 dst" and "set ks \<subseteq> {0..6}"
  shows "\<exists>d. copy_days src dst ks = Inr d \<and> rbs_wf 0 6 d \<and>
    rbs_elems d = (rbs_elems dst - set ks) \<union> (rbs_elems src \<inter> set ks)"
  using assms(2,3)
proof (induction ks arbitrary: dst)
  case Nil
  then show ?case by simp
next
  case (Cons i ks)
  then obtain t where t: "rbs_set dst i (rbs_get src i) = Some t" "rbs_wf 0 6 t"
    "rbs_elems t = (if rbs_get src i then insert i (rbs_elems dst) else rbs_elems dst - {i})"
    using rbs.put_in [of 0 6 dst i "rbs_get src i"] by auto
  have get: "rbs_get src i \<longleftrightarrow> i \<in> rbs_elems src"
    using rbs_get_elems [OF assms(1), of i] Cons.prems(2) by auto
  obtain d where "copy_days src t ks = Inr d" "rbs_wf 0 6 d"
    "rbs_elems d = (rbs_elems t - set ks) \<union> (rbs_elems src \<inter> set ks)"
    using Cons.IH [OF t(2)] Cons.prems(2) by auto
  then show ?case using t get by (auto split: if_splits)
qed

lemma fold_sunday_Inr:
  assumes src: "rbs_wf 0 7 src" and dst: "rbs_wf 0 6 dst"
  shows "\<exists>d. fold_sunday src dst = Inr d \<and> rbs_wf 0 6 d \<and>
    rbs_elems d = (\<lambda>i. i mod 7) ` rbs_elems src"
proof -
  have "set [0..<rbs_size dst] = {0..6}"
    using dst by (auto simp: rbs_size_def rbs_wf_def)
  then obtain d where d: "copy_days src dst [0..<rbs_size dst] = Inr d" "rbs_wf 0 6 d"
    "rbs_elems d = (rbs_elems dst - {0..6}) \<union> (rbs_elems src \<inter> {0..6})"
    using copy_days_Inr [OF src dst, of "[0..<rbs_size dst]"] by auto
  have el: "rbs_elems d = rbs_elems src \<inter> {0..6}"
    using d(3) rbs_elems_subset [OF dst] by auto
  have size: "rbs_size d = 7" using d(2) by (simp add: rbs_size_def rbs_wf_def)
  have get7: "rbs_get src 7 \<longleftrightarrow> 7 \<in> rbs_elems src"
    by (rule rbs_get_elems [OF src]) simp_all
  have sub: "rbs_elems src \<subseteq> {0..7}" by (rule rbs_elems_subset [OF src])
  have img: "(\<lambda>i. i mod 7) ` rbs_elems src =
      (rbs_elems src \<inter> {0..6}) \<union> (if 7 \<in> rbs_elems src then {0} else {})"
  proof -
    have "i mod 7 = (if i = 7 then 0 else i)" if "i \<in> rbs_elems src" for i
      using sub that by (cases "i = 7") auto
    then have "(\<lambda>i. i mod 7) ` rbs_elems src = (\<lambda>i. if i = 7 then 0 else i) ` rbs_elems src"
      by (intro image_cong) auto
    also have "\<dots> = (rbs_elems src \<inter> {0..6}) \<union> (if 7 \<in> rbs_elems src then {0} else {})"
      using sub by force
    finally show ?thesis .
  qed
  obtain t where "rbs_set d 0 True = Some t" "rbs_wf 0 6 t" "rbs_elems t = insert 0 (rbs_elems d)"
    using rbs.put_in [OF d(2), of 0 True] by auto
  then show ?thesis
    using d(1,2) el size get7 img by (auto simp: fold_sunday_def)
qed

section \<open>Invariant of a schedule\<close>

definition cron_bounds :: "cron_schedule \<Rightarrow> bool" where
  "cron_bounds c \<longleftrightarrow> rbs_wf 0 59 (minutes c) \<and> rbs_wf 0 23 (hours c) \<and>
     rbs_wf 1 31 (days_of_month c) \<and> rbs_wf 1 12 (months c) \<and> rbs_wf 0 6 (days_of_week c)"

definition cron_nonempty :: "cron_schedule \<Rightarrow> bool" where
  "cron_nonempty c \<longleftrightarrow> rbs_elems (minutes c) \<noteq> {} \<and> rbs_elems (hours c) \<noteq> {} \<and>
     rbs_elems (days_of_month c) \<noteq> {} \<and> rbs_elems (months c) \<noteq> {} \<and> rbs_elems (days_of_week c) \<noteq> {}"

definition cron_wildcard_ok :: "cron_schedule \<Rightarrow> bool" where
  "cron_wildcard_ok c \<longleftrightarrow> (days_any_wildcard c \<longrightarrow>
     rbs_elems (days_of_month c) = {1..31} \<or> rbs_elems (days_of_week c) = {0..6})"

text \<open>What every schedule but \<open>@once\<close> satisfies after construction.\<close>

definition cron_ok :: "cron_schedule \<Rightarrow> bool" where
  "cron_ok c \<longleftrightarrow> cron_bounds c \<and> cron_nonempty c \<and> cron_wildcard_ok c"

lemma cron_schedule_init_bounds [wf_intros]: "cron_bounds cron_schedule_init"
  by (simp add: cron_bounds_def cron_schedule_init_def rbs_new_wf)

lemma IsOnce_iff: "cron_bounds c \<Longrightarrow> IsOnce c \<longleftrightarrow>
    rbs_elems (minutes c) = {} \<and> rbs_elems (hours c) = {} \<and> rbs_elems (days_of_month c) = {} \<and>
    rbs_elems (months c) = {} \<and> rbs_elems (days_of_week c) = {}"
  by (auto simp: cron_bounds_def IsOnce_def rbs_none_iff)

lemma cron_ok_not_once: "cron_ok c \<Longrightarrow> \<not> IsOnce c"
  by (auto simp: cron_ok_def cron_nonempty_def IsOnce_iff)

lemma mod7_image: "(\<lambda>i. i mod 7) ` {0..7} = {0..6::nat}"
proof
  show "(\<lambda>i. i mod 7) ` {0..7} \<subseteq> {0..6::nat}"
    by (auto simp: less_Suc_eq_le [symmetric])
  show "{0..6::nat} \<subseteq> (\<lambda>i. i mod 7) ` {0..7}"
  proof
    fix i :: nat
    assume "i \<in> {0..6}"
    then have "i = i mod 7" and "i \<in> {0..7}" by auto
    then show "i \<in> (\<lambda>i. i mod 7) ` {0..7}" by blast
  qed
qed

lemma parse_fields_cron_ok:
  assumes c: "cron_bounds c" "\<not> days_any_wildcard c" and p: "parse_fields lib c s = Inr c'"
  shows "cron_ok c'"
proof -
  obtain mi s1 w1 ho s2 w2 dm s3 w3 mo s4 w4 dw7 s5 w5 dw where
    mi: "ParseNumericBitSet lib (minutes c) s None None = Inr (mi, s1, w1)" and
    ho: "ParseNumericBitSet lib (hours c) s1 None None = Inr (ho, s2, w2)" and
    dm: "ParseNumericBitSet lib (days_of_month c) s2 None (Some (days_any_wildcard c)) = Inr (dm, s3, w3)" and
    mo: "ParseNumericBitSet lib (months c) s3 (Some month_names) None = Inr (mo, s4, w4)" and
    dw7: "ParseNumericBitSet lib (rbs_new 0 7) s4 (Some days_of_week_names) w3 = Inr (dw7, s5, w5)" and
    dw: "fold_sunday dw7 (days_of_week c) = Inr dw" and
    c': "c' = c\<lparr>minutes := mi, hours := ho, days_of_month := dm, months := mo,
            days_of_week := dw, days_any_wildcard := (w5 = Some True)\<rparr>"
    using p by (auto simp: parse_fields_def then_do_eq_Inr split: if_splits)
  have P: "parsed 0 59 (minutes c) None mi w1" "parsed 0 23 (hours c) None ho w2"
    "parsed 1 31 (days_of_month c) (Some False) dm w3" "parsed 1 12 (months c) None mo w4"
    "parsed 0 7 (rbs_new 0 7) w3 dw7 w5"
    using c ParseNumericBitSet_parsed [OF _ _ _ mi] ParseNumericBitSet_parsed [OF _ _ _ ho]
      ParseNumericBitSet_parsed [OF _ _ _ dm] ParseNumericBitSet_parsed [OF _ _ _ mo]
      ParseNumericBitSet_parsed [OF _ _ _ dw7] by (auto simp: cron_bounds_def rbs_new_wf)
  have D: "rbs_wf 0 6 dw" "rbs_elems dw = (\<lambda>i. i mod 7) ` rbs_elems dw7"
    using fold_sunday_Inr [of dw7 "days_of_week c"] P(5) c(1) dw by (auto simp: parsed_def cron_bounds_def)
  show ?thesis
    using P D mod7_image unfolding c' cron_ok_def cron_bounds_def cron_nonempty_def cron_wildcard_ok_def
    by (auto simp: parsed_def)
qed

lemma hourly_schedule_Inr:
  assumes c: "cron_bounds c" "rbs_elems (hours c) = {}" "rbs_elems (minutes c) = {}"
    and m: "1 \<le> m" "m \<le> 24"
  shows "\<exists>c'. hourly_schedule c m = Inr c' \<and> cron_ok c' \<and> rbs_elems (minutes c') = {0} \<and>
    rbs_elems (hours c') = {h. h < 24 \<and> m dvd h} \<and> rbs_elems (days_of_month c') = {1..31} \<and>
    rbs_elems (months c') = {1..12} \<and> rbs_elems (days_of_week c') = {0..6} \<and>
    days_any_wildcard c' \<and> delay_range c' = 3600 * int m"
proof -
  obtain mi where mi: "rbs_set (minutes c) 0 True = Some mi" "rbs_wf 0 59 mi" "rbs_elems mi = {0}"
    using rbs.put_in [of 0 59 "minutes c" 0 True] c by (auto simp: cron_bounds_def)
  obtain ho where ho: "MakeRangeBitSet (hours c) 0 23 m = Inr ho" "rbs_wf 0 23 ho"
    "rbs_elems ho = {p. p \<le> 23 \<and> m dvd p}"
    using MakeRangeBitSet_Inr [of 0 23 "hours c" 0 23 m] c m by (auto simp: cron_bounds_def)
  have "(0::nat) \<in> {p. p \<le> 23 \<and> m dvd p}" by simp
  then have ne: "rbs_elems ho \<noteq> {}" using ho(3) by blast
  have eq: "{p. p \<le> 23 \<and> m dvd p} = {h. h < 24 \<and> m dvd h}" by auto
  show ?thesis
    using mi ho ne c(1) m rbs_elems_set_all [of 1 31 "days_of_month c"]
      rbs_elems_set_all [of 1 12 "months c"] rbs_elems_set_all [of 0 6 "days_of_week c"]
    by (auto simp: hourly_schedule_def cron_ok_def cron_bounds_def cron_nonempty_def
        cron_wildcard_ok_def eq intro: wf_intros)
qed

section \<open>The constructor's guarantees\<close>

text \<open>Evaluation of the parser on a closed string by the simplifier.\<close>

lemmas cron_eval =
  CronSchedule_def parse_fields_def ParseNumericBitSet_def ParseNumericList.simps
  ParseNumericRangeBitSet_def ParseFirstLast_def ParseStep_def ParseNumber_def MakeRangeBitSet.simps
  fold_sunday_def cron_schedule_init_def rbs_new_def rbs_set_def rbs_get_def rbs_size_def
  strtoul_def strtoul_digits_def skip_sign_def is_space_def is_digit_def digits_value_def
  month_names_def days_of_week_names_def ascii_lib_def to_lower_def upt_rec TranslateSpecial_def
  cron_special_schedules_def

lemma init_elems:
  "rbs_elems (hours cron_schedule_init) = {}" "rbs_elems (minutes cron_schedule_init) = {}"
  "\<not> days_any_wildcard cron_schedule_init"
  by (simp_all add: cron_schedule_init_def)

lemma cron_bounds_delay [simp]: "cron_bounds (c\<lparr>delay_range := d\<rparr>) = cron_bounds c"
  by (simp add: cron_bounds_def)

lemma parse_fields_init_ok:
  "parse_fields lib (cron_schedule_init\<lparr>delay_range := d\<rparr>) s = Inr c \<Longrightarrow> cron_ok c"
  using parse_fields_cron_ok [of "cron_schedule_init\<lparr>delay_range := d\<rparr>" lib s c]
    cron_schedule_init_bounds init_elems by simp

lemma parse_fields_init_ok0:
  "parse_fields lib cron_schedule_init s = Inr c \<Longrightarrow> cron_ok c"
  using parse_fields_cron_ok [OF cron_schedule_init_bounds] init_elems by simp

lemma hourly_init:
  "1 \<le> m \<Longrightarrow> m \<le> 24 \<Longrightarrow> \<exists>c'. hourly_schedule cron_schedule_init m = Inr c' \<and> cron_ok c' \<and>
    rbs_elems (minutes c') = {0} \<and> rbs_elems (hours c') = {h. h < 24 \<and> m dvd h} \<and>
    rbs_elems (days_of_month c') = {1..31} \<and> rbs_elems (months c') = {1..12} \<and>
    rbs_elems (days_of_week c') = {0..6} \<and> days_any_wildcard c' \<and> delay_range c' = 3600 * int m"
  by (rule hourly_schedule_Inr [OF cron_schedule_init_bounds init_elems(1,2)])

lemma hourly_init_ok: "hourly_schedule cron_schedule_init m = Inr c \<Longrightarrow> cron_ok c"
  using hourly_init [of m] by (cases "1 \<le> m \<and> m \<le> 24") (auto simp: hourly_schedule_def)

lemma cron_parsed_ok:
  assumes "CronSchedule lib s = Inr c" and "s \<noteq> ''@once''"
  shows "cron_ok c"
proof (cases "cderef s = CHR ''@''")
  case True
  then obtain t where s: "s = CHR ''@'' # t" by (cases s) auto
  with assms(2) have "t \<noteq> ''once''" by simp
  with assms(1) s show ?thesis
    by (auto simp: CronSchedule_def Let_def split: prod.splits if_splits option.splits
        dest: hourly_init_ok parse_fields_init_ok)
next
  case False
  with assms(1) show ?thesis
    by (auto simp: CronSchedule_def Let_def split: prod.splits if_splits
        dest: parse_fields_init_ok parse_fields_init_ok0)
qed

text \<open>
  C1: Construction from a string succeeds only with a usable schedule: unless the string is
  \<open>@once\<close>, every field's bit set has its declared bounds, has at least one bit set, and the
  wildcard flag is up only when the days of month or the days of week are all set.
\<close>

theorem CronSchedule_ok:
  assumes "CronSchedule lib s = Inr c" and "s \<noteq> ''@once''"
  shows "cron_ok c \<and> \<not> IsOnce c"
  using cron_parsed_ok [OF assms] cron_ok_not_once by blast

theorem CronSchedule_ok_witness:
  "\<exists>c. CronSchedule ascii_lib ''30 */6 13 * 5'' = Inr c \<and> cron_ok c \<and> \<not> IsOnce c"
proof -
  have "\<exists>c. CronSchedule ascii_lib ''30 */6 13 * 5'' = Inr c" by (simp add: cron_eval)
  moreover have "''30 */6 13 * 5'' \<noteq> ''@once''" by simp
  ultimately show ?thesis using CronSchedule_ok by blast
qed

lemma parse_fields_no_crash:
  assumes c: "cron_bounds c" and p: "parse_fields lib c s = Inl e"
  shows "e \<notin> crash"
proof -
  have "\<exists>d. fold_sunday dw7 (days_of_week c) = Inr d"
    if "ParseNumericBitSet lib (rbs_new 0 7) s4 (Some days_of_week_names) w = Inr (dw7, s5, w5)" for s4 w dw7 s5 w5
    using ParseNumericBitSet_parsed [OF _ _ _ that] fold_sunday_Inr [of dw7 "days_of_week c"] c
    by (fastforce simp: parsed_def cron_bounds_def rbs_new_wf)
  then have "(\<exists>s w. ParseNumericBitSet lib (minutes c) s None w = Inl e) \<or>
    (\<exists>s w. ParseNumericBitSet lib (hours c) s None w = Inl e) \<or>
    (\<exists>s w. ParseNumericBitSet lib (days_of_month c) s None w = Inl e) \<or>
    (\<exists>s w. ParseNumericBitSet lib (months c) s (Some month_names) w = Inl e) \<or>
    (\<exists>s w. ParseNumericBitSet lib (rbs_new 0 7) s (Some days_of_week_names) w = Inl e) \<or>
    e = GarbageAtEnd"
    using p by (fastforce simp: parse_fields_def then_do_eq_Inl split: if_splits)
  moreover have "ParseNumericBitSet lib b t d w \<noteq> Inl e"
    if "e \<in> crash" "rbs_wf mn mx b" "dict_ok mx d" "mn \<le> 1" for mn mx b t d w
    using ParseNumericBitSet_no_crash that by blast
  note no = this [of 0 59 "minutes c" None] this [of 0 23 "hours c" None]
    this [of 1 31 "days_of_month c" None] this [of 1 12 "months c" "Some month_names"]
    this [of 0 7 "rbs_new 0 7" "Some days_of_week_names"]
  ultimately show ?thesis
    using no c unfolding cron_bounds_def by (auto simp: rbs_new_wf)
qed

text \<open>
  C2: no input string makes the parser set a bit outside a bit set's bounds (which would
  terminate the process) or loop forever on a zero step: what it throws is a parse error.
\<close>

theorem CronSchedule_no_crash:
  assumes "CronSchedule lib s = Inl e"
  shows "e \<notin> {BitSetTerminate, StepZeroLoop}"
proof -
  have "e \<notin> crash" if "hourly_schedule cron_schedule_init m = Inl e" for m
    using hourly_init [of m] that by (cases "1 \<le> m \<and> m \<le> 24") (auto simp: hourly_schedule_def)
  moreover have "e \<notin> crash" if "parse_fields lib cron_schedule_init t = Inl e" for t
    using parse_fields_no_crash [OF cron_schedule_init_bounds that] .
  moreover have "e \<notin> crash" if "parse_fields lib (cron_schedule_init\<lparr>delay_range := d\<rparr>) t = Inl e" for d t
    using parse_fields_no_crash [OF _ that] cron_schedule_init_bounds by simp
  ultimately show ?thesis
    using assms by (auto simp: CronSchedule_def Let_def split: prod.splits if_splits option.splits)
qed

theorem CronSchedule_no_crash_witness:
  "CronSchedule ascii_lib ''* * * * 7-3'' = Inl MalformedRange \<and>
   MalformedRange \<notin> {BitSetTerminate, StepZeroLoop}"
proof -
  have "CronSchedule ascii_lib ''* * * * 7-3'' = Inl MalformedRange" by (simp add: cron_eval)
  with CronSchedule_no_crash show ?thesis by blast
qed

end
