(* ===== verification/Cron_Syntax.thy ===== *)
theory Cron_Syntax
  imports Cron_Schedule
begin

text \<open>
  The crontab(5) syntax as data, its printer, and the set of values an item stands for. Against
  this specification the parser of \<open>src/cron/Schedule.cxx\<close> is proved correct: parsing the
  printed text of five well-formed fields yields the schedule with exactly the denoted sets.
\<close>

datatype cron_item =
    Star "nat option"
  | One nat "nat option"
  | Span nat nat "nat option"

fun print_step :: "nat option \<Rightarrow> string" where
  "print_step None = []"
| "print_step (Some n) = CHR ''/'' # show_nat n"

fun print_item :: "cron_item \<Rightarrow> string" where
  "print_item (Star st) = CHR ''*'' # print_step st"
| "print_item (One a st) = show_nat a @ print_step st"
| "print_item (Span a b st) = show_nat a @ CHR ''-'' # show_nat b @ print_step st"

fun print_items :: "cron_item list \<Rightarrow> string" where
  "print_items [] = []"
| "print_items [i] = print_item i"
| "print_items (i # is') = print_item i @ CHR '','' # print_items is'"

definition step_of :: "nat option \<Rightarrow> nat" where
  "step_of st = (case st of None \<Rightarrow> 1 | Some n \<Rightarrow> n)"

definition step_ok :: "nat \<Rightarrow> nat option \<Rightarrow> bool" where
  "step_ok mx st \<longleftrightarrow> 1 \<le> step_of st \<and> (st \<noteq> None \<longrightarrow> step_of st \<le> mx)"

fun item_ok :: "nat \<Rightarrow> nat \<Rightarrow> cron_item \<Rightarrow> bool" where
  "item_ok mn mx (Star st) \<longleftrightarrow> step_ok mx st"
| "item_ok mn mx (One a st) \<longleftrightarrow> mn \<le> a \<and> a \<le> mx \<and> step_ok mx st"
| "item_ok mn mx (Span a b st) \<longleftrightarrow> mn \<le> a \<and> a \<le> b \<and> b \<le> mx \<and> step_ok mx st"

definition span_elems :: "nat \<Rightarrow> nat \<Rightarrow> nat option \<Rightarrow> nat set" where
  "span_elems a b st = {p. a \<le> p \<and> p \<le> b \<and> step_of st dvd p - a}"

fun item_elems :: "nat \<Rightarrow> nat \<Rightarrow> cron_item \<Rightarrow> nat set" where
  "item_elems mn mx (Star st) = span_elems mn mx st"
| "item_elems mn mx (One a st) = {a}"
| "item_elems mn mx (Span a b st) = span_elems a b st"

definition items_elems :: "nat \<Rightarrow> nat \<Rightarrow> cron_item list \<Rightarrow> nat set" where
  "items_elems mn mx is' = (\<Union>i \<in> set is'. item_elems mn mx i)"

definition items_ok :: "nat \<Rightarrow> nat \<Rightarrow> cron_item list \<Rightarrow> bool" where
  "items_ok mn mx is' \<longleftrightarrow> is' \<noteq> [] \<and> list_all (item_ok mn mx) is'"

section \<open>The pieces of the parser on printed text\<close>

text \<open>The text after an item: the end, a comma or the blank before the next field.\<close>

definition stop :: "string \<Rightarrow> bool" where
  "stop r \<longleftrightarrow> r = [] \<or> hd r = CHR '','' \<or> hd r = CHR '' ''"

lemma stop_cderef:
  "stop r \<Longrightarrow> cderef r \<noteq> CHR ''/'' \<and> cderef r \<noteq> CHR ''-''"
  by (cases r) (auto simp: stop_def)

lemma stop_not_digit: "stop r \<Longrightarrow> r = [] \<or> \<not> is_digit 10 (hd r)"
  by (auto simp: stop_def is_digit_def)

lemma print_step_not_digit: "stop r \<Longrightarrow> print_step st @ r = [] \<or> \<not> is_digit 10 (hd (print_step st @ r))"
  using stop_not_digit [of r] by (cases st) (auto simp: is_digit_def)

lemma ParseNumber_show:
  assumes "mn \<le> n" and "n \<le> mx" and "mx < 100" and r: "r = [] \<or> \<not> is_digit 10 (hd r)"
  shows "ParseNumber lib mn mx (show_nat n @ r) d = Inr (n, r)"
proof -
  have "strtoul 10 (show_nat n @ r) = (n, r)"
    using assms by (intro strtoul_show_nat) auto
  moreover have "r \<noteq> show_nat n @ r" by simp
  ultimately show ?thesis using assms by (simp add: ParseNumber_def)
qed

lemma ParseStep_print:
  assumes "stop r" and "step_ok mx st" and "mx < 100"
  shows "ParseStep lib mx (print_step st @ r) d = Inr (step_of st, r)"
proof (cases st)
  case None
  then show ?thesis using stop_cderef [OF assms(1)] by (simp add: ParseStep_def step_of_def)
next
  case (Some n)
  then show ?thesis
    using assms ParseNumber_show [of 1 n mx r lib d] stop_not_digit [of r]
    by (simp add: ParseStep_def step_of_def step_ok_def)
qed

lemma show_nat_not_star: "cderef (show_nat n @ r) \<noteq> CHR ''*''"
  using show_nat_digits [of n] by (cases "show_nat n") (auto simp: is_digit_def)

lemma print_step_not_minus: "stop r \<Longrightarrow> cderef (print_step st @ r) \<noteq> CHR ''-''"
  using stop_cderef [of r] by (cases st) auto

fun item_first :: "nat \<Rightarrow> cron_item \<Rightarrow> nat" where
  "item_first mn (Star st) = mn"
| "item_first mn (One a st) = a"
| "item_first mn (Span a b st) = a"

fun item_last :: "nat \<Rightarrow> cron_item \<Rightarrow> nat" where
  "item_last mx (Star st) = mx"
| "item_last mx (One a st) = a"
| "item_last mx (Span a b st) = b"

fun item_step :: "cron_item \<Rightarrow> nat option" where
  "item_step (Star st) = st"
| "item_step (One a st) = st"
| "item_step (Span a b st) = st"

definition item_wild :: "cron_item \<Rightarrow> bool option \<Rightarrow> bool option" where
  "item_wild i w = (if i = Star None then map_option (\<lambda>_. True) w else w)"

lemma ParseFirstLast_print:
  assumes "stop r" and "item_ok mn mx i" and "mx < 100"
  shows "ParseFirstLast lib mn mx (print_item i @ r) d w =
    Inr (item_first mn i, item_last mx i, print_step (item_step i) @ r, item_wild i w)"
proof (cases i)
  case (Star st)
  then show ?thesis using stop_cderef [OF assms(1)]
    by (cases st) (auto simp: ParseFirstLast_def item_wild_def)
next
  case (One a st)
  then show ?thesis
    using assms ParseNumber_show [of mn a mx "print_step st @ r" lib d]
      print_step_not_digit [OF assms(1)] print_step_not_minus [OF assms(1)] show_nat_not_star
    by (simp add: ParseFirstLast_def item_wild_def)
next
  case (Span a b st)
  have "ParseNumber lib mn mx (show_nat a @ CHR ''-'' # show_nat b @ print_step st @ r) d
      = Inr (a, CHR ''-'' # show_nat b @ print_step st @ r)"
    using assms Span by (intro ParseNumber_show) (auto simp: is_digit_def)
  moreover have "ParseNumber lib mn mx (show_nat b @ print_step st @ r) d = Inr (b, print_step st @ r)"
    using assms Span print_step_not_digit [OF assms(1)] by (intro ParseNumber_show) auto
  ultimately show ?thesis
    using assms Span show_nat_not_star by (simp add: ParseFirstLast_def item_wild_def)
qed

lemma item_elems_eq:
  assumes "item_ok mn mx i" and "mn \<le> mx"
  shows "item_elems mn mx i = {p. item_first mn i \<le> p \<and> p \<le> item_last mx i \<and>
    step_of (item_step i) dvd p - item_first mn i}"
  using assms by (cases i) (auto simp: span_elems_def)

lemma item_bounds:
  assumes "item_ok mn mx i" and "mn \<le> mx"
  shows "mn \<le> item_first mn i" and "item_last mx i \<le> mx" and "step_ok mx (item_step i)"
  using assms by (cases i; auto)+

lemma ParseNumericRangeBitSet_print:
  assumes wf: "rbs_wf mn mx b" and r: "stop r" and i: "item_ok mn mx i" and mx: "mx < 100"
  shows "\<exists>b'. ParseNumericRangeBitSet lib b (print_item i @ r) d w = Inr (b', r, item_wild i w) \<and>
    rbs_wf mn mx b' \<and> rbs_elems b' = rbs_elems b \<union> item_elems mn mx i"
proof -
  have b: "rb_MIN b = mn" "rb_MAX b = mx" "mn \<le> mx" using wf by (auto simp: rbs_wf_def)
  note bnd = item_bounds [OF i b(3)]
  obtain b' where "MakeRangeBitSet b (item_first mn i) (item_last mx i) (step_of (item_step i)) = Inr b'"
    "rbs_wf mn mx b'" "rbs_elems b' = rbs_elems b \<union> item_elems mn mx i"
    using MakeRangeBitSet_Inr [OF wf, of "item_first mn i" "item_last mx i" "step_of (item_step i)"]
      bnd item_elems_eq [OF i b(3)] by (auto simp: step_ok_def)
  then show ?thesis
    using ParseFirstLast_print [OF r i mx] ParseStep_print [OF r bnd(3) mx]
    by (simp add: ParseNumericRangeBitSet_def b)
qed

definition items_wild :: "cron_item list \<Rightarrow> bool option \<Rightarrow> bool option" where
  "items_wild is' w = (if Star None \<in> set is' then map_option (\<lambda>_. True) w else w)"

lemma ParseNumericList_print:
  assumes "rbs_wf mn mx b" and "r = [] \<or> hd r = CHR '' ''" and "items_ok mn mx is'" and "mx < 100"
  shows "\<exists>b'. ParseNumericList lib b (print_items is' @ r) d w = Inr (b', r, items_wild is' w) \<and>
    rbs_wf mn mx b' \<and> rbs_elems b' = rbs_elems b \<union> items_elems mn mx is'"
  using assms(1,3)
proof (induction is' arbitrary: b w rule: print_items.induct)
  case 1
  then show ?case by (simp add: items_ok_def)
next
  case (2 i)
  have "stop r" and "cderef r \<noteq> CHR '',''" using assms(2) by (cases r; auto simp: stop_def)+
  with 2 show ?case
    using ParseNumericRangeBitSet_print [of mn mx b r i lib d w] assms(4)
    by (subst ParseNumericList.simps)
      (auto simp: items_ok_def items_elems_def items_wild_def item_wild_def)
next
  case (3 i j js)
  let ?r = "CHR '','' # print_items (j # js) @ r"
  have "stop ?r" by (simp add: stop_def)
  then obtain b1 where b1: "ParseNumericRangeBitSet lib b (print_item i @ ?r) d w = Inr (b1, ?r, item_wild i w)"
    "rbs_wf mn mx b1" "rbs_elems b1 = rbs_elems b \<union> item_elems mn mx i"
    using ParseNumericRangeBitSet_print [of mn mx b ?r i lib d w] 3 assms(4) by (auto simp: items_ok_def)
  obtain b2 where b2: "ParseNumericList lib b1 (print_items (j # js) @ r) d (item_wild i w)
      = Inr (b2, r, items_wild (j # js) (item_wild i w))"
    "rbs_wf mn mx b2" "rbs_elems b2 = rbs_elems b1 \<union> items_elems mn mx (j # js)"
    using "3.IH" [OF b1(2), of "item_wild i w"] "3.prems" by (auto simp: items_ok_def)
  have w: "items_wild (j # js) (item_wild i w) = items_wild (i # j # js) w"
    by (cases w) (auto simp: items_wild_def item_wild_def)
  show ?case
    using b1 b2 w by (subst ParseNumericList.simps) (auto simp: items_elems_def)
qed

text \<open>The first character of a printed field is visible, so \<open>StripLeft\<close> stops there.\<close>

lemma print_item_hd:
  "print_item i \<noteq> [] \<and> 32 < code (hd (print_item i)) \<and> code (hd (print_item i)) < 64"
proof -
  have "32 < code (hd (show_nat a)) \<and> code (hd (show_nat a)) < 64" for a
    using show_nat_digits [of a] by (cases "show_nat a") (auto simp: is_digit_def)
  then show ?thesis by (cases i) auto
qed

lemma print_items_hd:
  assumes "is' \<noteq> []"
  shows "print_items is' \<noteq> [] \<and> 32 < code (hd (print_items is')) \<and> code (hd (print_items is')) < 64"
  using assms print_item_hd by (cases is' rule: print_items.cases) auto

section \<open>Whole schedules\<close>

definition print_schedule ::
  "cron_item list \<Rightarrow> cron_item list \<Rightarrow> cron_item list \<Rightarrow> cron_item list \<Rightarrow> cron_item list \<Rightarrow> string" where
  "print_schedule mi ho dm mo dw = print_items mi @ CHR '' '' # print_items ho @ CHR '' '' #
     print_items dm @ CHR '' '' # print_items mo @ CHR '' '' # print_items dw"

definition schedule_ok ::
  "cron_item list \<Rightarrow> cron_item list \<Rightarrow> cron_item list \<Rightarrow> cron_item list \<Rightarrow> cron_item list \<Rightarrow> bool" where
  "schedule_ok mi ho dm mo dw \<longleftrightarrow> items_ok 0 59 mi \<and> items_ok 0 23 ho \<and> items_ok 1 31 dm \<and>
     items_ok 1 12 mo \<and> items_ok 0 7 dw"

text \<open>The random-delay range: N minutes for a sole \<open>*/N\<close> in the minutes field.\<close>

fun items_delay :: "cron_item list \<Rightarrow> int" where
  "items_delay [Star (Some n)] = 60 * int n"
| "items_delay is' = 60"

context string_util
begin

lemma ParseNumericBitSet_print_blank:
  assumes "rbs_wf mn mx b" and "items_ok mn mx is'" and "mx < 100" and "r = [] \<or> hd r = CHR '' ''"
  shows "\<exists>b'. ParseNumericBitSet lib b (CHR '' '' # print_items is' @ r) d w = Inr (b', r, items_wild is' w) \<and>
    rbs_wf mn mx b' \<and> rbs_elems b' = rbs_elems b \<union> items_elems mn mx is'"
    and "\<exists>b'. ParseNumericBitSet lib b (print_items is' @ r) d w = Inr (b', r, items_wild is' w) \<and>
    rbs_wf mn mx b' \<and> rbs_elems b' = rbs_elems b \<union> items_elems mn mx is'"
proof -
  have hd: "print_items is' @ r \<noteq> []" "32 < code (hd (print_items is' @ r))"
    "code (hd (print_items is' @ r)) < 127"
    using print_items_hd [of is'] assms(2) by (auto simp: items_ok_def)
  have "StripLeft lib (CHR '' '' # print_items is' @ r) = print_items is' @ r"
    and "StripLeft lib (print_items is' @ r) = print_items is' @ r"
    using StripLeft_space_visible [OF hd] StripLeft_visible_hd [OF hd] by auto
  then show "\<exists>b'. ParseNumericBitSet lib b (CHR '' '' # print_items is' @ r) d w = Inr (b', r, items_wild is' w) \<and>
    rbs_wf mn mx b' \<and> rbs_elems b' = rbs_elems b \<union> items_elems mn mx is'"
    and "\<exists>b'. ParseNumericBitSet lib b (print_items is' @ r) d w = Inr (b', r, items_wild is' w) \<and>
    rbs_wf mn mx b' \<and> rbs_elems b' = rbs_elems b \<union> items_elems mn mx is'"
    using ParseNumericList_print [OF assms(1) assms(4) assms(2,3)]
    by (simp_all add: ParseNumericBitSet_def)
qed

lemma parse_fields_print:
  assumes "schedule_ok mi ho dm mo dw"
  shows "\<exists>c. parse_fields lib (cron_schedule_init\<lparr>delay_range := d\<rparr>) (print_schedule mi ho dm mo dw) = Inr c \<and>
    cron_bounds c \<and> rbs_elems (minutes c) = items_elems 0 59 mi \<and> rbs_elems (hours c) = items_elems 0 23 ho \<and>
    rbs_elems (days_of_month c) = items_elems 1 31 dm \<and> rbs_elems (months c) = items_elems 1 12 mo \<and>
    rbs_elems (days_of_week c) = (\<lambda>i. i mod 7) ` items_elems 0 7 dw \<and> delay_range c = d \<and>
    (days_any_wildcard c \<longleftrightarrow> Star None \<in> set dm \<or> Star None \<in> set dw)"
proof -
  let ?c = "cron_schedule_init\<lparr>delay_range := d\<rparr>"
  have W: "rbs_wf 0 59 (minutes ?c)" "rbs_wf 0 23 (hours ?c)" "rbs_wf 1 31 (days_of_month ?c)"
    "rbs_wf 1 12 (months ?c)" "rbs_wf 0 7 (rbs_new 0 7)" "rbs_wf 0 6 (days_of_week ?c)"
    using cron_schedule_init_bounds by (auto simp: cron_bounds_def rbs_new_wf)
  have E: "rbs_elems (minutes ?c) = {}" "rbs_elems (hours ?c) = {}" "rbs_elems (days_of_month ?c) = {}"
    "rbs_elems (months ?c) = {}" by (simp_all add: cron_schedule_init_def)
  note ok = assms [unfolded schedule_ok_def]
  let ?r4 = "CHR '' '' # print_items dw" let ?r3 = "CHR '' '' # print_items mo @ ?r4"
  let ?r2 = "CHR '' '' # print_items dm @ ?r3" let ?r1 = "CHR '' '' # print_items ho @ ?r2"
  obtain bmi where mi: "ParseNumericBitSet lib (minutes ?c) (print_items mi @ ?r1) None None = Inr (bmi, ?r1, items_wild mi None)"
    "rbs_wf 0 59 bmi" "rbs_elems bmi = items_elems 0 59 mi"
    using ParseNumericBitSet_print_blank(2) [OF W(1), of mi ?r1 None None] ok E(1) by auto
  obtain bho where ho: "ParseNumericBitSet lib (hours ?c) ?r1 None None = Inr (bho, ?r2, items_wild ho None)"
    "rbs_wf 0 23 bho" "rbs_elems bho = items_elems 0 23 ho"
    using ParseNumericBitSet_print_blank(1) [OF W(2), of ho ?r2 None None] ok E(2) by auto
  obtain bdm where dm: "ParseNumericBitSet lib (days_of_month ?c) ?r2 None (Some False) = Inr (bdm, ?r3, items_wild dm (Some False))"
    "rbs_wf 1 31 bdm" "rbs_elems bdm = items_elems 1 31 dm"
    using ParseNumericBitSet_print_blank(1) [OF W(3), of dm ?r3 None "Some False"] ok E(3) by auto
  obtain bmo where mo: "ParseNumericBitSet lib (months ?c) ?r3 (Some month_names) None = Inr (bmo, ?r4, items_wild mo None)"
    "rbs_wf 1 12 bmo" "rbs_elems bmo = items_elems 1 12 mo"
    using ParseNumericBitSet_print_blank(1) [OF W(4), of mo ?r4 "Some month_names" None] ok E(4) by auto
  let ?w = "items_wild dm (Some False)"
  obtain bdw where dw: "ParseNumericBitSet lib (rbs_new 0 7) ?r4 (Some days_of_week_names) ?w = Inr (bdw, [], items_wild dw ?w)"
    "rbs_wf 0 7 bdw" "rbs_elems bdw = items_elems 0 7 dw"
    using ParseNumericBitSet_print_blank(1) [OF W(5), of dw "[]" "Some days_of_week_names" ?w] ok by auto
  obtain bd where bd: "fold_sunday bdw (days_of_week ?c) = Inr bd" "rbs_wf 0 6 bd"
    "rbs_elems bd = (\<lambda>i. i mod 7) ` items_elems 0 7 dw"
    using fold_sunday_Inr [OF dw(2) W(6)] dw(3) by auto
  have wild: "items_wild dw ?w = Some True \<longleftrightarrow> Star None \<in> set dm \<or> Star None \<in> set dw"
    by (auto simp: items_wild_def)
  have "\<not> days_any_wildcard ?c" by (simp add: cron_schedule_init_def)
  then show ?thesis
    using mi ho dm mo dw bd wild
    by (simp add: parse_fields_def print_schedule_def cron_bounds_def StripLeft_Nil)
qed

end

section \<open>Parsing what was printed\<close>

lemma print_schedule_not_at:
  assumes "schedule_ok mi ho dm mo dw"
  shows "cderef (print_schedule mi ho dm mo dw) \<noteq> CHR ''@''"
  using print_items_hd [of mi] assms
  by (cases "print_items mi") (auto simp: print_schedule_def schedule_ok_def items_ok_def)

text \<open>The simplified scan for \<open>*/N\<close> at the start of the string.\<close>

lemma star_step_scan:
  assumes "mi = Star (Some n) # rest" and "n \<le> 59"
  shows "\<exists>r. print_items mi @ t = CHR ''*'' # CHR ''/'' # show_nat n @ r \<and>
    r = (if rest = [] then t else CHR '','' # print_items rest @ t)"
  using assms by (cases rest) auto

lemma star_slash_iff:
  assumes "mi \<noteq> []" and "list_all (item_ok 0 59) mi" and "hd t = CHR '' ''"
  shows "cderef (print_items mi @ t) = CHR ''*'' \<and> cderef (tl (print_items mi @ t)) = CHR ''/'' \<longleftrightarrow>
    (\<exists>n rest. mi = Star (Some n) # rest)"
proof -
  obtain i rest where mi: "mi = i # rest" using assms(1) by (cases mi) auto
  have num: "cderef (show_nat a @ u) \<noteq> CHR ''*''" for a u by (rule show_nat_not_star)
  show ?thesis
  proof (cases i)
    case (Star st)
    then show ?thesis using mi assms(3) by (cases st; cases rest; cases t) auto
  qed (use mi num in \<open>cases rest; auto\<close>)+
qed

lemma CronSchedule_print_delay:
  assumes ok: "schedule_ok mi ho dm mo dw"
  shows "CronSchedule lib (print_schedule mi ho dm mo dw) =
    parse_fields lib (cron_schedule_init\<lparr>delay_range := items_delay mi\<rparr>) (print_schedule mi ho dm mo dw)"
proof -
  obtain t where ps: "print_schedule mi ho dm mo dw = print_items mi @ CHR '' '' # t"
    by (auto simp: print_schedule_def)
  have ne: "mi \<noteq> []" "list_all (item_ok 0 59) mi" using ok by (auto simp: schedule_ok_def items_ok_def)
  have init: "cron_schedule_init\<lparr>delay_range := 60\<rparr> = cron_schedule_init"
    by (simp add: cron_schedule_init_def)
  show ?thesis
  proof (cases "\<exists>n rest. mi = Star (Some n) # rest")
    case True
    then obtain n rest where mi: "mi = Star (Some n) # rest" by blast
    then have n: "n \<le> 59" using ne by (simp add: step_ok_def step_of_def)
    obtain r where r: "print_items mi @ CHR '' '' # t = CHR ''*'' # CHR ''/'' # show_nat n @ r"
      "r = (if rest = [] then CHR '' '' # t else CHR '','' # print_items rest @ CHR '' '' # t)"
      using star_step_scan [OF mi n, of "CHR '' '' # t"] by blast
    have "strtoul 10 (show_nat n @ r) = (n, r)"
      using n r(2) by (intro strtoul_show_nat) (auto simp: is_digit_def)
    moreover have "r \<noteq> show_nat n @ r" by simp
    moreover have "items_delay mi = (if cderef r = CHR '','' then 60 else 60 * int n)"
      using mi r(2) by (cases rest) auto
    ultimately show ?thesis
      using r(1) init by (simp add: CronSchedule_def ps)
  next
    case False
    then have "items_delay mi = 60"
      by (cases mi rule: items_delay.cases) auto
    with False show ?thesis
      using star_slash_iff [OF ne, of "CHR '' '' # t"] print_schedule_not_at [OF ok] init
      by (auto simp: CronSchedule_def ps)
  qed
qed

text \<open>
  C3: Parsing is the inverse of printing. For five well-formed fields (lists of asterisks, numbers
  and ranges, each with an optional step) the constructor accepts the printed schedule and its
  bit sets are exactly the sets the fields denote, with day of week 7 identified with 0; the
  wildcard flag is up iff a day field contains a plain asterisk, and the delay range is N minutes
  for a sole \<open>*/N\<close> minutes field and one minute otherwise.
\<close>

theorem CronSchedule_print:
  assumes "string_util lib" and "schedule_ok mi ho dm mo dw"
  shows "\<exists>c. CronSchedule lib (print_schedule mi ho dm mo dw) = Inr c \<and> cron_bounds c \<and>
    rbs_elems (minutes c) = items_elems 0 59 mi \<and> rbs_elems (hours c) = items_elems 0 23 ho \<and>
    rbs_elems (days_of_month c) = items_elems 1 31 dm \<and> rbs_elems (months c) = items_elems 1 12 mo \<and>
    rbs_elems (days_of_week c) = (\<lambda>i. i mod 7) ` items_elems 0 7 dw \<and>
    delay_range c = items_delay mi \<and>
    (days_any_wildcard c \<longleftrightarrow> Star None \<in> set dm \<or> Star None \<in> set dw)"
  using string_util.parse_fields_print [OF assms, of "items_delay mi"]
    CronSchedule_print_delay [OF assms(2), of lib] by simp

theorem CronSchedule_print_witness:
  "string_util ascii_lib \<and>
   schedule_ok [Star (Some 20)] [One 6 None] [One 1 None, Span 10 20 (Some 5)] [Star None] [One 7 None] \<and>
   (\<exists>c. CronSchedule ascii_lib
      (print_schedule [Star (Some 20)] [One 6 None] [One 1 None, Span 10 20 (Some 5)] [Star None] [One 7 None]) = Inr c \<and>
      rbs_elems (days_of_week c) = {0} \<and> delay_range c = 1200)"
proof -
  have ok: "schedule_ok [Star (Some 20)] [One 6 None] [One 1 None, Span 10 20 (Some 5)] [Star None] [One 7 None]"
    by (simp add: schedule_ok_def items_ok_def step_ok_def step_of_def)
  from CronSchedule_print [OF ascii.string_util_axioms ok] ok ascii.string_util_axioms
  show ?thesis by (auto simp: items_elems_def)
qed

text \<open>
  \<open>@Nhourly\<close> for N from 1 to 24 runs at minute zero of every hour that N divides, on every
  day, with an N hours delay range; any other multiplier is rejected.
\<close>

theorem CronSchedule_hourly:
  assumes "n \<le> ULONG_MAX"
  shows "if 1 \<le> n \<and> n \<le> 24
    then \<exists>c. CronSchedule lib (CHR ''@'' # show_nat n @ ''hourly'') = Inr c \<and> cron_ok c \<and>
           rbs_elems (minutes c) = {0} \<and> rbs_elems (hours c) = {h. h < 24 \<and> n dvd h} \<and>
           rbs_elems (days_of_month c) = {1..31} \<and> rbs_elems (months c) = {1..12} \<and>
           rbs_elems (days_of_week c) = {0..6} \<and> delay_range c = 3600 * int n
    else CronSchedule lib (CHR ''@'' # show_nat n @ ''hourly'') = Inl InvalidHourlyMultiplier"
proof -
  let ?s = "show_nat n @ ''hourly''"
  have st: "strtoul 10 ?s = (n, ''hourly'')"
    using assms by (intro strtoul_show_nat) (auto simp: is_digit_def)
  have neq: "''hourly'' \<noteq> ?s" "?s \<noteq> ''once''"
    using show_nat_digits [of n] by (cases "show_nat n"; auto simp: is_digit_def)+
  have "CronSchedule lib (CHR ''@'' # ?s) = hourly_schedule cron_schedule_init n"
    using st neq by (simp add: CronSchedule_def)
  then show ?thesis
    using hourly_init [of n] by (auto simp: hourly_schedule_def)
qed

theorem CronSchedule_hourly_witness:
  "\<exists>c. CronSchedule ascii_lib (CHR ''@'' # show_nat 6 @ ''hourly'') = Inr c \<and>
     rbs_elems (hours c) = {h. h < 24 \<and> 6 dvd h} \<and> delay_range c = 21600"
  using CronSchedule_hourly [of 6 ascii_lib] by auto

end
