(* ===== verification/Calendar.thy ===== *)
theory Calendar
  imports Workshop_Prelude
begin

text \<open>
  Broken-down UTC time as the schedule code sees it, and the three time functions of the
  \<open>libcommon\<close> submodule it calls: \<open>GmTime\<close>/\<open>TimeGm\<close> (\<open>time/Convert.hxx\<close>, wrappers of
  \<open>gmtime_r\<close> and \<open>timegm\<close>) and \<open>IncrementDay\<close> (\<open>time/Math.hxx\<close>). They are fields of a
  record the model takes as argument; the locale \<open>calendar\<close> states their documented meaning on
  the proleptic Gregorian calendar, and \<open>gregorian\<close> is an instance that satisfies it.

  A \<open>system_clock::time_point\<close> is an integer count of nanoseconds since the epoch.
\<close>

record tm =
  tm_sec :: nat
  tm_min :: nat
  tm_hour :: nat
  tm_mday :: nat
  tm_mon :: nat
  tm_year :: int
  tm_wday :: nat

type_synonym time_point = int

abbreviation ns :: int where
  "ns \<equiv> 1000000000"

definition time_point_min :: time_point where
  "time_point_min = - (2 ^ 63)"

definition time_point_max :: time_point where
  "time_point_max = 2 ^ 63 - 1"

record time_lib =
  GmTime :: "time_point \<Rightarrow> tm"
  TimeGm :: "tm \<Rightarrow> time_point"
  IncrementDay :: "tm \<Rightarrow> tm"

section \<open>The Gregorian calendar\<close>

definition is_leap :: "int \<Rightarrow> bool" where
  "is_leap y \<longleftrightarrow> 4 dvd y \<and> (\<not> 100 dvd y \<or> 400 dvd y)"

definition days_in_month :: "int \<Rightarrow> nat \<Rightarrow> nat" where
  "days_in_month y m = (if m = 1 then (if is_leap y then 29 else 28)
     else if m = 3 \<or> m = 5 \<or> m = 8 \<or> m = 10 then 30 else 31)"

text \<open>Days before the given month of a year, and before the given year, counted from 1970.\<close>

fun month_start :: "int \<Rightarrow> nat \<Rightarrow> nat" where
  "month_start y 0 = 0"
| "month_start y (Suc m) = month_start y m + days_in_month y m"

definition year_start :: "int \<Rightarrow> int" where
  "year_start y = 365 * (y - 1970) + (y - 1) div 4 - (y - 1) div 100 + (y - 1) div 400 - 477"

definition full_year :: "tm \<Rightarrow> int" where
  "full_year x = tm_year x + 1900"

definition civil_days :: "tm \<Rightarrow> int" where
  "civil_days x = year_start (full_year x) + int (month_start (full_year x) (tm_mon x)) + int (tm_mday x) - 1"

definition tm_valid :: "tm \<Rightarrow> bool" where
  "tm_valid x \<longleftrightarrow> tm_sec x < 60 \<and> tm_min x < 60 \<and> tm_hour x < 24 \<and> tm_mon x < 12 \<and> 1 \<le> tm_mday x \<and>
     tm_mday x \<le> days_in_month (full_year x) (tm_mon x) \<and> int (tm_wday x) = (civil_days x + 4) mod 7"

definition day_seconds :: "tm \<Rightarrow> int" where
  "day_seconds x = int (3600 * tm_hour x + 60 * tm_min x + tm_sec x)"

definition next_day :: "tm \<Rightarrow> tm" where
  "next_day x =
     (let w = (if tm_wday x = 6 then 0 else tm_wday x + 1)
      in if tm_mday x < days_in_month (full_year x) (tm_mon x)
         then x\<lparr>tm_mday := tm_mday x + 1, tm_wday := w\<rparr>
         else if tm_mon x < 11 then x\<lparr>tm_mday := 1, tm_mon := tm_mon x + 1, tm_wday := w\<rparr>
         else x\<lparr>tm_mday := 1, tm_mon := 0, tm_year := tm_year x + 1, tm_wday := w\<rparr>)"

lemma days_in_month_bounds: "28 \<le> days_in_month y m" "days_in_month y m \<le> 31"
  by (auto simp: days_in_month_def)

lemma month_start_12: "month_start y 12 = (if is_leap y then 366 else 365)"
  by (simp add: numeral_eq_Suc days_in_month_def)

lemma month_start_mono: "m \<le> m' \<Longrightarrow> month_start y m \<le> month_start y m'"
  by (induction m' arbitrary: m) (auto simp: le_Suc_eq intro: trans_le_add1)

lemma year_start_Suc: "year_start (y + 1) = year_start y + (if is_leap y then 366 else 365)"
proof -
  have q: "y div k - (y - 1) div k = (if k dvd y then 1 else 0)" if "0 < k" for k :: int
  proof (cases "k dvd y")
    case True
    then obtain q where "y = k * q" by blast
    moreover have "(k * q - 1) div k = q - 1"
      using that by (intro int_div_pos_eq [of _ _ _ "k - 1"]) (auto simp: algebra_simps)
    ultimately show ?thesis using that by simp
  next
    case False
    then have "0 < y mod k" using that by (simp add: dvd_eq_mod_eq_0 order_less_le)
    moreover have "y mod k < k" using that by simp
    moreover have "y - 1 = k * (y div k) + (y mod k - 1)" by simp
    ultimately have "(y - 1) div k = y div k"
      by (intro int_div_pos_eq [of _ _ _ "y mod k - 1"]) simp_all
    then show ?thesis using False by simp
  qed
  have d4: "100 dvd y \<Longrightarrow> 4 dvd y" and d100: "400 dvd y \<Longrightarrow> 100 dvd y"
    by (erule dvd_trans [rotated], simp)+
  have cases: "A = B + 365 + (if a then 1 else 0) - (if b then 1 else 0) + (if c then 1 else 0) \<Longrightarrow>
      (b \<Longrightarrow> a) \<Longrightarrow> (c \<Longrightarrow> b) \<Longrightarrow> A = B + (if a \<and> (\<not> b \<or> c) then 366 else 365)"
    for A B :: int and a b c by auto
  have "year_start (y + 1) = year_start y + 365 + (y div 4 - (y - 1) div 4)
      - (y div 100 - (y - 1) div 100) + (y div 400 - (y - 1) div 400)"
    by (simp add: year_start_def)
  then have "year_start (y + 1) = year_start y + 365 + (if 4 dvd y then 1 else 0)
      - (if 100 dvd y then 1 else 0) + (if 400 dvd y then 1 else 0)"
    by (simp only: q [of 4] q [of 100] q [of 400] zero_less_numeral)
  from cases [OF this d4 d100] show ?thesis unfolding is_leap_def .
qed

lemma full_year_simps [simp]:
  "full_year (x\<lparr>tm_mday := d\<rparr>) = full_year x" "full_year (x\<lparr>tm_wday := w\<rparr>) = full_year x"
  "full_year (x\<lparr>tm_mon := m\<rparr>) = full_year x" "full_year (x\<lparr>tm_sec := s\<rparr>) = full_year x"
  "full_year (x\<lparr>tm_min := n\<rparr>) = full_year x" "full_year (x\<lparr>tm_hour := h\<rparr>) = full_year x"
  "full_year (x\<lparr>tm_year := y\<rparr>) = y + 1900"
  by (simp_all add: full_year_def)

lemma civil_days_time [simp]:
  "civil_days (x\<lparr>tm_sec := s\<rparr>) = civil_days x" "civil_days (x\<lparr>tm_min := m\<rparr>) = civil_days x"
  "civil_days (x\<lparr>tm_hour := h\<rparr>) = civil_days x" "civil_days (x\<lparr>tm_wday := w\<rparr>) = civil_days x"
  by (simp_all add: civil_days_def)

lemma civil_days_next:
  assumes "tm_valid x"
  shows "civil_days (next_day x) = civil_days x + 1"
proof -
  consider (same) "tm_mday x < days_in_month (full_year x) (tm_mon x)"
    | (month) "tm_mday x = days_in_month (full_year x) (tm_mon x)" "tm_mon x < 11"
    | (year) "tm_mday x = days_in_month (full_year x) (tm_mon x)" "tm_mon x = 11"
    using assms by (fastforce simp: tm_valid_def)
  then show ?thesis
  proof cases
    case same
    then show ?thesis by (simp add: next_day_def civil_days_def Let_def)
  next
    case month
    then show ?thesis by (simp add: next_day_def civil_days_def Let_def)
  next
    case year
    let ?y = "full_year x"
    have "next_day x = x\<lparr>tm_mday := 1, tm_mon := 0, tm_year := tm_year x + 1,
        tm_wday := if tm_wday x = 6 then 0 else tm_wday x + 1\<rparr>"
      using year by (simp add: next_day_def Let_def)
    then have "civil_days (next_day x) = year_start (?y + 1)"
      by (simp add: civil_days_def full_year_def algebra_simps)
    moreover have "int (month_start ?y 11) + int (days_in_month ?y 11) = (if is_leap ?y then 366 else 365)"
      by (simp add: numeral_eq_Suc days_in_month_def)
    ultimately show ?thesis
      using year year_start_Suc [of ?y] by (simp add: civil_days_def)
  qed
qed

lemma next_day_time [simp]:
  "tm_sec (next_day x) = tm_sec x" "tm_min (next_day x) = tm_min x" "tm_hour (next_day x) = tm_hour x"
  by (simp_all add: next_day_def Let_def)

lemma next_day_valid:
  assumes "tm_valid x"
  shows "tm_valid (next_day x)"
proof -
  have w: "int (tm_wday (next_day x)) = (civil_days (next_day x) + 4) mod 7"
  proof -
    have "int (tm_wday (next_day x)) = (int (tm_wday x) + 1) mod 7"
    proof -
      have "tm_wday x < 7"
        using assms unfolding tm_valid_def by (metis of_nat_less_iff of_nat_numeral pos_mod_bound zero_less_numeral)
      then show ?thesis by (auto simp: next_day_def Let_def)
    qed
    also have "\<dots> = (civil_days x + 1 + 4) mod 7"
      using assms unfolding tm_valid_def by (metis add.assoc add.commute mod_add_left_eq)
    finally show ?thesis using civil_days_next [OF assms] by simp
  qed
  have "1 \<le> days_in_month y m" for y m using days_in_month_bounds(1) [of y m] by linarith
  with assms w show ?thesis
    by (auto simp: tm_valid_def next_day_def Let_def)
qed

section \<open>The interface of the time library\<close>

text \<open>
  \<open>IncrementDay\<close> advances the date fields to the next Gregorian day; \<open>TimeGm\<close> is the POSIX
  seconds-since-the-epoch expression; \<open>GmTime\<close> yields the valid broken-down time of the whole
  second, and is the inverse of \<open>TimeGm\<close> on valid times. Only times from the epoch on are
  constrained.
\<close>

locale calendar =
  fixes lib :: time_lib
  assumes IncrementDay_next: "tm_valid x \<Longrightarrow> IncrementDay lib x = next_day x"
    and TimeGm_seconds: "tm_valid x \<Longrightarrow> TimeGm lib x = ns * (86400 * civil_days x + day_seconds x)"
    and GmTime_valid: "0 \<le> t \<Longrightarrow> tm_valid (GmTime lib t)"
    and TimeGm_GmTime: "0 \<le> t \<Longrightarrow> TimeGm lib (GmTime lib t) = t - t mod ns"
    and GmTime_TimeGm: "tm_valid x \<Longrightarrow> 0 \<le> TimeGm lib x \<Longrightarrow> GmTime lib (TimeGm lib x) = x"
begin

lemma IncrementDay_iter:
  assumes "tm_valid x"
  shows "(IncrementDay lib ^^ k) x = (next_day ^^ k) x \<and> tm_valid ((next_day ^^ k) x)"
  using assms by (induction k) (auto simp: IncrementDay_next next_day_valid)

lemma GmTime_days: "0 \<le> t \<Longrightarrow>
    ns * (86400 * civil_days (GmTime lib t) + day_seconds (GmTime lib t)) = t - t mod ns"
  using TimeGm_GmTime TimeGm_seconds GmTime_valid by metis

end

lemma civil_days_iter: "tm_valid x \<Longrightarrow> civil_days ((next_day ^^ k) x) = civil_days x + int k"
proof (induction k)
  case (Suc k)
  have "tm_valid ((next_day ^^ k) x)"
    using Suc.prems by (induction k) (auto simp: next_day_valid)
  with Suc show ?case by (simp add: civil_days_next)
qed simp

lemma iter_valid: "tm_valid x \<Longrightarrow> tm_valid ((next_day ^^ k) x)"
  by (induction k) (auto simp: next_day_valid)

lemma iter_time [simp]:
  "tm_sec ((next_day ^^ k) x) = tm_sec x" "tm_min ((next_day ^^ k) x) = tm_min x"
  "tm_hour ((next_day ^^ k) x) = tm_hour x"
  by (induction k) auto

lemma day_seconds_bounds: "tm_valid x \<Longrightarrow> 0 \<le> day_seconds x \<and> day_seconds x < 86400"
  by (auto simp: day_seconds_def tm_valid_def)

section \<open>A Gregorian instance\<close>

text \<open>A valid date is determined by its day number, because the years and the months tile the days.\<close>

lemma year_start_less: "y < y' \<Longrightarrow> year_start (y + 1) \<le> year_start y'"
proof -
  have "year_start (y + 1) \<le> year_start (y + 1 + int k)" for k
  proof (induction k)
    case (Suc k)
    have "year_start z \<le> year_start (z + 1)" for z by (simp add: year_start_Suc)
    from Suc this have "year_start (y + 1) \<le> year_start (y + 1 + int k + 1)" by (rule order_trans)
    moreover have "y + 1 + int k + 1 = y + 1 + int (Suc k)" by simp
    ultimately show ?case by metis
  qed simp
  from this [of "nat (y' - (y + 1))"] show "y < y' \<Longrightarrow> ?thesis" by simp
qed

lemma civil_days_bounds:
  assumes "tm_valid x"
  shows "year_start (full_year x) \<le> civil_days x" "civil_days x < year_start (full_year x + 1)"
proof -
  have "month_start (full_year x) (Suc (tm_mon x)) \<le> month_start (full_year x) 12"
    using assms by (intro month_start_mono) (simp add: tm_valid_def)
  then have "month_start (full_year x) (tm_mon x) + tm_mday x \<le> (if is_leap (full_year x) then 366 else 365)"
    using assms by (simp add: tm_valid_def month_start_12)
  then have "int (month_start (full_year x) (tm_mon x)) + int (tm_mday x) \<le> (if is_leap (full_year x) then 366 else 365)"
    by (simp split: if_splits)
  then show "civil_days x < year_start (full_year x + 1)"
    by (simp add: civil_days_def year_start_Suc)
  show "year_start (full_year x) \<le> civil_days x"
    using assms by (simp add: civil_days_def tm_valid_def)
qed

lemma civil_days_year:
  assumes "tm_valid x" and "tm_valid y" and "civil_days x = civil_days y"
  shows "full_year x = full_year y"
  using civil_days_bounds [OF assms(1)] civil_days_bounds [OF assms(2)] assms(3)
    year_start_less [of "full_year x" "full_year y"] year_start_less [of "full_year y" "full_year x"]
  by linarith

lemma month_day_less:
  assumes "m < m'" and "d \<le> days_in_month y m" and "1 \<le> d'"
  shows "month_start y m + d < month_start y m' + d'"
proof -
  have "month_start y (Suc m) \<le> month_start y m'"
    using assms(1) by (intro month_start_mono) simp
  with assms show ?thesis by simp
qed

lemma civil_days_inj:
  assumes v: "tm_valid x" "tm_valid y" and eq: "civil_days x = civil_days y"
  shows "tm_year x = tm_year y \<and> tm_mon x = tm_mon y \<and> tm_mday x = tm_mday y \<and> tm_wday x = tm_wday y"
proof -
  have yr: "full_year x = full_year y" using assms by (rule civil_days_year)
  then have "month_start (full_year x) (tm_mon x) + tm_mday x = month_start (full_year x) (tm_mon y) + tm_mday y"
    using eq by (simp add: civil_days_def)
  moreover have "\<not> tm_mon x < tm_mon y" "\<not> tm_mon y < tm_mon x"
    using calculation yr v month_day_less [of "tm_mon x" "tm_mon y" "tm_mday x" "full_year x" "tm_mday y"]
      month_day_less [of "tm_mon y" "tm_mon x" "tm_mday y" "full_year x" "tm_mday x"]
    by (auto simp: tm_valid_def)
  ultimately show ?thesis
    using yr v eq by (auto simp: full_year_def tm_valid_def)
qed

lemma day_seconds_inj:
  assumes "tm_valid x" and "tm_valid y" and "day_seconds x = day_seconds y"
  shows "tm_hour x = tm_hour y \<and> tm_min x = tm_min y \<and> tm_sec x = tm_sec y"
proof -
  have "3600 * tm_hour x + 60 * tm_min x + tm_sec x = 3600 * tm_hour y + 60 * tm_min y + tm_sec y"
    using assms(3) unfolding day_seconds_def by linarith
  moreover have "60 * tm_min x + tm_sec x < 3600" "60 * tm_min y + tm_sec y < 3600" "tm_sec x < 60" "tm_sec y < 60"
    using assms(1,2) unfolding tm_valid_def by linarith+
  moreover from calculation have "tm_hour x = tm_hour y" by linarith
  moreover from calculation have "tm_min x = tm_min y" by linarith
  ultimately show ?thesis by simp
qed

lemma tm_valid_inj:
  assumes "tm_valid x" and "tm_valid y"
    and "86400 * civil_days x + day_seconds x = 86400 * civil_days y + day_seconds y"
  shows "x = y"
proof -
  have c: "civil_days x = civil_days y"
    using day_seconds_bounds [OF assms(1)] day_seconds_bounds [OF assms(2)] assms(3) by linarith
  then have "day_seconds x = day_seconds y" using assms(3) by simp
  with c show ?thesis
    using civil_days_inj [OF assms(1,2)] day_seconds_inj [OF assms(1,2)] by simp
qed

definition epoch :: tm where
  "epoch = \<lparr>tm_sec = 0, tm_min = 0, tm_hour = 0, tm_mday = 1, tm_mon = 0, tm_year = 70, tm_wday = 4\<rparr>"

definition set_time :: "int \<Rightarrow> tm \<Rightarrow> tm" where
  "set_time s x = x\<lparr>tm_sec := nat (s mod 60), tm_min := nat (s div 60 mod 60), tm_hour := nat (s div 3600)\<rparr>"

definition gregorian :: time_lib where
  "gregorian = \<lparr>GmTime = (\<lambda>t. let s = t div ns in set_time (s mod 86400) ((next_day ^^ nat (s div 86400)) epoch)),
     TimeGm = (\<lambda>x. ns * (86400 * civil_days x + day_seconds x)), IncrementDay = next_day\<rparr>"

lemma epoch_valid: "tm_valid epoch" "civil_days epoch = 0"
  by (simp_all add: tm_valid_def epoch_def civil_days_def full_year_def year_start_def days_in_month_def)

lemma valid_time_fields:
  assumes "tm_valid x" and "s < 60" and "m < 60" and "h < 24"
  shows "tm_valid (x\<lparr>tm_sec := s, tm_min := m, tm_hour := h\<rparr>)"
  using assms by (simp add: tm_valid_def)

lemma set_time_valid:
  assumes "tm_valid x" and "0 \<le> s" and "s < 86400"
  shows "tm_valid (set_time s x)" "civil_days (set_time s x) = civil_days x" "day_seconds (set_time s x) = s"
proof -
  have b: "nat (s div 3600) < 24" "nat (s mod 60) < 60" "nat (s div 60 mod 60) < 60"
    using assms(2,3) by (simp_all add: nat_less_iff)
  show c: "civil_days (set_time s x) = civil_days x" by (simp add: set_time_def)
  show "tm_valid (set_time s x)"
    unfolding set_time_def using assms(1) b(2,3,1) by (rule valid_time_fields)
  have "3600 * (s div 3600) + 60 * (s div 60 mod 60) + s mod 60 = s"
  proof -
    have "s div 3600 = s div 60 div 60" using zdiv_zmult2_eq [of 60 s 60] by simp
    then show ?thesis
      using mult_div_mod_eq [of 60 s] mult_div_mod_eq [of 60 "s div 60"] by linarith
  qed
  then show "day_seconds (set_time s x) = s"
    using assms by (simp add: day_seconds_def set_time_def pos_imp_zdiv_nonneg_iff)
qed

lemma GmTime_gregorian:
  assumes "0 \<le> t"
  shows "tm_valid (GmTime gregorian t)" "TimeGm gregorian (GmTime gregorian t) = t - t mod ns"
proof -
  have s: "0 \<le> t div ns mod 86400" "t div ns mod 86400 < 86400" by simp_all
  show "tm_valid (GmTime gregorian t)"
    using set_time_valid [OF iter_valid [OF epoch_valid(1)] s] by (simp add: gregorian_def Let_def)
  have "t - t mod ns = ns * (t div ns)" by (simp add: minus_mod_eq_mult_div)
  moreover have "86400000000000 * (t div ns div 86400) + ns * (t div ns mod 86400) = ns * (t div ns)"
    using mult_div_mod_eq [of 86400 "t div ns"] by linarith
  ultimately show "TimeGm gregorian (GmTime gregorian t) = t - t mod ns"
    using set_time_valid [OF iter_valid [OF epoch_valid(1)] s] assms
    by (simp add: gregorian_def Let_def civil_days_iter [OF epoch_valid(1)] epoch_valid(2) pos_imp_zdiv_nonneg_iff)
qed

interpretation gregorian: calendar gregorian
proof unfold_locales
  show "IncrementDay gregorian x = next_day x" for x by (simp add: gregorian_def)
  show tg: "TimeGm gregorian x = ns * (86400 * civil_days x + day_seconds x)" for x by (simp add: gregorian_def)
  show "0 \<le> t \<Longrightarrow> tm_valid (GmTime gregorian t)" for t by (rule GmTime_gregorian)
  show "0 \<le> t \<Longrightarrow> TimeGm gregorian (GmTime gregorian t) = t - t mod ns" for t by (rule GmTime_gregorian)
  show "GmTime gregorian (TimeGm gregorian x) = x" if "tm_valid x" "0 \<le> TimeGm gregorian x" for x
  proof (rule tm_valid_inj)
    show "tm_valid (GmTime gregorian (TimeGm gregorian x))" using that(2) by (rule GmTime_gregorian)
    have "TimeGm gregorian (GmTime gregorian (TimeGm gregorian x)) = TimeGm gregorian x"
      using GmTime_gregorian(2) [OF that(2)] by (simp add: tg)
    then show "86400 * civil_days (GmTime gregorian (TimeGm gregorian x)) + day_seconds (GmTime gregorian (TimeGm gregorian x))
        = 86400 * civil_days x + day_seconds x" by (simp add: tg)
  qed (rule that)
qed

end
