(* ===== verification/Sql_Table.thy ===== *)
theory Sql_Table
  imports Workshop_Prelude Calendar
begin

text \<open>
  The part of PostgreSQL the statements of this program rely on: \<open>UPDATE \<dots> WHERE\<close> with its
  count of affected rows, ordered \<open>SELECT\<close>, \<open>LIKE\<close>, and the text conversions of the server
  and of the client library \<open>libcommon/pg\<close>, which are fields of the record \<open>pg_lib\<close> with
  their documented behaviour in the locale \<open>pg_text\<close>. A table is the list of its rows; a value
  that may be \<open>NULL\<close> is an \<open>option\<close>. A statement that fails (bad syntax of an argument, or a lost
  connection) is the exception \<open>SqlError\<close>.
\<close>

datatype db_error = SqlError | NoMatchingJob | MalformedEnvironment | JobHasNoId | JobHasNoPlan

section \<open>UPDATE and DELETE\<close>

definition sql_update :: "('r \<Rightarrow> bool) \<Rightarrow> ('r \<Rightarrow> 'r) \<Rightarrow> 'r list \<Rightarrow> nat \<times> 'r list" where
  "sql_update P f t = (length (filter P t), map (\<lambda>r. if P r then f r else r) t)"

definition sql_delete :: "('r \<Rightarrow> bool) \<Rightarrow> 'r list \<Rightarrow> nat \<times> 'r list" where
  "sql_delete P t = (length (filter P t), filter (\<lambda>r. \<not> P r) t)"

lemma sql_update_affected_0: "fst (sql_update P f t) = 0 \<Longrightarrow> snd (sql_update P f t) = t"
  by (auto simp: sql_update_def filter_empty_conv intro!: map_idI)

lemma sql_update_length [simp]: "length (snd (sql_update P f t)) = length t"
  by (simp add: sql_update_def)

text \<open>Rows are addressed through a key that no update changes and no two rows share.\<close>

definition row_of :: "('r \<Rightarrow> 'k) \<Rightarrow> 'k \<Rightarrow> 'r list \<Rightarrow> 'r option" where
  "row_of key k t = List.find (\<lambda>r. key r = k) t"

definition keys_unique :: "('r \<Rightarrow> 'k) \<Rightarrow> 'r list \<Rightarrow> bool" where
  "keys_unique key t = distinct (map key t)"

lemma row_of_Nil [simp]: "row_of key k [] = None"
  by (simp add: row_of_def)

lemma row_of_Cons [simp]: "row_of key k (r # t) = (if key r = k then Some r else row_of key k t)"
  by (simp add: row_of_def)

lemma row_of_SomeD: "row_of key k t = Some r \<Longrightarrow> r \<in> set t \<and> key r = k"
  by (induction t) (auto split: if_splits)

lemma row_of_update:
  assumes "\<And>r. key (f r) = key r"
  shows "row_of key k (snd (sql_update P f t)) = map_option (\<lambda>r. if P r then f r else r) (row_of key k t)"
  by (induction t) (auto simp: sql_update_def assms)

lemma keys_unique_update:
  assumes "\<And>r. key (f r) = key r"
  shows "keys_unique key (snd (sql_update P f t)) = keys_unique key t"
proof -
  have "map key (snd (sql_update P f t)) = map key t" by (simp add: sql_update_def assms)
  then show ?thesis by (simp add: keys_unique_def)
qed

lemma row_of_unique:
  "keys_unique key t \<Longrightarrow> r \<in> set t \<Longrightarrow> row_of key (key r) t = Some r"
  by (induction t) (auto simp: keys_unique_def)

lemma affected_key:
  assumes "keys_unique key t"
  shows "fst (sql_update (\<lambda>r. key r = k \<and> Q r) f t)
    = (case row_of key k t of Some r \<Rightarrow> if Q r then 1 else 0 | None \<Rightarrow> 0)"
  using assms
proof (induction t)
  case (Cons r t)
  have "filter (\<lambda>r. key r = k \<and> Q r) t = []" if "key r = k"
  proof -
    have "key x \<noteq> k" if "x \<in> set t" for x
      using Cons.prems that \<open>key r = k\<close> by (metis distinct.simps(2) image_eqI keys_unique_def list.simps(9) set_map)
    then show ?thesis by (auto simp: filter_empty_conv)
  qed
  with Cons show ?case by (auto simp: keys_unique_def sql_update_def)
qed (simp add: sql_update_def)

lemma affected_key_pos:
  assumes "keys_unique key t"
  shows "0 < fst (sql_update (\<lambda>r. key r = k \<and> Q r) f t) \<longleftrightarrow> (\<exists>r. row_of key k t = Some r \<and> Q r)"
  using affected_key [OF assms] by (auto split: option.splits)

section \<open>LIKE\<close>

text \<open>\<open>%\<close> matches any string, \<open>_\<close> any character, a backslash quotes the next pattern character.\<close>

fun sql_like :: "string \<Rightarrow> string \<Rightarrow> bool" where
  "sql_like [] s = (s = [])"
| "sql_like (p # ps) s =
     (if p = CHR ''%'' then sql_like ps s \<or> (case s of [] \<Rightarrow> False | _ # s' \<Rightarrow> sql_like (p # ps) s')
      else if p = CHR 0x5C then (case ps of [] \<Rightarrow> False
             | q # qs \<Rightarrow> (case s of [] \<Rightarrow> False | c # s' \<Rightarrow> c = q \<and> sql_like qs s'))
      else (case s of [] \<Rightarrow> False | c # s' \<Rightarrow> (p = CHR ''_'' \<or> c = p) \<and> sql_like ps s'))"

definition like_plain :: "string \<Rightarrow> bool" where
  "like_plain s = list_all (\<lambda>c. c \<noteq> CHR ''%'' \<and> c \<noteq> CHR ''_'' \<and> c \<noteq> CHR 0x5C) s"

lemma sql_like_percent: "sql_like ''%'' s"
  by (induction s) auto

text \<open>A pattern of ordinary characters followed by \<open>%\<close> matches exactly the strings it begins.\<close>

lemma sql_like_prefix: "like_plain p \<Longrightarrow> sql_like (p @ ''%'') s \<longleftrightarrow> (\<exists>t. s = p @ t)"
proof (induction p arbitrary: s)
  case Nil
  show ?case using sql_like_percent by auto
next
  case (Cons c p)
  then show ?case by (cases s) (auto simp: like_plain_def)
qed

section \<open>Text conversion\<close>

text \<open>
  \<open>interval_in\<close> and \<open>timestamp_in\<close> are the casts of the server, \<open>interval_out\<close> and
  \<open>timestamp_out\<close> its output functions, \<open>epoch_out\<close> the output of
  \<open>EXTRACT(EPOCH FROM interval)\<close>; \<open>ParseIntervalS\<close>, \<open>ParseTimestamp\<close> and
  \<open>FormatTimestamp\<close> are functions of \<open>libcommon\<close>. \<open>to_local\<close> and \<open>from_local\<close> are
  \<open>AT TIME ZONE\<close>; \<open>plus_year\<close> adds the interval of one year; \<open>array_in\<close> is the cast to \<open>TEXT[]\<close> and \<open>EncodeArray\<close> its counterpart in
  \<open>libcommon\<close>. An interval is a count of nanoseconds, a timestamp a \<open>time_point\<close>.
\<close>

text \<open>\<open>strtol(s, nullptr, 0)\<close>: the base is read off the prefix, the value saturates.\<close>

definition is_hex :: "char \<Rightarrow> bool" where
  "is_hex c \<longleftrightarrow> is_digit 10 c \<or> (65 \<le> code c \<and> code c \<le> 70) \<or> (97 \<le> code c \<and> code c \<le> 102)"

definition hex_value :: "string \<Rightarrow> nat" where
  "hex_value ds = foldl (\<lambda>a c. a * 16 + (if is_digit 10 c then code c - 48
     else if code c \<le> 70 then code c - 55 else code c - 87)) 0 ds"

definition strtol0 :: "string \<Rightarrow> int" where
  "strtol0 s =
     (let t = dropWhile is_space s;
          u = skip_sign t;
          v = (if cderef u \<noteq> CHR ''0'' then digits_value 10 (takeWhile (is_digit 10) u)
               else if cderef (tl u) \<in> {CHR ''x'', CHR ''X''} \<and> is_hex (cderef (tl (tl u)))
               then hex_value (takeWhile is_hex (tl (tl u)))
               else digits_value 8 (takeWhile (is_digit 8) u))
      in if cderef t = CHR ''-'' then max (- (2 ^ 63)) (- int v) else min (2 ^ 63 - 1) (int v))"

text \<open>Array elements that need no quoting in the text form of an array.\<close>

definition array_plain :: "string \<Rightarrow> bool" where
  "array_plain x \<longleftrightarrow> x \<noteq> [] \<and> list_all (\<lambda>c. 32 < code c \<and> code c < 127 \<and> c \<notin> set '',{}'' \<and> c \<noteq> CHR 0x22 \<and> c \<noteq> CHR 0x5C) x"

record pg_lib =
  interval_in :: "string \<Rightarrow> int option"
  interval_out :: "int \<Rightarrow> string"
  timestamp_in :: "string \<Rightarrow> time_point option"
  timestamp_out :: "time_point \<Rightarrow> string"
  epoch_out :: "int \<Rightarrow> string"
  to_local :: "string \<Rightarrow> time_point \<Rightarrow> time_point"
  from_local :: "string \<Rightarrow> time_point \<Rightarrow> time_point"
  plus_year :: "time_point \<Rightarrow> time_point"
  array_in :: "string \<Rightarrow> string list option"
  EncodeArray :: "string list \<Rightarrow> string"
  ParseIntervalS :: "string \<Rightarrow> int option"
  ParseTimestamp :: "string \<Rightarrow> time_point option"
  FormatTimestamp :: "time_point \<Rightarrow> string"

locale pg_text =
  fixes pg :: pg_lib
  assumes ParseIntervalS_out: "0 \<le> d \<Longrightarrow> ParseIntervalS pg (interval_out pg (d * ns)) = Some d"
    and ParseTimestamp_out: "t mod 1000 = 0 \<Longrightarrow> ParseTimestamp pg (timestamp_out pg t) = Some t"
    and timestamp_in_Format: "t mod 1000 = 0 \<Longrightarrow> timestamp_in pg (FormatTimestamp pg t) = Some t"
    and timestamp_in_out: "t mod 1000 = 0 \<Longrightarrow> timestamp_in pg (timestamp_out pg t) = Some t"
    and FormatTimestamp_finite: "FormatTimestamp pg t \<noteq> ''infinity''"
    and epoch_out_strtoul: "0 \<le> d \<Longrightarrow> d div ns \<le> int ULONG_MAX \<Longrightarrow> fst (strtoul 10 (epoch_out pg d)) = nat (d div ns)"
    and epoch_out_strtol: "0 \<le> d \<Longrightarrow> d div ns \<le> 2 ^ 63 - 1 \<Longrightarrow> strtol0 (epoch_out pg d) = d div ns"
    and epoch_out_negative: "d < 0 \<Longrightarrow> strtol0 (epoch_out pg d) \<le> 0"
    and epoch_out_strtoul_negative: "d < 0 \<Longrightarrow> - (2 ^ 63) \<le> d div ns \<Longrightarrow>
      fst (strtoul 10 (epoch_out pg d)) = 0 \<or> 2 ^ 63 \<le> fst (strtoul 10 (epoch_out pg d))"
    and epoch_out_digits: "snd (strtoul 10 (epoch_out pg d)) \<noteq> epoch_out pg d"
    and epoch_out_nonempty: "epoch_out pg d \<noteq> []"
    and array_in_Encode: "list_all array_plain xs \<Longrightarrow> array_in pg (EncodeArray pg xs) = Some xs"
    and EncodeArray_Nil: "EncodeArray pg xs = ''{}'' \<longleftrightarrow> xs = []"
    and EncodeArray_nonempty: "EncodeArray pg xs \<noteq> []"

text \<open>An instance with decimal numbers as texts, on which the model is evaluated.\<close>

definition show_int :: "int \<Rightarrow> string" where
  "show_int i = (if i < 0 then CHR ''-'' # show_nat (nat (- i)) else show_nat (nat i))"

definition read_int :: "string \<Rightarrow> int option" where
  "read_int s = (if s = [] then None else if hd s = CHR ''-'' then Some (- int (digits_value 10 (tl s)))
     else if list_all (is_digit 10) s then Some (int (digits_value 10 s)) else None)"

lemma read_int_show_int: "read_int (show_int i) = Some i"
proof -
  have d: "list_all (is_digit 10) (show_nat n)" for n
    using show_nat_digits [of n] by (simp add: list_all_iff)
  then have "hd (show_nat n) \<noteq> CHR ''-''" for n
    using digit_not_sign show_nat_digits [of n] by (metis hd_in_set show_nat_nonempty)
  with d show ?thesis by (auto simp: read_int_def show_int_def digits_value_show_nat)
qed

lemma show_nat_no_zero: "0 < n \<Longrightarrow> hd (show_nat n) \<noteq> CHR ''0''"
proof (induction n rule: show_nat.induct)
  case (1 n)
  show ?case
  proof (cases "n < 10")
    case True
    have "char_of (48 + n) \<noteq> CHR ''0''"
    proof
      assume "char_of (48 + n) = CHR ''0''"
      from arg_cong [OF this, of code] show False using True "1.prems" by simp
    qed
    then show ?thesis using True by (subst show_nat.simps) simp
  next
    case False
    with 1 show ?thesis by (subst show_nat.simps) simp
  qed
qed

lemma takeWhile_show_nat [simp]: "takeWhile (is_digit 10) (show_nat n) = show_nat n"
  using show_nat_digits by (simp add: takeWhile_eq_all_conv)

lemma show_nat_plain_hd: "dropWhile is_space (show_nat n) = show_nat n" "skip_sign (show_nat n) = show_nat n"
  "cderef (show_nat n) \<noteq> CHR ''-''" "cderef (show_nat n) = hd (show_nat n)"
proof -
  obtain c cs where sn: "show_nat n = c # cs" by (cases "show_nat n") auto
  then have c: "is_digit 10 c" using show_nat_digits [of n] by simp
  show "dropWhile is_space (show_nat n) = show_nat n" using sn digit_not_space [OF c] by simp
  show "skip_sign (show_nat n) = show_nat n" using sn digit_not_sign [OF c] by (simp add: skip_sign_def)
  show "cderef (show_nat n) \<noteq> CHR ''-''" using sn digit_not_sign [OF c] by simp
  show "cderef (show_nat n) = hd (show_nat n)" using sn by simp
qed

lemma strtol0_show_nat: "int n \<le> 2 ^ 63 - 1 \<Longrightarrow> strtol0 (show_nat n) = int n"
proof (cases "n = 0")
  case True
  then have "show_nat n = ''0''" by (subst show_nat.simps) (simp add: char_of_def bit_0)
  then show ?thesis using True by (simp add: strtol0_def is_space_def skip_sign_def is_digit_def digits_value_def)
next
  case False
  then show "int n \<le> 2 ^ 63 - 1 \<Longrightarrow> ?thesis"
    using show_nat_no_zero [of n] show_nat_plain_hd [of n]
    by (simp add: strtol0_def digits_value_show_nat)
qed

lemma strtoul_minus_show_nat:
  "n \<le> ULONG_MAX \<Longrightarrow> strtoul 10 (CHR ''-'' # show_nat n) = ((2 ^ 64 - n) mod 2 ^ 64, [])"
  using show_nat_digits [of n]
  by (simp add: strtoul_def strtoul_digits_def is_space_def skip_sign_def Let_def digits_value_show_nat)

lemma strtoul_show_int_digits: "snd (strtoul 10 (show_int i)) \<noteq> show_int i"
proof (cases "i < 0")
  case True
  then show ?thesis by (simp add: strtoul_endptr_eq strtoul_digits_def show_int_def is_space_def skip_sign_def)
next
  case False
  then show ?thesis using show_nat_plain_hd(1,2) by (simp add: strtoul_endptr_eq strtoul_digits_def show_int_def)
qed

lemma strtol0_minus: "strtol0 (CHR ''-'' # s) \<le> 0"
  by (simp add: strtol0_def is_space_def Let_def)

fun split_array :: "string \<Rightarrow> string \<Rightarrow> string list" where
  "split_array a [] = []"
| "split_array a (c # s) = (if c = CHR ''}'' then (if a = [] then [] else [rev a])
     else if c = CHR '','' then rev a # split_array [] s else split_array (c # a) s)"

fun join_array :: "string list \<Rightarrow> string" where
  "join_array [] = ''}''"
| "join_array [x] = x @ ''}''"
| "join_array (x # xs) = x @ '','' @ join_array xs"

lemma split_array_plain:
  "list_all (\<lambda>c. c \<noteq> CHR '','' \<and> c \<noteq> CHR ''}'') x \<Longrightarrow> split_array a (x @ s) = split_array (rev x @ a) s"
  by (induction x arbitrary: a) auto

lemma split_join_array: "list_all array_plain xs \<Longrightarrow> split_array [] (join_array xs) = xs"
proof (induction xs rule: join_array.induct)
  case (2 x)
  then have "list_all (\<lambda>c. c \<noteq> CHR '','' \<and> c \<noteq> CHR ''}'') x"
    by (auto simp: array_plain_def list_all_iff)
  with 2 show ?case by (simp add: split_array_plain array_plain_def)
next
  case (3 x y ys)
  then have "list_all (\<lambda>c. c \<noteq> CHR '','' \<and> c \<noteq> CHR ''}'') x"
    by (auto simp: array_plain_def list_all_iff)
  with 3 show ?case by (simp add: split_array_plain)
qed simp

lemma join_array_Nil: "join_array xs = ''}'' \<longleftrightarrow> xs = [] \<or> xs = [[]]"
  by (induction xs rule: join_array.induct) (auto simp: append_eq_Cons_conv)

definition plain_pg :: pg_lib where
  "plain_pg = \<lparr>interval_in = read_int, interval_out = show_int, timestamp_in = read_int, timestamp_out = show_int,
     epoch_out = (\<lambda>d. show_int (d div ns)), to_local = (\<lambda>tz t. t), from_local = (\<lambda>tz t. t),
     plus_year = (\<lambda>t. t + 31557600 * ns),
     array_in = (\<lambda>s. case s of [] \<Rightarrow> None | c # t \<Rightarrow> Some (split_array [] t)),
     EncodeArray = (\<lambda>xs. if xs = [[]] then [CHR ''{'', CHR 0x22, CHR 0x22, CHR ''}''] else CHR ''{'' # join_array xs),
     ParseIntervalS = (\<lambda>s. map_option (\<lambda>d. d div ns) (read_int s)), ParseTimestamp = read_int,
     FormatTimestamp = show_int\<rparr>"

interpretation plain_pg: pg_text plain_pg
proof unfold_locales
  show "0 \<le> d \<Longrightarrow> ParseIntervalS plain_pg (interval_out plain_pg (d * ns)) = Some d" for d
    by (simp add: plain_pg_def read_int_show_int)
  show "ParseTimestamp plain_pg (timestamp_out plain_pg t) = Some t" for t
    by (simp add: plain_pg_def read_int_show_int)
  show "timestamp_in plain_pg (FormatTimestamp plain_pg t) = Some t" for t
    by (simp add: plain_pg_def read_int_show_int)
  show "timestamp_in plain_pg (timestamp_out plain_pg t) = Some t" for t
    by (simp add: plain_pg_def read_int_show_int)
  show "FormatTimestamp plain_pg t \<noteq> ''infinity''" for t
    using show_nat_digits [of "nat t"] by (auto simp: plain_pg_def show_int_def is_digit_def)
  show "fst (strtoul 10 (epoch_out plain_pg d)) = nat (d div ns)" if "0 \<le> d" "d div ns \<le> int ULONG_MAX" for d
  proof -
    have "\<not> d div ns < 0" using that(1) by (simp add: not_less pos_imp_zdiv_nonneg_iff)
    then show ?thesis
      using strtoul_show_nat [of "nat (d div ns)" "[]"] that by (simp add: plain_pg_def show_int_def)
  qed
  show "strtol0 (epoch_out plain_pg d) = d div ns" if "0 \<le> d" "d div ns \<le> 2 ^ 63 - 1" for d
  proof -
    have "\<not> d div ns < 0" using that(1) by (simp add: not_less pos_imp_zdiv_nonneg_iff)
    then show ?thesis using strtol0_show_nat [of "nat (d div ns)"] that by (simp add: plain_pg_def show_int_def)
  qed
  show "strtol0 (epoch_out plain_pg d) \<le> 0" if "d < 0" for d
  proof -
    have "d div ns < 0" using that by (simp add: neg_imp_zdiv_neg_iff)
    then show ?thesis using strtol0_minus by (simp add: plain_pg_def show_int_def)
  qed
  show "fst (strtoul 10 (epoch_out plain_pg d)) = 0 \<or> 2 ^ 63 \<le> fst (strtoul 10 (epoch_out plain_pg d))"
    if "d < 0" "- (2 ^ 63) \<le> d div ns" for d
  proof -
    have neg: "d div ns < 0" using that(1) by (simp add: neg_imp_zdiv_neg_iff)
    then have n: "0 < nat (- (d div ns))" "nat (- (d div ns)) \<le> 2 ^ 63" using that(2) by simp_all
    then have "fst (strtoul 10 (epoch_out plain_pg d)) = 2 ^ 64 - nat (- (d div ns))"
      using strtoul_minus_show_nat [of "nat (- (d div ns))"] neg
      by (simp add: plain_pg_def show_int_def)
    with n show ?thesis by simp
  qed
  show "snd (strtoul 10 (epoch_out plain_pg d)) \<noteq> epoch_out plain_pg d" for d
    using strtoul_show_int_digits by (simp add: plain_pg_def)
  show "epoch_out plain_pg d \<noteq> []" for d
    by (simp add: plain_pg_def show_int_def)
  show "array_in plain_pg (EncodeArray plain_pg xs) = Some xs" if "list_all array_plain xs" for xs
    using split_join_array [OF that] that by (auto simp: plain_pg_def array_plain_def)
  show "EncodeArray plain_pg xs = ''{}'' \<longleftrightarrow> xs = []" for xs
    using join_array_Nil [of xs] by (simp add: plain_pg_def)
  show "EncodeArray plain_pg xs \<noteq> []" for xs by (simp add: plain_pg_def)
qed

end
