(* ===== verification/Claim_Table.thy ===== *)
theory Claim_Table
  imports Sql_Table
begin

text \<open>
  The contract that makes a shared job table a work queue for several nodes, stated once for the
  tables \<open>jobs\<close> and \<open>cronjobs\<close>: a claim succeeds only on a row nobody holds, a node's other
  statements keep the rows that other nodes hold, and the expiry statement takes a row away only
  after its timeout. A cluster is the table together with the set of jobs each node believes it is
  running; its steps are the statements the nodes execute, in any interleaving.
\<close>

record ('t, 'settle, 'touch) claim_ops =
  holder :: "'t \<Rightarrow> string \<Rightarrow> string option"
  table_ok :: "'t \<Rightarrow> bool"
  expired :: "time_point \<Rightarrow> 't \<Rightarrow> string \<Rightarrow> bool"
  claim :: "string \<Rightarrow> string \<Rightarrow> time_point \<Rightarrow> 't \<Rightarrow> bool \<times> 't"
  settle :: "'settle \<Rightarrow> string \<Rightarrow> string \<Rightarrow> time_point \<Rightarrow> 't \<Rightarrow> 't"
  touch :: "'touch \<Rightarrow> string \<Rightarrow> time_point \<Rightarrow> 't \<Rightarrow> 't"
  release :: "string \<Rightarrow> time_point \<Rightarrow> 't \<Rightarrow> 't"
  expire :: "string \<Rightarrow> time_point \<Rightarrow> 't \<Rightarrow> 't"

type_synonym 't cluster = "'t \<times> (string \<Rightarrow> string set)"

text \<open>
  \<open>Claim\<close>: a node claims a job and runs it when the claim succeeded. \<open>Settle\<close>: a node reports
  the end of a job it runs. \<open>Touch\<close>: a statement about a job that changes no ownership.
  \<open>Crash\<close>: a node loses its processes. \<open>Connect\<close>: a node without running jobs connects and
  releases what it held before. \<open>Expire\<close>: a node releases the expired jobs of the others, at a
  time when no running job is overdue.
\<close>

inductive cluster_step :: "('t, 's, 'u) claim_ops \<Rightarrow> 't cluster \<Rightarrow> 't cluster \<Rightarrow> bool" for ops where
  Claim: "claim ops n j now t = (b, t') \<Longrightarrow>
    cluster_step ops (t, R) (t', if b then R(n := insert j (R n)) else R)"
| Settle: "j \<in> R n \<Longrightarrow> cluster_step ops (t, R) (settle ops s n j now t, R(n := R n - {j}))"
| Touch: "cluster_step ops (t, R) (touch ops u j now t, R)"
| Crash: "cluster_step ops (t, R) (t, R(n := {}))"
| Connect: "R n = {} \<Longrightarrow> cluster_step ops (t, R) (release ops n now t, R)"
| Expire: "(\<And>m j. j \<in> R m \<Longrightarrow> \<not> expired ops now t j) \<Longrightarrow> cluster_step ops (t, R) (expire ops n now t, R)"

text \<open>The one step the safety theorem excludes: a node with running jobs reconnects.\<close>

inductive reconnect_step :: "('t, 's, 'u) claim_ops \<Rightarrow> 't cluster \<Rightarrow> 't cluster \<Rightarrow> bool" for ops where
  Reconnect: "reconnect_step ops (t, R) (release ops n now t, R)"

definition exclusive :: "(string \<Rightarrow> string set) \<Rightarrow> bool" where
  "exclusive R \<longleftrightarrow> (\<forall>m n j. j \<in> R m \<longrightarrow> j \<in> R n \<longrightarrow> m = n)"

definition owns :: "('t, 's, 'u) claim_ops \<Rightarrow> 't cluster \<Rightarrow> bool" where
  "owns ops c \<longleftrightarrow> table_ok ops (fst c) \<and> (\<forall>n j. j \<in> snd c n \<longrightarrow> holder ops (fst c) j = Some n)"

text \<open>
  What the table promises its clients, in the abstract: a lock service that knows for each job the
  node that runs it. A lock is granted only when it is free, given back only by the node that has it,
  and a node that fails loses all of its locks.
\<close>

type_synonym locks = "string \<rightharpoonup> string"

inductive lock_step :: "locks \<Rightarrow> locks \<Rightarrow> bool" where
  Grant: "L j = None \<Longrightarrow> lock_step L (L(j \<mapsto> n))"
| Return: "L j = Some n \<Longrightarrow> lock_step L (L(j := None))"
| Fail: "lock_step L (\<lambda>j. if L j = Some n then None else L j)"
| Idle: "lock_step L L"

text \<open>The locks of a cluster: each job is locked by the node that runs it.\<close>

definition locked_by :: "(string \<Rightarrow> string set) \<Rightarrow> locks \<Rightarrow> bool" where
  "locked_by R L \<longleftrightarrow> (\<forall>j n. L j = Some n \<longleftrightarrow> j \<in> R n)"

inductive_cases cluster_stepE: "cluster_step ops c c'"

locale claim_table =
  fixes ops :: "('t, 's, 'u) claim_ops"
  assumes claim_won: "table_ok ops t \<Longrightarrow> claim ops n j now t = (True, t') \<Longrightarrow>
      holder ops t j = None \<and> holder ops t' = (holder ops t)(j := Some n)"
    and claim_lost: "table_ok ops t \<Longrightarrow> claim ops n j now t = (False, t') \<Longrightarrow> t' = t"
    and settle_other: "table_ok ops t \<Longrightarrow> k \<noteq> j \<Longrightarrow> holder ops (settle ops s n j now t) k = holder ops t k"
    and touch_holder: "table_ok ops t \<Longrightarrow> holder ops (touch ops u j now t) = holder ops t"
    and release_other: "table_ok ops t \<Longrightarrow> holder ops t j = Some m \<Longrightarrow> m \<noteq> n \<Longrightarrow>
      holder ops (release ops n now t) j = Some m"
    and expire_keeps: "table_ok ops t \<Longrightarrow> holder ops t j = Some m \<Longrightarrow> \<not> expired ops now t j \<Longrightarrow>
      holder ops (expire ops n now t) j = Some m"
    and claim_table_ok: "table_ok ops t \<Longrightarrow> table_ok ops (snd (claim ops n j now t))"
    and settle_table_ok: "table_ok ops t \<Longrightarrow> table_ok ops (settle ops s n j now t)"
    and touch_table_ok: "table_ok ops t \<Longrightarrow> table_ok ops (touch ops u j now t)"
    and release_table_ok: "table_ok ops t \<Longrightarrow> table_ok ops (release ops n now t)"
    and expire_table_ok: "table_ok ops t \<Longrightarrow> table_ok ops (expire ops n now t)"
begin

lemma owns_exclusive: "owns ops (t, R) \<Longrightarrow> exclusive R"
  by (auto simp: owns_def exclusive_def) (metis option.inject)

lemma owns_Claim:
  assumes o: "owns ops (t, R)" and c: "claim ops n j now t = (b, t')"
  shows "owns ops (t', if b then R(n := insert j (R n)) else R)"
proof (cases b)
  case True
  have ok: "table_ok ops t" using o by (simp add: owns_def)
  have w: "holder ops t j = None" "holder ops t' = (holder ops t)(j := Some n)"
    using claim_won [OF ok] c True by auto
  moreover have "table_ok ops t'" using claim_table_ok [OF ok, of n j now] c by simp
  ultimately show ?thesis using o True by (fastforce simp: owns_def)
next
  case False
  then have "t' = t" using claim_lost [of t n j now t'] o c by (simp add: owns_def)
  then show ?thesis using o False by simp
qed

lemma owns_step: "cluster_step ops c c' \<Longrightarrow> owns ops c \<Longrightarrow> owns ops c'"
proof (induction rule: cluster_step.induct)
  case (Claim n j now t b t' R)
  then show ?case by (intro owns_Claim)
next
  case (Settle j R n t s now)
  then have "exclusive R" by (intro owns_exclusive)
  then have ne: "k \<noteq> j" if "k \<in> (R(n := R n - {j})) m" for k m
    using that Settle.hyps by (auto simp: exclusive_def split: if_splits)
  show ?case
    unfolding owns_def fst_conv snd_conv
  proof (intro conjI allI impI)
    show "table_ok ops (settle ops s n j now t)" using Settle.prems by (simp add: owns_def settle_table_ok)
    fix m k assume k: "k \<in> (R(n := R n - {j})) m"
    then have "k \<in> R m" by (auto split: if_splits)
    with Settle.prems ne [OF k] show "holder ops (settle ops s n j now t) k = Some m"
      by (simp add: owns_def settle_other)
  qed
next
  case (Touch t R u j now)
  then show ?case by (simp add: owns_def touch_table_ok touch_holder)
next
  case (Crash t R n)
  then show ?case by (simp add: owns_def)
next
  case (Connect R n t now)
  then show ?case by (auto simp: owns_def release_table_ok intro: release_other)
next
  case (Expire R now t n)
  then show ?case by (auto simp: owns_def expire_table_ok intro: expire_keeps)
qed

lemma table_ok_step: "cluster_step ops c c' \<Longrightarrow> table_ok ops (fst c) \<Longrightarrow> table_ok ops (fst c')"
proof (induction rule: cluster_step.induct)
  case (Claim n j now t b t' R)
  then show ?case using claim_table_ok [of t n j now] by simp
qed (simp_all add: settle_table_ok touch_table_ok release_table_ok expire_table_ok)

lemma table_ok_steps: "(cluster_step ops)\<^sup>*\<^sup>* c c' \<Longrightarrow> table_ok ops (fst c) \<Longrightarrow> table_ok ops (fst c')"
  by (induction rule: rtranclp_induct) (auto intro: table_ok_step)

lemma owns_running:
  assumes "(cluster_step ops)\<^sup>*\<^sup>* (t, \<lambda>_. {}) c" and "table_ok ops t"
  shows "owns ops c"
  using assms(1)
proof (induction rule: rtranclp_induct)
  case base
  show ?case using assms(2) by (simp add: owns_def)
next
  case (step y z)
  then show ?case by (blast intro: owns_step)
qed

text \<open>Every step of the cluster is a step of the lock service, or none.\<close>

lemma lock_simulation:
  "cluster_step ops c c' \<Longrightarrow> owns ops c \<Longrightarrow> locked_by (snd c) L \<Longrightarrow> \<exists>L'. lock_step L L' \<and> locked_by (snd c') L'"
proof (induction rule: cluster_step.induct)
  case (Claim n j now t b t' R)
  have free: "L j = None" if b
  proof -
    have "holder ops t j = None"
      using claim_won [of t n j now t'] Claim that by (simp add: owns_def)
    then show ?thesis using Claim.prems by (cases "L j") (auto simp: owns_def locked_by_def)
  qed
  show ?case
  proof (cases b)
    case True
    moreover have "locked_by (R(n := insert j (R n))) (L(j \<mapsto> n))"
      using Claim.prems free [OF True] by (auto simp: locked_by_def split: if_splits) (metis option.distinct(1))
    ultimately show ?thesis using Grant [of L j n] free by (auto simp del: fun_upd_apply)
  qed (use Claim.prems Idle in auto)
next
  case (Settle j R n t s now)
  then have "L j = Some n" by (simp add: locked_by_def)
  moreover have "locked_by (R(n := R n - {j})) (L(j := None))"
    using Settle.prems \<open>L j = Some n\<close> by (auto simp: locked_by_def split: if_splits) (metis option.inject)
  ultimately show ?case using Return [of L j n] by (auto simp del: fun_upd_apply)
next
  case (Crash t R n)
  then have "locked_by (R(n := {})) (\<lambda>j. if L j = Some n then None else L j)"
    by (auto simp: locked_by_def split: if_splits) (metis option.inject)
  then show ?case using Fail [of L n] by (auto simp del: fun_upd_apply)
qed (use Idle in auto)

lemma lock_refinement:
  assumes "(cluster_step ops)\<^sup>*\<^sup>* (t, \<lambda>_. {}) c" and "table_ok ops t"
  shows "\<exists>L. lock_step\<^sup>*\<^sup>* Map.empty L \<and> locked_by (snd c) L"
  using assms(1)
proof (induction rule: rtranclp_induct)
  case base
  show ?case by (auto simp: locked_by_def intro!: exI [of _ Map.empty])
next
  case (step y z)
  then show ?case using lock_simulation [OF step.hyps(2) owns_running [OF step.hyps(1) assms(2)]]
    by (meson rtranclp.rtrancl_into_rtrancl)
qed

text \<open>No two nodes ever run the same job.\<close>

lemma cluster_exclusive:
  assumes "(cluster_step ops)\<^sup>*\<^sup>* (t, \<lambda>_. {}) (t', R)" and "table_ok ops t"
  shows "exclusive R"
  using owns_running [OF assms] by (rule owns_exclusive)

text \<open>While one node runs a job, no other node's claim of it succeeds.\<close>

lemma running_not_claimed:
  assumes "owns ops (t, R)" and "j \<in> R n"
  shows "\<not> fst (claim ops m j now t)"
proof
  assume c: "fst (claim ops m j now t)"
  have "table_ok ops t" using assms(1) by (simp add: owns_def)
  then have "holder ops t j = None"
    using claim_won [of t m j now "snd (claim ops m j now t)"] c by (metis prod.collapse)
  then show False using assms by (auto simp: owns_def)
qed

end

end
