(* ===== verification/Cron_Next.thy ===== *)
theory Cron_Next
  imports Cron_Schedule Calendar
begin

text \<open>
  \<open>CronSchedule::CheckDate()\<close>, \<open>NextBit()\<close> and \<open>CronSchedule::Next()\<close> of
  \<open>src/cron/Schedule.cxx\<close>. The loop that skips dates may run forever (it does when no date can
  match), so it is a partial function into \<open>option\<close> whose value is \<open>None\<close> exactly when it does
  not end. The results: \<open>Next\<close> returns a matching time after the last one, its date is the
  earliest possible, the time is the earliest possible when the date of the last run matches, and
  it returns if and only if the schedule admits some date.
\<close>

section \<open>The operations\<close>

definition CheckDate :: "cron_schedule \<Rightarrow> tm \<Rightarrow> bool" where
  "CheckDate c x =
     (let day_of_month_match = rbs_get (days_of_month c) (tm_mday x);
          day_of_week_match = rbs_get (days_of_week c) (tm_wday x)
      in rbs_get (months c) (tm_mon x + 1) \<and>
         (if days_any_wildcard c then day_of_month_match \<and> day_of_week_match
          else day_of_month_match \<or> day_of_week_match))"

definition NextBit :: "range_bitset \<Rightarrow> nat \<Rightarrow> nat" where
  "NextBit b pos =
     (case List.find (rbs_get b) [pos + 1..<rb_MAX b + 1] of
        Some i \<Rightarrow> i
      | None \<Rightarrow> (case List.find (rbs_get b) [rb_MIN b..<pos] of Some i \<Rightarrow> i | None \<Rightarrow> pos))"

partial_function (option) SkipDates :: "time_lib \<Rightarrow> cron_schedule \<Rightarrow> tm \<Rightarrow> tm option" where
  "SkipDates lib c x = (if CheckDate c x then Some x else SkipDates lib c (IncrementDay lib x))"

text \<open>The candidate before dates are checked: time of day, and the day after a wrap-around.\<close>

definition NextCandidate :: "time_lib \<Rightarrow> cron_schedule \<Rightarrow> tm \<Rightarrow> tm" where
  "NextCandidate lib c last0 =
     (let last_min = (if rbs_get (hours c) (tm_hour last0) then tm_min last0 else 60);
          last_hour = tm_hour last0;
          x = last0\<lparr>tm_sec := 0, tm_min := NextBit (minutes c) last_min\<rparr>
      in if tm_min x \<le> last_min
         then (let y = x\<lparr>tm_hour := NextBit (hours c) last_hour\<rparr>
               in if tm_hour y \<le> last_hour then IncrementDay lib y else y)
         else x)"

definition Next :: "time_lib \<Rightarrow> cron_schedule \<Rightarrow> time_point \<Rightarrow> time_point \<Rightarrow> time_point option" where
  "Next lib c last_run now =
     (if IsOnce c
      then Some (if last_run = time_point_min then now else time_point_max)
      else (let l = (if last_run = time_point_min then now - 60 * ns else last_run)
            in map_option (TimeGm lib) (SkipDates lib c (NextCandidate lib c (GmTime lib l)))))"

section \<open>The next set bit\<close>

lemma find_None_upt: "List.find P [a..<b] = None \<longleftrightarrow> (\<forall>i. a \<le> i \<and> i < b \<longrightarrow> \<not> P i)"
  by (auto simp: find_None_iff)

lemma find_Some_upt:
  assumes "List.find P [a..<b] = Some i"
  shows "a \<le> i" "i < b" "P i" "\<And>j. a \<le> j \<Longrightarrow> j < i \<Longrightarrow> \<not> P j"
proof -
  obtain k where k: "k < length [a..<b]" "P ([a..<b] ! k)" "i = [a..<b] ! k" "\<forall>j<k. \<not> P ([a..<b] ! j)"
    using assms unfolding find_Some_iff by blast
  then have i: "i = a + k" "k < b - a" by simp_all
  then show "a \<le> i" "i < b" "P i" using k(2,3) by auto
  fix j assume "a \<le> j" "j < i"
  then have "j - a < k" using i by simp
  then have "\<not> P ([a..<b] ! (j - a))" using k(4) by blast
  then show "\<not> P j" using \<open>a \<le> j\<close> \<open>j < i\<close> i by simp
qed

text \<open>
  On a non-empty set \<open>NextBit\<close> is the least element above \<open>pos\<close>, or else the least element.
\<close>

lemma NextBit_spec:
  assumes wf: "rbs_wf mn mx b" and ne: "rbs_elems b \<noteq> {}" and pos: "mn \<le> pos"
  shows "NextBit b pos \<in> rbs_elems b"
    and "pos < NextBit b pos \<Longrightarrow> j \<in> rbs_elems b \<Longrightarrow> pos < j \<Longrightarrow> NextBit b pos \<le> j"
    and "NextBit b pos \<le> pos \<Longrightarrow> j \<in> rbs_elems b \<Longrightarrow> j \<le> pos \<and> NextBit b pos \<le> j"
proof -
  have M: "rb_MIN b = mn" "rb_MAX b = mx" using wf by (simp_all add: rbs_wf_def)
  have el: "p \<in> rbs_elems b \<longleftrightarrow> mn \<le> p \<and> p \<le> mx \<and> rbs_get b p" for p
    by (simp add: rbs_elems_def M)
  have main: "NextBit b pos \<in> rbs_elems b \<and>
      (pos < NextBit b pos \<longrightarrow> (\<forall>j \<in> rbs_elems b. pos < j \<longrightarrow> NextBit b pos \<le> j)) \<and>
      (NextBit b pos \<le> pos \<longrightarrow> (\<forall>j \<in> rbs_elems b. j \<le> pos \<and> NextBit b pos \<le> j))"
  proof (cases "List.find (rbs_get b) [pos + 1..<mx + 1]")
    case (Some i)
    note F = find_Some_upt [OF Some]
    have "NextBit b pos = i" using Some by (simp add: NextBit_def M)
    then show ?thesis using F pos by (auto simp: el not_less [symmetric])
  next
    case None
    then have none: "j \<in> rbs_elems b \<Longrightarrow> j \<le> pos" for j
      unfolding find_None_upt el by (metis Suc_eq_plus1 le_imp_less_Suc not_less_eq_eq)
    show ?thesis
    proof (cases "List.find (rbs_get b) [mn..<pos]")
      case (Some i)
      note F = find_Some_upt [OF Some]
      obtain e where "e \<in> rbs_elems b" using ne by blast
      have "NextBit b pos = i" using None Some by (simp add: NextBit_def M)
      moreover have "i \<le> j" if "j \<in> rbs_elems b" for j
        using that F(4) [of j] by (auto simp: el not_less [symmetric])
      moreover have "i \<le> mx"
        using \<open>e \<in> rbs_elems b\<close> calculation(2) el by (meson le_trans)
      ultimately show ?thesis using F none by (auto simp: el)
    next
      case (None)
      then have "j \<in> rbs_elems b \<Longrightarrow> pos \<le> j" for j
        unfolding find_None_upt el by (meson not_le)
      then have eq: "j \<in> rbs_elems b \<Longrightarrow> j = pos" for j using none by (meson le_antisym)
      moreover have "NextBit b pos = pos"
        using None \<open>List.find (rbs_get b) [pos + 1..<mx + 1] = None\<close> by (simp add: NextBit_def M)
      ultimately show ?thesis using ne by fastforce
    qed
  qed
  show "NextBit b pos \<in> rbs_elems b" using main by blast
  show "pos < NextBit b pos \<Longrightarrow> j \<in> rbs_elems b \<Longrightarrow> pos < j \<Longrightarrow> NextBit b pos \<le> j" using main by blast
  show "NextBit b pos \<le> pos \<Longrightarrow> j \<in> rbs_elems b \<Longrightarrow> j \<le> pos \<and> NextBit b pos \<le> j" using main by blast
qed

section \<open>Skipping dates\<close>

lemmas SkipDates_induct [consumes 1, case_names step] =
  SkipDates.raw_induct [where xa = "((lib, c), x)" for lib c x, unfolded prod.case, rotated]

lemma SkipDates_SomeD:
  "SkipDates lib c x = Some y \<Longrightarrow>
     \<exists>k. y = (IncrementDay lib ^^ k) x \<and> CheckDate c y \<and> (\<forall>j<k. \<not> CheckDate c ((IncrementDay lib ^^ j) x))"
proof (induction rule: SkipDates_induct)
  case (step f lib c x y)
  show ?case
  proof (cases "CheckDate c x")
    case True
    with step show ?thesis by (intro exI [of _ 0]) auto
  next
    case False
    with step obtain k where k: "y = (IncrementDay lib ^^ k) (IncrementDay lib x)" "CheckDate c y"
      "\<forall>j<k. \<not> CheckDate c ((IncrementDay lib ^^ j) (IncrementDay lib x))" by fastforce
    have "\<not> CheckDate c ((IncrementDay lib ^^ j) x)" if "j < Suc k" for j
      using that k(3) False by (cases j) (auto simp: funpow_swap1)
    with k show ?thesis by (intro exI [of _ "Suc k"]) (simp add: funpow_swap1)
  qed
qed

lemma SkipDates_reaches:
  "CheckDate c ((IncrementDay lib ^^ k) x) \<Longrightarrow> \<exists>y. SkipDates lib c x = Some y"
  by (induction k arbitrary: x) (subst SkipDates.simps, auto simp: funpow_swap1)+

text \<open>Membership form of the date check.\<close>

definition date_ok :: "cron_schedule \<Rightarrow> tm \<Rightarrow> bool" where
  "date_ok c x \<longleftrightarrow> tm_mon x + 1 \<in> rbs_elems (months c) \<and>
     (if days_any_wildcard c
      then tm_mday x \<in> rbs_elems (days_of_month c) \<and> tm_wday x \<in> rbs_elems (days_of_week c)
      else tm_mday x \<in> rbs_elems (days_of_month c) \<or> tm_wday x \<in> rbs_elems (days_of_week c))"

lemma tm_valid_ranges:
  assumes "tm_valid x"
  shows "tm_mday x \<le> 31" "tm_wday x \<le> 6" "tm_mon x + 1 \<le> 12" "1 \<le> tm_mday x" "tm_hour x \<le> 23" "tm_min x \<le> 59"
proof -
  have "int (tm_wday x) < 7" using assms by (simp add: tm_valid_def)
  then show "tm_wday x \<le> 6" by simp
  show "tm_mday x \<le> 31"
    using assms days_in_month_bounds(2) [of "full_year x" "tm_mon x"] by (simp add: tm_valid_def)
qed (use assms in \<open>simp_all add: tm_valid_def\<close>)

lemma CheckDate_date_ok:
  assumes "cron_bounds c" and "tm_valid x"
  shows "CheckDate c x \<longleftrightarrow> date_ok c x"
  using assms tm_valid_ranges [OF assms(2)]
  by (simp add: CheckDate_def date_ok_def cron_bounds_def rbs_get_elems [of 1 31] rbs_get_elems [of 1 12]
      rbs_get_elems [of 0 6])

text \<open>A broken-down time that the schedule admits: what \<open>Next\<close> looks for.\<close>

definition matches :: "cron_schedule \<Rightarrow> tm \<Rightarrow> bool" where
  "matches c x \<longleftrightarrow> tm_valid x \<and> tm_sec x = 0 \<and> tm_min x \<in> rbs_elems (minutes c) \<and>
     tm_hour x \<in> rbs_elems (hours c) \<and> date_ok c x"

text \<open>Minute of the day, the part of a time point that dates do not decide.\<close>

definition day_minute :: "tm \<Rightarrow> nat" where
  "day_minute x = 60 * tm_hour x + tm_min x"

lemma day_seconds_minute: "tm_sec x = 0 \<Longrightarrow> day_seconds x = 60 * int (day_minute x)"
  by (simp add: day_seconds_def day_minute_def)

lemma valid_time_upd:
  "tm_valid x \<Longrightarrow> m < 60 \<Longrightarrow> h < 24 \<Longrightarrow> tm_valid (x\<lparr>tm_sec := 0, tm_min := m, tm_hour := h\<rparr>)"
  by (rule valid_time_fields) simp_all

text \<open>
  The candidate in closed form. Either it is today at a later minute of the day, the least one in
  the schedule after the last run's; or no such minute is left today, and it is tomorrow at the
  schedule's first minute of the day.
\<close>

lemma after_arith:
  fixes e :: int
  assumes "e = ns * (86400 * cl + 60 * dl + s) + f" and "0 \<le> f" "f < ns" "0 \<le> s" "s < 60"
  shows "e < ns * (86400 * cy + 60 * dy) \<longleftrightarrow> 1440 * cl + dl < 1440 * cy + dy"
proof
  assume "e < ns * (86400 * cy + 60 * dy)"
  with assms have "86400 * cl + 60 * dl + s < 86400 * cy + 60 * dy"
    using mult_less_cancel_left_pos [of ns "86400 * cl + 60 * dl + s"] by (simp add: order_le_less_trans)
  with assms show "1440 * cl + dl < 1440 * cy + dy" by linarith
next
  assume "1440 * cl + dl < 1440 * cy + dy"
  then have "86400 * cl + 60 * dl + s + 1 \<le> 86400 * cy + 60 * dy" using assms by linarith
  then have "ns * (86400 * cl + 60 * dl + s + 1) \<le> ns * (86400 * cy + 60 * dy)"
    by (rule mult_left_mono) simp
  with assms show "e < ns * (86400 * cy + 60 * dy)" unfolding distrib_left by linarith
qed

context calendar
begin

lemma NextCandidate_cases:
  assumes c: "cron_bounds c" "cron_nonempty c" and v: "tm_valid l"
  obtains (today) h m where "NextCandidate lib c l = l\<lparr>tm_sec := 0, tm_min := m, tm_hour := h\<rparr>"
      "m \<in> rbs_elems (minutes c)" "h \<in> rbs_elems (hours c)" "day_minute l < 60 * h + m"
      "\<And>h' m'. h' \<in> rbs_elems (hours c) \<Longrightarrow> m' \<in> rbs_elems (minutes c) \<Longrightarrow> day_minute l < 60 * h' + m' \<Longrightarrow> 60 * h + m \<le> 60 * h' + m'"
    | (tomorrow) h m where "NextCandidate lib c l = next_day (l\<lparr>tm_sec := 0, tm_min := m, tm_hour := h\<rparr>)"
      "m \<in> rbs_elems (minutes c)" "h \<in> rbs_elems (hours c)"
      "\<And>h' m'. h' \<in> rbs_elems (hours c) \<Longrightarrow> m' \<in> rbs_elems (minutes c) \<Longrightarrow> 60 * h + m \<le> 60 * h' + m' \<and> 60 * h' + m' \<le> day_minute l"
proof -
  let ?H = "rbs_elems (hours c)" and ?M = "rbs_elems (minutes c)"
  define lm where "lm = (if rbs_get (hours c) (tm_hour l) then tm_min l else 60)"
  define m where "m = NextBit (minutes c) lm"
  define h where "h = NextBit (hours c) (tm_hour l)"
  have wf: "rbs_wf 0 59 (minutes c)" "rbs_wf 0 23 (hours c)" "?M \<noteq> {}" "?H \<noteq> {}"
    using c by (simp_all add: cron_bounds_def cron_nonempty_def)
  have hin: "rbs_get (hours c) (tm_hour l) \<longleftrightarrow> tm_hour l \<in> ?H"
    using tm_valid_ranges [OF v] by (intro rbs_get_elems [OF wf(2)]) simp_all
  have lm: "lm = (if tm_hour l \<in> ?H then tm_min l else 60)" by (simp add: lm_def hin)
  note M = NextBit_spec [OF wf(1,3) le0, of lm, folded m_def]
  note H = NextBit_spec [OF wf(2,4) le0, of "tm_hour l", folded h_def]
  have M59: "j \<in> ?M \<Longrightarrow> j \<le> 59" for j using rbs_elems_subset [OF wf(1)] by auto
  have hv: "tm_hour l \<le> 23" "tm_min l \<le> 59" using tm_valid_ranges [OF v] by simp_all
  have upd: "l\<lparr>tm_sec := 0, tm_min := m\<rparr> = l\<lparr>tm_sec := 0, tm_min := m, tm_hour := tm_hour l\<rparr>" by simp
  consider (a) "lm < m" | (b) "m \<le> lm" "tm_hour l < h" | (c) "m \<le> lm" "h \<le> tm_hour l" by linarith
  then show thesis
  proof cases
    case a
    then have hl: "tm_hour l \<in> ?H" "lm = tm_min l" using M59 [OF M(1)] by (auto simp: lm split: if_splits)
    have "NextCandidate lib c l = l\<lparr>tm_sec := 0, tm_min := m, tm_hour := tm_hour l\<rparr>"
      using a by (simp add: NextCandidate_def Let_def lm_def [symmetric] m_def [symmetric])
    moreover have "60 * tm_hour l + m \<le> 60 * h' + m'"
      if "h' \<in> ?H" "m' \<in> ?M" "day_minute l < 60 * h' + m'" for h' m'
      using that M(2) [OF a that(2)] M59 [OF that(2)] M59 [OF M(1)] hl(2)
      by (cases "h' = tm_hour l") (auto simp: day_minute_def)
    ultimately show thesis using a hl M(1) by (intro today) (auto simp: day_minute_def)
  next
    case b
    have "NextCandidate lib c l = l\<lparr>tm_sec := 0, tm_min := m, tm_hour := h\<rparr>"
      using b by (simp add: NextCandidate_def Let_def lm_def [symmetric] m_def [symmetric] h_def [symmetric])
    moreover have "60 * h + m \<le> 60 * h' + m'"
      if "h' \<in> ?H" "m' \<in> ?M" "day_minute l < 60 * h' + m'" for h' m'
    proof -
      have "tm_hour l < h'"
        using that M(3) [OF b(1) that(2)] M59 [OF that(2)] by (cases "h' = tm_hour l") (auto simp: day_minute_def lm split: if_splits)
      then show ?thesis using H(2) [OF b(2) that(1)] M(3) [OF b(1) that(2)] by simp
    qed
    ultimately show thesis using b H(1) M(1) hv by (intro today) (auto simp: day_minute_def)
  next
    case c
    have "tm_valid (l\<lparr>tm_sec := 0, tm_min := m, tm_hour := h\<rparr>)"
      using c hv M59 [OF M(1)] by (intro valid_time_upd [OF v]) simp_all
    then have "NextCandidate lib c l = next_day (l\<lparr>tm_sec := 0, tm_min := m, tm_hour := h\<rparr>)"
      using c by (simp add: NextCandidate_def Let_def lm_def [symmetric] m_def [symmetric] h_def [symmetric] IncrementDay_next)
    moreover have "60 * h + m \<le> 60 * h' + m' \<and> 60 * h' + m' \<le> day_minute l"
      if "h' \<in> ?H" "m' \<in> ?M" for h' m'
      using H(3) [OF c(2) that(1)] M(3) [OF c(1) that(2)] M59 [OF that(2)] that(1)
      by (cases "h' = tm_hour l") (auto simp: day_minute_def lm)
    ultimately show thesis using H(1) M(1) by (intro tomorrow)
  qed
qed

lemma after_iff:
  assumes y: "tm_valid y" "tm_sec y = 0" and e: "0 \<le> e"
  shows "e < TimeGm lib y \<longleftrightarrow> civil_days (GmTime lib e) < civil_days y \<or>
    civil_days (GmTime lib e) = civil_days y \<and> day_minute (GmTime lib e) < day_minute y"
proof -
  let ?l = "GmTime lib e"
  have l: "tm_valid ?l" using e by (rule GmTime_valid)
  have b: "int (day_minute ?l) < 1440" "int (day_minute y) < 1440" "int (tm_sec ?l) < 60"
    using tm_valid_ranges [OF l] tm_valid_ranges [OF y(1)] l by (simp_all add: day_minute_def tm_valid_def)
  have "day_seconds ?l = 60 * int (day_minute ?l) + int (tm_sec ?l)"
    by (simp add: day_seconds_def day_minute_def)
  then have E: "e = ns * (86400 * civil_days ?l + 60 * int (day_minute ?l) + int (tm_sec ?l)) + e mod ns"
    using GmTime_days [OF e] by simp
  have Y: "TimeGm lib y = ns * (86400 * civil_days y + 60 * int (day_minute y))"
    using TimeGm_seconds [OF y(1)] day_seconds_minute [OF y(2)] by simp
  have "0 \<le> e mod ns" "e mod ns < ns" by simp_all
  then have "e < TimeGm lib y \<longleftrightarrow> 1440 * civil_days ?l + int (day_minute ?l) < 1440 * civil_days y + int (day_minute y)"
    unfolding Y using after_arith [OF E] b by simp
  also have "\<dots> \<longleftrightarrow> civil_days ?l < civil_days y \<or> civil_days ?l = civil_days y \<and> day_minute ?l < day_minute y"
    using b by linarith
  finally show ?thesis .
qed

lemma TimeGm_le:
  assumes "tm_valid x" "tm_sec x = 0" "tm_valid y" "tm_sec y = 0"
    and "civil_days x < civil_days y \<or> civil_days x = civil_days y \<and> day_minute x \<le> day_minute y"
  shows "TimeGm lib x \<le> TimeGm lib y"
proof -
  have "int (day_minute x) < 1440" "int (day_minute y) < 1440"
    using tm_valid_ranges [OF assms(1)] tm_valid_ranges [OF assms(3)] by (simp_all add: day_minute_def)
  then show ?thesis
    using assms(5) by (auto simp: TimeGm_seconds [OF assms(1)] TimeGm_seconds [OF assms(3)]
        day_seconds_minute [OF assms(2)] day_seconds_minute [OF assms(4)])
qed

end

definition effective_last :: "time_point \<Rightarrow> time_point \<Rightarrow> time_point" where
  "effective_last last_run now = (if last_run = time_point_min then now - 60 * ns else last_run)"

context calendar
begin

lemma NextCandidate_valid:
  assumes c: "cron_ok c" and v: "tm_valid l"
  shows "tm_valid (NextCandidate lib c l) \<and> tm_sec (NextCandidate lib c l) = 0 \<and>
    tm_min (NextCandidate lib c l) \<in> rbs_elems (minutes c) \<and> tm_hour (NextCandidate lib c l) \<in> rbs_elems (hours c)"
proof -
  have cb: "cron_bounds c" "cron_nonempty c" using c by (simp_all add: cron_ok_def)
  have lim: "m \<in> rbs_elems (minutes c) \<Longrightarrow> m < 60" "h \<in> rbs_elems (hours c) \<Longrightarrow> h < 24" for m h
    using cb(1) by (auto simp: rbs_elems_def cron_bounds_def rbs_wf_def)
  from cb v show ?thesis
  proof (cases rule: NextCandidate_cases)
    case (today h m)
    then show ?thesis using valid_time_upd [OF v] lim by simp
  next
    case (tomorrow h m)
    then show ?thesis using next_day_valid valid_time_upd [OF v] lim by simp
  qed
qed

lemma Next_SomeD:
  assumes c: "cron_ok c" and e: "e = effective_last last_run now" "0 \<le> e"
    and r: "Next lib c last_run now = Some r"
  obtains k x where "x = (next_day ^^ k) (NextCandidate lib c (GmTime lib e))" "matches c x" "r = TimeGm lib x"
    "\<And>j. j < k \<Longrightarrow> \<not> date_ok c ((next_day ^^ j) (NextCandidate lib c (GmTime lib e)))"
proof -
  let ?n = "NextCandidate lib c (GmTime lib e)"
  have n: "tm_valid ?n" "tm_sec ?n = 0" "tm_min ?n \<in> rbs_elems (minutes c)" "tm_hour ?n \<in> rbs_elems (hours c)"
    using NextCandidate_valid [OF c GmTime_valid [OF e(2)]] by simp_all
  note it = IncrementDay_iter [OF n(1)]
  have cd: "CheckDate c ((next_day ^^ k) ?n) = date_ok c ((next_day ^^ k) ?n)" for k
    using c it by (intro CheckDate_date_ok) (auto simp: cron_ok_def)
  obtain x where x: "SkipDates lib c ?n = Some x" "r = TimeGm lib x"
    using r cron_ok_not_once [OF c] e(1) by (auto simp: Next_def Let_def effective_last_def split: if_splits)
  obtain k where k: "x = (next_day ^^ k) ?n" "CheckDate c x" "\<forall>j<k. \<not> CheckDate c ((next_day ^^ j) ?n)"
    using SkipDates_SomeD [OF x(1)] it by auto
  then have "matches c x" using n it cd by (auto simp: matches_def)
  with k x cd that show thesis by metis
qed

text \<open>Where the candidate lies relative to the last run, in days and minutes.\<close>

lemma NextCandidate_position:
  assumes c: "cron_ok c" and v: "tm_valid l"
  obtains (today) "civil_days (NextCandidate lib c l) = civil_days l" "day_minute l < day_minute (NextCandidate lib c l)"
      "date_ok c (NextCandidate lib c l) = date_ok c l"
      "\<And>y. matches c y \<Longrightarrow> day_minute l < day_minute y \<Longrightarrow> day_minute (NextCandidate lib c l) \<le> day_minute y"
    | (tomorrow) "civil_days (NextCandidate lib c l) = civil_days l + 1"
      "\<And>y. matches c y \<Longrightarrow> day_minute (NextCandidate lib c l) \<le> day_minute y \<and> day_minute y \<le> day_minute l"
proof -
  have cb: "cron_bounds c" "cron_nonempty c" using c by (simp_all add: cron_ok_def)
  have lim: "m \<in> rbs_elems (minutes c) \<Longrightarrow> m < 60" "h \<in> rbs_elems (hours c) \<Longrightarrow> h < 24" for m h
    using cb(1) by (auto simp: rbs_elems_def cron_bounds_def rbs_wf_def)
  from cb v show thesis
  proof (cases rule: NextCandidate_cases)
    case t: (today h m)
    show thesis using t by (intro today) (simp_all add: day_minute_def date_ok_def matches_def)
  next
    case t: (tomorrow h m)
    have "tm_valid (l\<lparr>tm_sec := 0, tm_min := m, tm_hour := h\<rparr>)" using t lim v by (intro valid_time_upd) auto
    from civil_days_next [OF this] show thesis
      using t by (intro tomorrow) (simp_all add: day_minute_def matches_def)
  qed
qed

lemma date_ok_civil:
  "tm_valid x \<Longrightarrow> tm_valid y \<Longrightarrow> civil_days x = civil_days y \<Longrightarrow> date_ok c x = date_ok c y"
  using civil_days_inj [of x y] by (simp add: date_ok_def)

text \<open>The result: a match after the last run, on the first date, and how its time compares.\<close>

lemma Next_position:
  assumes c: "cron_ok c" and e: "e = effective_last last_run now" "0 \<le> e"
    and r: "Next lib c last_run now = Some r"
  obtains x where "matches c x" "r = TimeGm lib x" "e < r"
    "\<And>y. matches c y \<Longrightarrow> e < TimeGm lib y \<Longrightarrow> civil_days x \<le> civil_days y"
    "\<And>y. matches c y \<Longrightarrow> e < TimeGm lib y \<Longrightarrow> date_ok c (GmTime lib e) \<Longrightarrow> r \<le> TimeGm lib y"
proof -
  let ?l = "GmTime lib e" and ?n = "NextCandidate lib c (GmTime lib e)"
  have l: "tm_valid ?l" using e(2) by (rule GmTime_valid)
  have n: "tm_valid ?n" using NextCandidate_valid [OF c l] by simp
  obtain k x where x: "x = (next_day ^^ k) ?n" "matches c x" "r = TimeGm lib x"
    and before: "\<And>j. j < k \<Longrightarrow> \<not> date_ok c ((next_day ^^ j) ?n)"
    using Next_SomeD [OF c e r] by blast
  have xv: "tm_valid x" "tm_sec x = 0" using x(2) by (simp_all add: matches_def)
  have civ: "civil_days x = civil_days ?n + int k" and dm: "day_minute x = day_minute ?n"
    using x(1) civil_days_iter [OF n] by (simp_all add: day_minute_def)
  have "e < r"
    unfolding x(3) after_iff [OF xv e(2)] using c l
    by (cases rule: NextCandidate_position) (use civ dm in auto)
  moreover have first: "civil_days x \<le> civil_days y" if y: "matches c y" "e < TimeGm lib y" for y
  proof (rule ccontr)
    assume less: "\<not> civil_days x \<le> civil_days y"
    have yv: "tm_valid y" "tm_sec y = 0" "date_ok c y" using y(1) by (simp_all add: matches_def)
    have after: "civil_days ?l < civil_days y \<or> civil_days ?l = civil_days y \<and> day_minute ?l < day_minute y"
      using y(2) after_iff [OF yv(1,2) e(2)] by simp
    have "civil_days ?n \<le> civil_days y"
      using NextCandidate_position [OF c l] after y(1) by (metis add1_zle_eq not_le order.order_iff_strict)
    then obtain j where j: "civil_days y = civil_days ?n + int j" using zle_iff_zadd by blast
    then have "civil_days y = civil_days ((next_day ^^ j) ?n)" using civil_days_iter [OF n] by simp
    then have "date_ok c ((next_day ^^ j) ?n)" using date_ok_civil iter_valid [OF n] yv by metis
    moreover have "j < k" using less j civ by simp
    ultimately show False using before by blast
  qed
  moreover have "r \<le> TimeGm lib y" if y: "matches c y" "e < TimeGm lib y" "date_ok c ?l" for y
  proof -
    have yv: "tm_valid y" "tm_sec y = 0" using y(1) by (simp_all add: matches_def)
    have "day_minute x \<le> day_minute y" if "civil_days x = civil_days y"
      using c l
    proof (cases rule: NextCandidate_position)
      case today
      with before [of 0] y(3) have "k = 0" by auto
      with today that civ y after_iff [OF yv e(2)] show ?thesis by (auto simp: dm)
    next
      case tomorrow
      with y dm show ?thesis by simp
    qed
    with first [OF y(1,2)] show ?thesis unfolding x(3) using xv yv by (intro TimeGm_le) auto
  qed
  ultimately show thesis using x that by blast
qed

end

section \<open>Which dates recur\<close>

lemma is_leap_400: "is_leap (400 * q)"
  using dvd_mult2 [of 4 400 q] by (simp add: is_leap_def)

lemma days_in_month_400: "days_in_month (400 * q) m = days_in_month 2000 m"
  using is_leap_400 [of q] is_leap_400 [of 5] by (simp add: days_in_month_def)

text \<open>Every month and day that exists in a leap year lies ahead of every date.\<close>

lemma future_date:
  assumes v: "tm_valid x" and m: "m < 12" and d: "1 \<le> d" "d \<le> days_in_month 2000 m"
  obtains k where "tm_mon ((next_day ^^ k) x) = m" "tm_mday ((next_day ^^ k) x) = d"
proof -
  define Y where "Y = 400 * (full_year x div 400 + 1)"
  define z where "z = x\<lparr>tm_year := Y - 1900, tm_mon := m, tm_mday := d\<rparr>"
  define y where "y = z\<lparr>tm_wday := nat ((civil_days z + 4) mod 7)\<rparr>"
  have "full_year x < Y" using mult_div_mod_eq [of 400 "full_year x"] pos_mod_bound [of 400 "full_year x"]
    unfolding Y_def by (simp add: distrib_left)
  have "tm_mon y = m \<and> tm_mday y = d" by (simp add: y_def z_def)
  have "days_in_month Y m = days_in_month 2000 m" unfolding Y_def by (rule days_in_month_400)
  then have yv: "tm_valid y"
    using v m d by (simp add: y_def z_def tm_valid_def civil_days_def)
  have "civil_days x < year_start (full_year x + 1)" using v by (rule civil_days_bounds)
  also have "\<dots> \<le> year_start (full_year y)"
    using year_start_less [OF \<open>full_year x < Y\<close>] by (simp add: y_def z_def)
  also have "\<dots> \<le> civil_days y" using yv by (rule civil_days_bounds)
  finally have "civil_days ((next_day ^^ nat (civil_days y - civil_days x)) x) = civil_days y"
    using civil_days_iter [OF v] by simp
  from civil_days_inj [OF iter_valid [OF v] yv this] that
  show thesis by (metis (no_types) \<open>tm_mon y = m \<and> tm_mday y = d\<close>)
qed

lemma iter_in_month:
  "tm_mday x + j \<le> days_in_month (full_year x) (tm_mon x) \<Longrightarrow>
    tm_mon ((next_day ^^ j) x) = tm_mon x \<and> tm_mday ((next_day ^^ j) x) = tm_mday x + j \<and>
    full_year ((next_day ^^ j) x) = full_year x"
  by (induction j) (auto simp: next_day_def Let_def)

text \<open>Every weekday of every month lies ahead of every date.\<close>

lemma future_weekday:
  assumes v: "tm_valid x" and m: "m < 12" and w: "w < 7"
  obtains k where "tm_mon ((next_day ^^ k) x) = m" "tm_wday ((next_day ^^ k) x) = w"
proof -
  have "1 \<le> days_in_month 2000 m" using days_in_month_bounds(1) [of 2000 m] by linarith
  from future_date [OF v m order_refl this]
  obtain k where k: "tm_mon ((next_day ^^ k) x) = m" "tm_mday ((next_day ^^ k) x) = 1" .
  define z where "z = (next_day ^^ k) x"
  define j where "j = nat ((int w - (civil_days z + 4)) mod 7)"
  have zv: "tm_valid z" unfolding z_def using v by (rule iter_valid)
  have j: "j < 7" by (simp add: j_def nat_less_iff)
  have "tm_mday z + j \<le> days_in_month (full_year z) (tm_mon z)"
    using j k(2) days_in_month_bounds(1) [of "full_year z" "tm_mon z"] by (simp add: z_def)
  from iter_in_month [OF this] have mon: "tm_mon ((next_day ^^ j) z) = m" using k(1) by (simp add: z_def)
  have "int (tm_wday ((next_day ^^ j) z)) = (civil_days z + int j + 4) mod 7"
    using iter_valid [OF zv, of j] civil_days_iter [OF zv] by (simp add: tm_valid_def)
  moreover have "(civil_days z + int j + 4) mod 7 = int w mod 7"
  proof -
    have "civil_days z + int j + 4 = civil_days z + 4 + (int w - (civil_days z + 4)) mod 7"
      by (simp add: j_def)
    then have "(civil_days z + int j + 4) mod 7 = (civil_days z + 4 + (int w - (civil_days z + 4))) mod 7"
      by (simp only: mod_add_right_eq)
    then show ?thesis by simp
  qed
  ultimately have "int (tm_wday ((next_day ^^ j) z)) = int w mod 7" by simp
  then have "tm_wday ((next_day ^^ j) z) = w" using w by simp
  moreover have "(next_day ^^ j) z = (next_day ^^ (j + k)) x" by (simp add: z_def funpow_add)
  ultimately show thesis using that mon by metis
qed

text \<open>
  A schedule admits some date: the days of week select one, or a selected day of month exists in
  a selected month of a leap year.
\<close>

definition satisfiable :: "cron_schedule \<Rightarrow> bool" where
  "satisfiable c \<longleftrightarrow> \<not> days_any_wildcard c \<or>
     (\<exists>m \<in> rbs_elems (months c). \<exists>d \<in> rbs_elems (days_of_month c). d \<le> days_in_month 2000 (m - 1))"

lemma satisfiable_reaches:
  assumes c: "cron_ok c" and s: "satisfiable c" and v: "tm_valid x"
  obtains k where "date_ok c ((next_day ^^ k) x)"
proof -
  have cb: "cron_bounds c" "cron_nonempty c" "cron_wildcard_ok c" using c by (simp_all add: cron_ok_def)
  have mon: "m \<in> rbs_elems (months c) \<Longrightarrow> 1 \<le> m \<and> m \<le> 12" for m
    using cb(1) rbs_elems_subset [of 1 12 "months c"] by (auto simp: cron_bounds_def)
  have dom: "d \<in> rbs_elems (days_of_month c) \<Longrightarrow> 1 \<le> d" for d
    using cb(1) rbs_elems_subset [of 1 31 "days_of_month c"] by (auto simp: cron_bounds_def)
  have dow: "w \<in> rbs_elems (days_of_week c) \<Longrightarrow> w < 7" for w
    using cb(1) rbs_elems_subset [of 0 6 "days_of_week c"] by (fastforce simp: cron_bounds_def)
  show thesis
  proof (cases "days_any_wildcard c \<and> rbs_elems (days_of_week c) = {0..6}")
    case True
    then obtain m d where md: "m \<in> rbs_elems (months c)" "d \<in> rbs_elems (days_of_month c)"
      "d \<le> days_in_month 2000 (m - 1)" using s by (auto simp: satisfiable_def)
    then obtain k where k: "tm_mon ((next_day ^^ k) x) = m - 1" "tm_mday ((next_day ^^ k) x) = d"
      using future_date [OF v, of "m - 1" d thesis] mon [OF md(1)] dom [OF md(2)] by force
    have "tm_wday ((next_day ^^ k) x) \<in> {0..6}" using tm_valid_ranges(2) [OF iter_valid [OF v]] by simp
    then have "date_ok c ((next_day ^^ k) x)" using True k md mon [OF md(1)] by (simp add: date_ok_def)
    then show thesis by (rule that)
  next
    case False
    obtain m w where mw: "m \<in> rbs_elems (months c)" "w \<in> rbs_elems (days_of_week c)"
      using cb(2) by (auto simp: cron_nonempty_def)
    then obtain k where k: "tm_mon ((next_day ^^ k) x) = m - 1" "tm_wday ((next_day ^^ k) x) = w"
      using future_weekday [OF v, of "m - 1" w thesis] mon [OF mw(1)] dow [OF mw(2)] by force
    have "days_any_wildcard c \<Longrightarrow> tm_mday ((next_day ^^ k) x) \<in> rbs_elems (days_of_month c)"
      using False cb(3) tm_valid_ranges [OF iter_valid [OF v]] by (auto simp: cron_wildcard_ok_def)
    then have "date_ok c ((next_day ^^ k) x)" using k mw mon [OF mw(1)] by (simp add: date_ok_def)
    then show thesis by (rule that)
  qed
qed

lemma date_ok_satisfiable:
  assumes "tm_valid x" and "date_ok c x"
  shows "satisfiable c"
proof -
  have "days_in_month y m \<le> days_in_month 2000 m" for y m
    using is_leap_400 [of 5] by (simp add: days_in_month_def)
  then have "tm_mday x \<le> days_in_month 2000 (tm_mon x + 1 - 1)"
    using assms(1) unfolding tm_valid_def by (metis add_diff_cancel_right' le_trans)
  with assms(2) show ?thesis unfolding satisfiable_def date_ok_def by (metis (mono_tags))
qed

context calendar
begin

lemma Next_returns:
  assumes c: "cron_ok c" and e: "e = effective_last last_run now" "0 \<le> e" and s: "satisfiable c"
  shows "\<exists>r. Next lib c last_run now = Some r"
proof -
  let ?n = "NextCandidate lib c (GmTime lib e)"
  have n: "tm_valid ?n" using NextCandidate_valid [OF c GmTime_valid [OF e(2)]] by simp
  obtain k where "date_ok c ((next_day ^^ k) ?n)" using satisfiable_reaches [OF c s n] .
  then have "CheckDate c ((IncrementDay lib ^^ k) ?n)"
    using IncrementDay_iter [OF n] c by (simp add: CheckDate_date_ok cron_ok_def)
  then obtain x where "SkipDates lib c ?n = Some x" using SkipDates_reaches by blast
  then show ?thesis using e(1) by (auto simp: Next_def Let_def effective_last_def)
qed

end

section \<open>Correctness of Next\<close>

text \<open>Three schedules as the parser delivers them, for the evaluation of the model.\<close>

definition bits :: "nat \<Rightarrow> nat \<Rightarrow> nat list \<Rightarrow> range_bitset" where
  "bits mn mx ps = \<lparr>rb_MIN = mn, rb_MAX = mx, rb_b = map (\<lambda>i. i \<in> set ps) [mn..<Suc mx]\<rparr>"

definition noon_schedule :: cron_schedule where
  "noon_schedule = \<lparr>minutes = bits 0 59 [0], hours = bits 0 23 [12], days_of_month = bits 1 31 [1],
     months = bits 1 12 [1..<13], days_of_week = bits 0 6 [5], delay_range = 60, days_any_wildcard = False\<rparr>"

definition hourly_second :: cron_schedule where
  "hourly_second = \<lparr>minutes = bits 0 59 [0], hours = bits 0 23 [0..<24], days_of_month = bits 1 31 [2],
     months = bits 1 12 [1..<13], days_of_week = bits 0 6 [0..<7], delay_range = 60, days_any_wildcard = True\<rparr>"

definition february_30 :: cron_schedule where
  "february_30 = \<lparr>minutes = bits 0 59 [0], hours = bits 0 23 [0], days_of_month = bits 1 31 [30],
     months = bits 1 12 [2], days_of_week = bits 0 6 [0..<7], delay_range = 60, days_any_wildcard = True\<rparr>"

lemma bits_wf: "mn \<le> mx \<Longrightarrow> rbs_wf mn mx (bits mn mx ps)"
  by (simp add: bits_def rbs_wf_def)

lemma bits_elems: "rbs_elems (bits mn mx ps) = {i \<in> set ps. mn \<le> i \<and> i \<le> mx}"
  by (auto simp: bits_def rbs_elems_def rbs_get_def nth_append nth_upt simp del: upt_Suc)

lemma replicate_numeral_eval: "replicate (numeral k) x = x # replicate (pred_numeral k) x"
  by (simp add: numeral_eq_Suc)

lemma parsed_schedules:
  "CronSchedule ascii_lib ''0 12 1 * 5'' = Inr noon_schedule"
  "CronSchedule ascii_lib ''0 * 2 * *'' = Inr hourly_second"
  "CronSchedule ascii_lib ''0 0 30 2 *'' = Inr february_30"
  by (simp_all add: cron_eval noon_schedule_def hourly_second_def february_30_def bits_def
      replicate_numeral_eval ex_bool_eq)

lemma bits_nonempty: "i \<in> set ps \<Longrightarrow> mn \<le> i \<Longrightarrow> i \<le> mx \<Longrightarrow> rbs_elems (bits mn mx ps) \<noteq> {}"
  by (auto simp: bits_elems)

lemma bits_all: "rbs_elems (bits mn mx [mn..<Suc mx]) = {mn..mx}"
  by (auto simp: bits_elems)

lemma schedules_ok: "cron_ok noon_schedule" "cron_ok hourly_second" "cron_ok february_30"
  using bits_all [of 0 6] bits_all [of 0 23] bits_nonempty [of 1 "[1..<13]" 1 12]
  by (simp_all add: cron_ok_def cron_bounds_def cron_nonempty_def cron_wildcard_ok_def bits_wf bits_nonempty
      noon_schedule_def hourly_second_def february_30_def)

lemma epoch_sel [simp]:
  "tm_sec epoch = 0" "tm_min epoch = 0" "tm_hour epoch = 0" "tm_mday epoch = 1" "tm_mon epoch = 0" "tm_wday epoch = 4"
  by (simp_all add: epoch_def)

lemma date_ok_hour [simp]: "date_ok c (x\<lparr>tm_hour := h\<rparr>) = date_ok c x"
  by (simp add: date_ok_def)

lemma gregorian_epoch: "GmTime gregorian 0 = epoch"
  by (simp add: gregorian_def Let_def set_time_def epoch_def)

lemma effective_zero [simp]: "effective_last 0 now = 0"
  by (simp add: effective_last_def time_point_min_def)

lemma noon_returns: "\<exists>r. Next gregorian noon_schedule 0 0 = Some r"
  using gregorian.Next_returns [OF schedules_ok(1) refl, of 0 0]
  by (simp add: satisfiable_def noon_schedule_def)

text \<open>Noon of 1970-01-01, a match for \<open>noon_schedule\<close>.\<close>

lemma noon_matches: "matches noon_schedule (epoch\<lparr>tm_hour := 12\<rparr>)" "TimeGm gregorian (epoch\<lparr>tm_hour := 12\<rparr>) = 43200 * ns"
proof -
  have "tm_valid (epoch\<lparr>tm_hour := 12\<rparr>)"
    using valid_time_upd [OF epoch_valid(1), of 0 12] by (simp add: epoch_def)
  then show "matches noon_schedule (epoch\<lparr>tm_hour := 12\<rparr>)"
    by (auto simp: matches_def date_ok_def noon_schedule_def bits_elems epoch_def)
  show "TimeGm gregorian (epoch\<lparr>tm_hour := 12\<rparr>) = 43200 * ns"
    using epoch_valid(2) by (simp add: gregorian_def day_seconds_def)
qed

lemma noon_CheckDate: "CheckDate noon_schedule (GmTime gregorian 0)"
proof -
  have "date_ok noon_schedule epoch" using noon_matches(1) by (simp add: matches_def)
  then show ?thesis
    using schedules_ok(1) epoch_valid(1) by (simp add: gregorian_epoch CheckDate_date_ok cron_ok_def)
qed

text \<open>
  C4: The time \<open>Next\<close> computes is a whole minute that the schedule admits in every field, and lies
  strictly after the last run (one minute before now when the job never ran).
\<close>

theorem Next_matches:
  assumes "calendar lib" and "cron_ok c" and "0 \<le> effective_last last_run now"
    and "Next lib c last_run now = Some r"
  shows "matches c (GmTime lib r) \<and> effective_last last_run now < r"
proof -
  from assms obtain x where x: "matches c x" "r = TimeGm lib x" "effective_last last_run now < r"
    by (auto elim: calendar.Next_position)
  then have "GmTime lib r = x"
    using assms(1,3) by (auto simp: matches_def intro: calendar.GmTime_TimeGm)
  with x show ?thesis by simp
qed

theorem Next_matches_witness:
  "CronSchedule ascii_lib ''0 12 1 * 5'' = Inr noon_schedule \<and>
   (\<exists>r. Next gregorian noon_schedule 0 0 = Some r \<and> matches noon_schedule (GmTime gregorian r) \<and> 0 < r)"
proof -
  obtain r where r: "Next gregorian noon_schedule 0 0 = Some r" using noon_returns ..
  then show ?thesis
    using Next_matches [OF gregorian.calendar_axioms schedules_ok(1) _ r] parsed_schedules(1) by simp
qed

text \<open>
  C5: When the date of the last run is itself admitted by the schedule, \<open>Next\<close> skips nothing: no
  admitted minute lies between the last run and the result.
\<close>

theorem Next_earliest:
  assumes "calendar lib" and "cron_ok c" and "0 \<le> effective_last last_run now"
    and "Next lib c last_run now = Some r" and "CheckDate c (GmTime lib (effective_last last_run now))"
    and "matches c y" and "effective_last last_run now < TimeGm lib y"
  shows "r \<le> TimeGm lib y"
proof -
  have "date_ok c (GmTime lib (effective_last last_run now))"
    using assms(2,5) calendar.GmTime_valid [OF assms(1,3)] by (simp add: CheckDate_date_ok cron_ok_def)
  then show ?thesis
    using calendar.Next_position [OF assms(1,2) refl assms(3,4)] assms(6,7) by metis
qed

theorem Next_earliest_witness:
  "\<exists>r. Next gregorian noon_schedule 0 0 = Some r \<and> r \<le> 43200 * ns"
proof -
  obtain r where r: "Next gregorian noon_schedule 0 0 = Some r" using noon_returns ..
  then show ?thesis
    using Next_earliest [OF gregorian.calendar_axioms schedules_ok(1) _ r _ noon_matches(1)]
      noon_CheckDate noon_matches(2) by simp
qed

text \<open>
  on every last run, the date of the result is the earliest one: an admitted minute after the
  last run never lies on an earlier date.
\<close>

theorem Next_earliest_date:
  assumes "calendar lib" and "cron_ok c" and "0 \<le> effective_last last_run now"
    and "Next lib c last_run now = Some r"
    and "matches c y" and "effective_last last_run now < TimeGm lib y"
  shows "civil_days (GmTime lib r) \<le> civil_days y"
proof -
  obtain x where x: "matches c x" "r = TimeGm lib x" "effective_last last_run now < r"
    "civil_days x \<le> civil_days y"
    using calendar.Next_position [OF assms(1,2) refl assms(3,4)] assms(5,6) by metis
  then have "GmTime lib r = x"
    using assms(1,3) by (auto simp: matches_def intro: calendar.GmTime_TimeGm)
  with x show ?thesis by simp
qed

theorem Next_earliest_date_witness:
  "\<exists>r. Next gregorian noon_schedule 0 0 = Some r \<and> civil_days (GmTime gregorian r) \<le> 0"
proof -
  obtain r where r: "Next gregorian noon_schedule 0 0 = Some r" using noon_returns ..
  then show ?thesis
    using Next_earliest_date [OF gregorian.calendar_axioms schedules_ok(1) _ r noon_matches(1)]
      noon_matches(2) epoch_valid(2) by simp
qed

text \<open>
  C6: \<open>Next\<close> returns exactly on the schedules that admit some date; on the others, such as the
  30th of February, its loop over the dates never ends.
\<close>

theorem Next_returns_iff:
  assumes "calendar lib" and "cron_ok c" and "0 \<le> effective_last last_run now"
  shows "(\<exists>r. Next lib c last_run now = Some r) \<longleftrightarrow> satisfiable c"
proof
  assume "\<exists>r. Next lib c last_run now = Some r"
  then obtain r where "Next lib c last_run now = Some r" ..
  from calendar.Next_position [OF assms(1,2) refl assms(3) this]
  show "satisfiable c" unfolding matches_def by (metis date_ok_satisfiable)
next
  assume "satisfiable c"
  then show "\<exists>r. Next lib c last_run now = Some r"
    using calendar.Next_returns [OF assms(1,2) refl assms(3)] by blast
qed

theorem Next_returns_iff_witness:
  "CronSchedule ascii_lib ''0 0 30 2 *'' = Inr february_30 \<and> Next gregorian february_30 0 0 = None"
proof -
  have "\<not> satisfiable february_30"
    by (auto simp: satisfiable_def february_30_def bits_elems days_in_month_def split: if_splits)
  then show ?thesis
    using Next_returns_iff [OF gregorian.calendar_axioms schedules_ok(3), of 0 0] parsed_schedules(3)
    by (cases "Next gregorian february_30 0 0") simp_all
qed

text \<open>
  A run on a date that is not admitted may be followed by a late one. For the schedule \<open>0 * 2 * *\<close> (every hour of the
  second day of the month) and a last run on the first of January 1970 at 10:30, the result is the
  second at 11:00, although the eleven admitted hours before it also lie after the last run: the
  hour and the minute are not reset when dates are skipped.
\<close>

theorem Next_skips_hours:
  "CronSchedule ascii_lib ''0 * 2 * *'' = Inr hourly_second \<and>
   Next gregorian hourly_second (37800 * ns) now = Some (126000 * ns) \<and>
   matches hourly_second (epoch\<lparr>tm_mday := 2, tm_wday := 5\<rparr>) \<and>
   37800 * ns < TimeGm gregorian (epoch\<lparr>tm_mday := 2, tm_wday := 5\<rparr>) \<and>
   TimeGm gregorian (epoch\<lparr>tm_mday := 2, tm_wday := 5\<rparr>) < 126000 * ns"
proof -
  let ?c = hourly_second and ?d = "epoch\<lparr>tm_mday := 2, tm_wday := 5\<rparr>"
  have nd: "next_day epoch = ?d" by (simp add: next_day_def epoch_def days_in_month_def)
  have dv: "tm_valid ?d" "civil_days ?d = 1"
    using next_day_valid [OF epoch_valid(1)] civil_days_next [OF epoch_valid(1)] nd epoch_valid(2) by simp_all
  have l: "GmTime gregorian (37800 * ns) = epoch\<lparr>tm_min := 30, tm_hour := 10\<rparr>"
    by (simp add: gregorian_def Let_def set_time_def epoch_def)
  have "NextBit (minutes ?c) 30 = 0" "NextBit (hours ?c) 10 = 11" "rbs_get (hours ?c) 10"
    by (simp_all add: NextBit_def hourly_second_def bits_def rbs_get_def upt_rec)
  then have n: "NextCandidate gregorian ?c (epoch\<lparr>tm_min := 30, tm_hour := 10\<rparr>) = epoch\<lparr>tm_hour := 11\<rparr>"
    by (simp add: NextCandidate_def Let_def epoch_def)
  have n2: "IncrementDay gregorian (epoch\<lparr>tm_hour := 11\<rparr>) = ?d\<lparr>tm_hour := 11\<rparr>"
    by (simp add: gregorian_def next_day_def epoch_def days_in_month_def)
  have "\<not> CheckDate ?c (epoch\<lparr>tm_hour := 11\<rparr>)" "CheckDate ?c (?d\<lparr>tm_hour := 11\<rparr>)"
    by (simp_all add: CheckDate_def hourly_second_def bits_def rbs_get_def upt_rec epoch_def)
  then have "SkipDates gregorian ?c (epoch\<lparr>tm_hour := 11\<rparr>) = Some (?d\<lparr>tm_hour := 11\<rparr>)"
    by (simp add: SkipDates.simps [of _ _ "epoch\<lparr>tm_hour := 11\<rparr>"] SkipDates.simps [of _ _ "?d\<lparr>tm_hour := 11\<rparr>"] n2)
  moreover have "TimeGm gregorian (?d\<lparr>tm_hour := 11\<rparr>) = 126000 * ns"
    using dv(2) by (simp add: gregorian_def day_seconds_def)
  ultimately have "Next gregorian ?c (37800 * ns) now = Some (126000 * ns)"
    using cron_ok_not_once [OF schedules_ok(2)] by (simp add: Next_def Let_def l [simplified] n time_point_min_def)
  moreover have "matches ?c ?d"
    using dv(1) by (auto simp: matches_def date_ok_def hourly_second_def bits_elems epoch_def)
  moreover have "TimeGm gregorian ?d = 86400 * ns"
    using dv(2) by (simp add: gregorian_def day_seconds_def)
  ultimately show ?thesis using parsed_schedules(2) by simp
qed

end
