(* ===== verification/Cron_Table.thy ===== *)
theory Cron_Table
  imports Claim_Table Cron_Next
begin

text \<open>
  The table \<open>cronjobs\<close> (\<open>sql/cronjobs.sql\<close>), the statements that \<open>CronQueue::Prepare()\<close> and
  \<open>InitCalculateNextRun()\<close> prepare, and \<open>CalculateNextRun()\<close> of
  \<open>src/cron/CalculateNextRun.cxx\<close>. Other nodes may change the table between two statements: the
  argument \<open>others\<close> is applied before each. The random number generator is the argument \<open>rnd\<close>.
\<close>

datatype pg_timestamp = At time_point | Infinity

record cron_row =
  cj_id :: string
  cj_account_id :: string
  cj_sticky_id :: "string option"
  cj_schedule :: string
  cj_tz :: "string option"
  cj_command :: string
  cj_translate_param :: "string option"
  cj_enabled :: bool
  cj_notification :: "string option"
  cj_delay :: "int option"
  cj_delay_range :: "int option"
  cj_last_run :: "time_point option"
  cj_next_run :: "pg_timestamp option"
  cj_node_name :: "string option"
  cj_node_timeout :: "time_point option"

type_synonym cronjobs = "cron_row list"

section \<open>The statements of the queue\<close>

definition cron_release_row :: "cron_row \<Rightarrow> cron_row" where
  "cron_release_row r = r\<lparr>cj_node_name := None, cj_node_timeout := None, cj_next_run := None\<rparr>"

definition sql_release_stale :: "string \<Rightarrow> cronjobs \<Rightarrow> nat \<times> cronjobs" where
  "sql_release_stale node = sql_update (\<lambda>r. cj_node_name r = Some node) cron_release_row"

definition cron_row_expired :: "time_point \<Rightarrow> cron_row \<Rightarrow> bool" where
  "cron_row_expired now r = (case cj_node_timeout r of None \<Rightarrow> False | Some e \<Rightarrow> e < now)"

definition sql_cron_expire_jobs :: "time_point \<Rightarrow> string \<Rightarrow> cronjobs \<Rightarrow> nat \<times> cronjobs" where
  "sql_cron_expire_jobs now node =
     sql_update (\<lambda>r. cj_node_name r \<noteq> None \<and> cj_node_name r \<noteq> Some node \<and> cron_row_expired now r) cron_release_row"

definition sql_cron_claim_job :: "time_point \<Rightarrow> string \<Rightarrow> string \<Rightarrow> int \<Rightarrow> cronjobs \<Rightarrow> nat \<times> cronjobs" where
  "sql_cron_claim_job now jid node timeout =
     sql_update (\<lambda>r. cj_id r = jid \<and> (cj_enabled r \<and> cj_node_name r = None))
       (\<lambda>r. r\<lparr>cj_node_name := Some node, cj_node_timeout := Some (now + timeout)\<rparr>)"

definition sql_finish_job :: "time_point \<Rightarrow> string \<Rightarrow> string \<Rightarrow> cronjobs \<Rightarrow> nat \<times> cronjobs" where
  "sql_finish_job now jid node =
     sql_update (\<lambda>r. cj_id r = jid \<and> cj_node_name r = Some node)
       (\<lambda>r. r\<lparr>cj_node_name := None, cj_node_timeout := None, cj_last_run := Some now, cj_next_run := None\<rparr>)"

definition cron_sticky_check :: "bool \<Rightarrow> string set \<Rightarrow> cron_row \<Rightarrow> bool" where
  "cron_sticky_check have_sticky_id sticky_non_local r =
     (have_sticky_id \<longrightarrow> (case cj_sticky_id r of None \<Rightarrow> True | Some s \<Rightarrow> s \<notin> sticky_non_local))"

definition sql_find_earliest_pending :: "bool \<Rightarrow> string set \<Rightarrow> time_point \<Rightarrow> cronjobs \<Rightarrow> int option" where
  "sql_find_earliest_pending st snl now t =
     (let ts = List.map_filter (\<lambda>r. case cj_next_run r of
            Some (At x) \<Rightarrow> if cj_enabled r \<and> cj_node_name r = None \<and> cron_sticky_check st snl r then Some x else None
          | _ \<Rightarrow> None) t
      in if ts = [] then None else Some (Min (set ts) - now))"

definition cron_pending :: "bool \<Rightarrow> string set \<Rightarrow> time_point \<Rightarrow> cron_row \<Rightarrow> bool" where
  "cron_pending st snl now r \<longleftrightarrow> cj_enabled r \<and> cj_node_name r = None \<and> cron_sticky_check st snl r \<and>
     (case cj_next_run r of Some (At x) \<Rightarrow> x \<le> now | _ \<Rightarrow> False)"

definition next_run_key :: "cron_row \<Rightarrow> time_point" where
  "next_run_key r = (case cj_next_run r of Some (At x) \<Rightarrow> x | _ \<Rightarrow> 0)"

definition sql_check_pending :: "bool \<Rightarrow> string set \<Rightarrow> time_point \<Rightarrow> cronjobs \<Rightarrow> cronjobs" where
  "sql_check_pending st snl now t = take 1 (sort_key next_run_key (filter (cron_pending st snl now) t))"

section \<open>Calculating the next run\<close>

definition cron_tz :: "cron_row \<Rightarrow> string" where
  "cron_tz r = (case cj_tz r of None \<Rightarrow> ''UTC'' | Some z \<Rightarrow> z)"

definition sql_make_random_delay :: "string \<Rightarrow> string \<Rightarrow> int \<Rightarrow> int \<Rightarrow> cronjobs \<Rightarrow> nat \<times> cronjobs" where
  "sql_make_random_delay jid sched delay rg =
     sql_update (\<lambda>r. cj_id r = jid \<and> (cj_schedule r = sched \<and> cj_enabled r \<and> cj_next_run r = None))
       (\<lambda>r. r\<lparr>cj_delay := Some delay, cj_delay_range := Some rg\<rparr>)"

text \<open>\<open>$3\<close> is \<open>NULL\<close> or a text; a comparison with \<open>NULL\<close> is not true.\<close>

definition same_last_run :: "pg_lib \<Rightarrow> string option \<Rightarrow> cron_row \<Rightarrow> bool" where
  "same_last_run pg l r = (case cj_last_run r of None \<Rightarrow> True
     | Some x \<Rightarrow> (case l of None \<Rightarrow> False | Some s \<Rightarrow> timestamp_in pg s = Some (to_local pg (cron_tz r) x)))"

definition next_run_value :: "pg_lib \<Rightarrow> string \<Rightarrow> string \<Rightarrow> pg_timestamp option" where
  "next_run_value pg tz s =
     (if s = ''infinity'' then Some Infinity else map_option (\<lambda>x. At (from_local pg tz x)) (timestamp_in pg s))"

definition sql_update_next_run :: "pg_lib \<Rightarrow> string \<Rightarrow> string \<Rightarrow> string option \<Rightarrow> string \<Rightarrow> cronjobs \<Rightarrow> nat \<times> cronjobs" where
  "sql_update_next_run pg jid sched l s =
     sql_update (\<lambda>r. cj_id r = jid \<and> (cj_schedule r = sched \<and> same_last_run pg l r \<and> cj_enabled r \<and> cj_next_run r = None))
       (\<lambda>r. r\<lparr>cj_next_run := next_run_value pg (cron_tz r) s\<rparr>)"

text \<open>A row of the result of \<open>select_jobs_for_scheduling\<close>, in the text form the client sees.\<close>

record schedule_row =
  sr_id :: string
  sr_schedule :: string
  sr_last_run :: "string option"
  sr_delay :: "string option"
  sr_delay_range :: "string option"
  sr_now :: string

definition schedule_row_of :: "pg_lib \<Rightarrow> time_point \<Rightarrow> cron_row \<Rightarrow> schedule_row" where
  "schedule_row_of pg now r = \<lparr>sr_id = cj_id r, sr_schedule = cj_schedule r,
     sr_last_run = map_option (\<lambda>x. timestamp_out pg (to_local pg (cron_tz r) x)) (cj_last_run r),
     sr_delay = map_option (\<lambda>d. interval_out pg (d * ns)) (cj_delay r),
     sr_delay_range = map_option (\<lambda>d. interval_out pg (d * ns)) (cj_delay_range r),
     sr_now = timestamp_out pg (to_local pg (cron_tz r) now)\<rparr>"

definition needs_scheduling :: "cron_row \<Rightarrow> bool" where
  "needs_scheduling r \<longleftrightarrow> cj_enabled r \<and> cj_next_run r = None"

definition sql_select_jobs_for_scheduling :: "pg_lib \<Rightarrow> time_point \<Rightarrow> cronjobs \<Rightarrow> schedule_row list" where
  "sql_select_jobs_for_scheduling pg now t = map (schedule_row_of pg now) (take 1000 (filter needs_scheduling t))"

definition IsSameInterval :: "pg_lib \<Rightarrow> string option \<Rightarrow> int \<Rightarrow> bool" where
  "IsSameInterval pg a b = (case a of None \<Rightarrow> False | Some s \<Rightarrow> ParseIntervalS pg s = Some b)"

definition RandomInt64 :: "(int \<Rightarrow> int) \<Rightarrow> int \<Rightarrow> int" where
  "RandomInt64 rnd rg = (if rg \<le> 1 then 0 else rnd rg)"

text \<open>
  The outcome of one row: scheduled, \<open>LostRace\<close>, or another exception that is logged.
\<close>

datatype schedule_outcome = Scheduled | LostRace | ScheduleFailed

definition MakeRandomDelay ::
  "(int \<Rightarrow> int) \<Rightarrow> string \<Rightarrow> string \<Rightarrow> int \<Rightarrow> cronjobs \<Rightarrow> (schedule_outcome + int) \<times> cronjobs" where
  "MakeRandomDelay rnd jid sched rg t =
     (let delay = RandomInt64 rnd rg;
          (n, t') = sql_make_random_delay jid sched delay rg t
      in (if n = 0 then Inl LostRace else Inr delay, t'))"

record cron_env =
  ce_pg :: pg_lib
  ce_str :: string_lib
  ce_time :: time_lib
  ce_rnd :: "int \<Rightarrow> int"
  ce_others :: "cronjobs \<Rightarrow> cronjobs"

definition row_delay :: "pg_lib \<Rightarrow> schedule_row \<Rightarrow> int option" where
  "row_delay pg row = (case sr_delay row of None \<Rightarrow> Some 0 | Some s \<Rightarrow> ParseIntervalS pg s)"

definition row_last_run :: "pg_lib \<Rightarrow> schedule_row \<Rightarrow> int \<Rightarrow> time_point option" where
  "row_last_run pg row delay = (case sr_last_run row of None \<Rightarrow> Some time_point_min
     | Some s \<Rightarrow> map_option (\<lambda>t. t - delay * ns) (ParseTimestamp pg s))"

text \<open>The part of the loop body after the delay is known; \<open>None\<close> when \<open>Next\<close> does not return.\<close>

definition ScheduleNext ::
  "cron_env \<Rightarrow> schedule_row \<Rightarrow> cron_schedule \<Rightarrow> time_point \<Rightarrow> time_point \<Rightarrow> int \<Rightarrow> cronjobs \<Rightarrow> (schedule_outcome \<times> cronjobs) option" where
  "ScheduleNext e row c last_run now delay t =
     (case Next (ce_time e) c last_run now of
        None \<Rightarrow> None
      | Some n \<Rightarrow>
          (let next_run = n + delay * ns;
               s = (if next_run = time_point_max then ''infinity'' else FormatTimestamp (ce_pg e) next_run);
               (k, t') = sql_update_next_run (ce_pg e) (sr_id row) (sr_schedule row) (sr_last_run row) s (ce_others e t)
           in Some (if k = 0 then LostRace else Scheduled, t')))"

definition ScheduleRow :: "cron_env \<Rightarrow> schedule_row \<Rightarrow> cronjobs \<Rightarrow> (schedule_outcome \<times> cronjobs) option" where
  "ScheduleRow e row t =
     (case row_delay (ce_pg e) row of
        None \<Rightarrow> Some (ScheduleFailed, t)
      | Some delay \<Rightarrow>
          (case (row_last_run (ce_pg e) row delay, ParseTimestamp (ce_pg e) (sr_now row)) of
             (Some last_run, Some now) \<Rightarrow>
               (case CronSchedule (ce_str e) (sr_schedule row) of
                  Inl _ \<Rightarrow> Some (ScheduleFailed, t)
                | Inr c \<Rightarrow>
                    if sr_delay row = None \<or> \<not> IsSameInterval (ce_pg e) (sr_delay_range row) (delay_range c)
                    then (case MakeRandomDelay (ce_rnd e) (sr_id row) (sr_schedule row) (delay_range c) (ce_others e t) of
                            (Inl x, t') \<Rightarrow> Some (x, t')
                          | (Inr d, t') \<Rightarrow> ScheduleNext e row c last_run now d t')
                    else ScheduleNext e row c last_run now delay t)
           | _ \<Rightarrow> Some (ScheduleFailed, t)))"

fun ScheduleRows :: "cron_env \<Rightarrow> schedule_row list \<Rightarrow> cronjobs \<Rightarrow> cronjobs option" where
  "ScheduleRows e [] t = Some t"
| "ScheduleRows e (row # rows) t =
     (case ScheduleRow e row t of None \<Rightarrow> None | Some (_, t') \<Rightarrow> ScheduleRows e rows t')"

text \<open>The result is whether there was nothing to do; \<open>None\<close> when the call does not return.\<close>

definition CalculateNextRun :: "cron_env \<Rightarrow> time_point \<Rightarrow> cronjobs \<Rightarrow> (bool \<times> cronjobs) option" where
  "CalculateNextRun e now t =
     (let rows = sql_select_jobs_for_scheduling (ce_pg e) now t
      in if rows = [] then Some (True, t)
         else map_option (\<lambda>t'. (False, t')) (ScheduleRows e rows t))"

section \<open>The table as a claim table\<close>

datatype cron_touch = TouchDelay string int int | TouchNextRun pg_lib string "string option" string

definition cron_holder :: "cronjobs \<Rightarrow> string \<Rightarrow> string option" where
  "cron_holder t j = (case row_of cj_id j t of None \<Rightarrow> None | Some r \<Rightarrow> cj_node_name r)"

definition cron_overdue :: "time_point \<Rightarrow> cronjobs \<Rightarrow> string \<Rightarrow> bool" where
  "cron_overdue now t j = (case row_of cj_id j t of None \<Rightarrow> False | Some r \<Rightarrow> cron_row_expired now r)"

definition cron_touch_op :: "cron_touch \<Rightarrow> string \<Rightarrow> cronjobs \<Rightarrow> nat \<times> cronjobs" where
  "cron_touch_op u j t = (case u of TouchDelay sched d rg \<Rightarrow> sql_make_random_delay j sched d rg t
     | TouchNextRun pg sched l s \<Rightarrow> sql_update_next_run pg j sched l s t)"

text \<open>The claim timeout of \<open>CronQueue::Claim()\<close> is five minutes.\<close>

definition cronjobs_ops :: "(cronjobs, unit, cron_touch) claim_ops" where
  "cronjobs_ops = \<lparr>holder = cron_holder, table_ok = keys_unique cj_id, expired = cron_overdue,
     claim = (\<lambda>n j now t. (0 < fst (sql_cron_claim_job now j n (300 * ns) t), snd (sql_cron_claim_job now j n (300 * ns) t))),
     settle = (\<lambda>s n j now t. snd (sql_finish_job now j n t)),
     touch = (\<lambda>u j now t. snd (cron_touch_op u j t)),
     release = (\<lambda>n now t. snd (sql_release_stale n t)),
     expire = (\<lambda>n now t. snd (sql_cron_expire_jobs now n t))\<rparr>"

lemma cron_release_row_simps [simp]:
  "cj_id (cron_release_row r) = cj_id r" "cj_node_name (cron_release_row r) = None"
  "cj_delay (cron_release_row r) = cj_delay r" "cj_delay_range (cron_release_row r) = cj_delay_range r"
  by (simp_all add: cron_release_row_def)

lemmas cron_statement_defs =
  sql_release_stale_def sql_cron_expire_jobs_def sql_cron_claim_job_def sql_finish_job_def
  sql_make_random_delay_def sql_update_next_run_def cron_touch_op_def

lemma keys_unique_cron_update [simp]:
  "keys_unique cj_id t \<Longrightarrow> (\<And>r. cj_id (f r) = cj_id r) \<Longrightarrow> keys_unique cj_id (snd (sql_update P f t))"
  by (simp add: keys_unique_update)

lemma sql_cron_claim_job_holder:
  assumes "keys_unique cj_id t" and "0 < fst (sql_cron_claim_job now j n d t)"
  shows "cron_holder t j = None" "cron_holder (snd (sql_cron_claim_job now j n d t)) = (cron_holder t)(j := Some n)"
proof -
  obtain r where r: "row_of cj_id j t = Some r" "cj_enabled r" "cj_node_name r = None"
    using assms(2) unfolding sql_cron_claim_job_def affected_key_pos [OF assms(1)] by blast
  then show "cron_holder t j = None" by (simp add: cron_holder_def)
  show "cron_holder (snd (sql_cron_claim_job now j n d t)) = (cron_holder t)(j := Some n)"
  proof
    fix k
    show "cron_holder (snd (sql_cron_claim_job now j n d t)) k = ((cron_holder t)(j := Some n)) k"
      using r by (auto simp: cron_holder_def sql_cron_claim_job_def row_of_update split: option.splits dest: row_of_SomeD)
  qed
qed

interpretation cronjobs: claim_table cronjobs_ops
proof unfold_locales
  fix t :: cronjobs and n m j k now t' and s :: unit and u
  assume "table_ok cronjobs_ops t"
  then have ok: "keys_unique cj_id t" by (simp add: cronjobs_ops_def)
  show "holder cronjobs_ops t j = None \<and> holder cronjobs_ops t' = (holder cronjobs_ops t)(j := Some n)"
    if "claim cronjobs_ops n j now t = (True, t')"
    using that sql_cron_claim_job_holder [OF ok] by (auto simp: cronjobs_ops_def)
  show "t' = t" if "claim cronjobs_ops n j now t = (False, t')"
    using that sql_update_affected_0 by (auto simp: cronjobs_ops_def sql_cron_claim_job_def)
  show "k \<noteq> j \<Longrightarrow> holder cronjobs_ops (settle cronjobs_ops s n j now t) k = holder cronjobs_ops t k"
    by (auto simp: cronjobs_ops_def cron_holder_def sql_finish_job_def row_of_update split: option.splits dest: row_of_SomeD)
  show "holder cronjobs_ops (touch cronjobs_ops u j now t) = holder cronjobs_ops t"
    by (rule ext, cases u) (auto simp: cronjobs_ops_def cron_holder_def cron_statement_defs row_of_update split: option.splits)
  show "holder cronjobs_ops (release cronjobs_ops n now t) j = Some m" if "holder cronjobs_ops t j = Some m" "m \<noteq> n"
    using that by (auto simp: cronjobs_ops_def cron_holder_def cron_statement_defs row_of_update split: option.splits)
  show "holder cronjobs_ops (expire cronjobs_ops n now t) j = Some m"
    if "holder cronjobs_ops t j = Some m" "\<not> expired cronjobs_ops now t j"
    using that by (auto simp: cronjobs_ops_def cron_holder_def cron_overdue_def cron_statement_defs row_of_update split: option.splits)
  show "table_ok cronjobs_ops (snd (claim cronjobs_ops n j now t))"
    "table_ok cronjobs_ops (settle cronjobs_ops s n j now t)"
    "table_ok cronjobs_ops (release cronjobs_ops n now t)"
    "table_ok cronjobs_ops (expire cronjobs_ops n now t)"
    using ok by (simp_all add: cronjobs_ops_def cron_statement_defs)
  show "table_ok cronjobs_ops (touch cronjobs_ops u j now t)"
    using ok by (cases u) (simp_all add: cronjobs_ops_def cron_statement_defs)
qed

text \<open>
  mutual exclusion for cron jobs: under the same conditions as for the job queue, no two
  nodes run the same cron job, whatever statements they interleave.
\<close>

theorem cronjobs_exclusive:
  assumes "keys_unique cj_id t" and "(cluster_step cronjobs_ops)\<^sup>*\<^sup>* (t, \<lambda>_. {}) (t', R)"
  shows "exclusive R"
  using cronjobs.cluster_exclusive [OF assms(2)] assms(1) by (simp add: cronjobs_ops_def)

definition sample_cron :: "string \<Rightarrow> string \<Rightarrow> cron_row" where
  "sample_cron j sched = \<lparr>cj_id = j, cj_account_id = ''acc'', cj_sticky_id = None, cj_schedule = sched, cj_tz = None,
     cj_command = ''true'', cj_translate_param = None, cj_enabled = True, cj_notification = None, cj_delay = None,
     cj_delay_range = None, cj_last_run = None, cj_next_run = None, cj_node_name = None, cj_node_timeout = None\<rparr>"

theorem cronjobs_exclusive_witness:
  "exclusive ((\<lambda>_. {})(''a'' := {''1''}))"
proof -
  let ?t = "[sample_cron ''1'' ''@once'']"
  have "claim cronjobs_ops ''a'' ''1'' 0 ?t = (True, snd (sql_cron_claim_job 0 ''1'' ''a'' (300 * ns) ?t))"
    by (simp add: cronjobs_ops_def sql_cron_claim_job_def sql_update_def sample_cron_def)
  from cluster_step.Claim [OF this, of "\<lambda>_. {}"]
  have "(cluster_step cronjobs_ops)\<^sup>*\<^sup>* (?t, \<lambda>_. {})
      (snd (sql_cron_claim_job 0 ''1'' ''a'' (300 * ns) ?t), (\<lambda>_. {})(''a'' := {''1''}))" by simp
  then show ?thesis using cronjobs_exclusive [of ?t] by (simp add: keys_unique_def)
qed

section \<open>Correctness of the calculation\<close>

text \<open>The stored delay belongs to the stored range.\<close>

definition delay_ok :: "cron_row \<Rightarrow> bool" where
  "delay_ok r = (case cj_delay r of None \<Rightarrow> True
     | Some d \<Rightarrow> (case cj_delay_range r of None \<Rightarrow> False | Some rg \<Rightarrow> 0 \<le> d \<and> d < max 1 rg \<and> 0 \<le> rg))"

definition rnd_ok :: "(int \<Rightarrow> int) \<Rightarrow> bool" where
  "rnd_ok rnd \<longleftrightarrow> (\<forall>n > 1. 0 \<le> rnd n \<and> rnd n < n)"

lemma RandomInt64_bounds: "rnd_ok rnd \<Longrightarrow> 0 \<le> RandomInt64 rnd n \<and> RandomInt64 rnd n < max 1 n"
  by (auto simp: RandomInt64_def rnd_ok_def)

lemma parse_fields_delay: "parse_fields lib c s = Inr c' \<Longrightarrow> delay_range c' = delay_range c"
  by (auto simp: parse_fields_def then_do_eq_Inr split: if_splits)

lemma hourly_delay: "hourly_schedule cron_schedule_init m = Inr c \<Longrightarrow> 0 \<le> delay_range c"
  using hourly_init [of m] by (cases "1 \<le> m \<and> m \<le> 24") (auto simp: hourly_schedule_def)

lemma TranslateSpecial_delay: "TranslateSpecial s = Some (r, d) \<Longrightarrow> 0 \<le> d"
  unfolding TranslateSpecial_def cron_special_schedules_def by (auto split: if_splits)

lemma delay_range_nonneg:
  assumes "CronSchedule lib s = Inr c"
  shows "0 \<le> delay_range c"
  using assms
  by (auto simp: CronSchedule_def Let_def cron_schedule_init_def [THEN arg_cong, of delay_range] split: prod.splits if_splits option.splits
      dest!: parse_fields_delay hourly_delay TranslateSpecial_delay)

definition cron_last :: "pg_lib \<Rightarrow> cron_row \<Rightarrow> time_point" where
  "cron_last pg r = (case cj_last_run r of None \<Rightarrow> time_point_min
     | Some x \<Rightarrow> to_local pg (cron_tz r) x - (case cj_delay r of None \<Rightarrow> 0 | Some d \<Rightarrow> d) * ns)"

text \<open>The stored times have the resolution of the server, one microsecond.\<close>

definition cron_micro :: "pg_lib \<Rightarrow> time_point \<Rightarrow> cron_row \<Rightarrow> bool" where
  "cron_micro pg now r \<longleftrightarrow> to_local pg (cron_tz r) now mod 1000 = 0 \<and>
     (case cj_last_run r of None \<Rightarrow> True | Some x \<Rightarrow> to_local pg (cron_tz r) x mod 1000 = 0)"

definition next_run_column :: "pg_lib \<Rightarrow> string \<Rightarrow> time_point \<Rightarrow> pg_timestamp" where
  "next_run_column pg tz v = (if v = time_point_max then Infinity else At (from_local pg tz v))"

lemma micro_seconds: "n mod 1000 = 0 \<Longrightarrow> (n + d * ns) mod 1000 = 0" for n :: int
proof -
  have "n + d * ns = n + 1000 * (1000000 * d)" by simp
  then have "(n + d * ns) mod 1000 = n mod 1000" by (simp only: mod_mult_self2)
  then show "n mod 1000 = 0 \<Longrightarrow> ?thesis" by simp
qed

lemma next_run_value_text:
  assumes "pg_text pg" and "v = time_point_max \<or> v mod 1000 = 0"
  shows "next_run_value pg tz (if v = time_point_max then ''infinity'' else FormatTimestamp pg v)
    = Some (next_run_column pg tz v)"
  using assms pg_text.FormatTimestamp_finite [OF assms(1), of v] pg_text.timestamp_in_Format [OF assms(1), of v]
  by (auto simp: next_run_value_def next_run_column_def)

text \<open>Updates of one row, seen through the row accessor.\<close>

lemma update_one_row:
  assumes "keys_unique cj_id t" and "row_of cj_id j t = Some r" and "Q r" and "\<And>r. cj_id (f r) = cj_id r"
  shows "fst (sql_update (\<lambda>r. cj_id r = j \<and> Q r) f t) \<noteq> 0"
    and "row_of cj_id k (snd (sql_update (\<lambda>r. cj_id r = j \<and> Q r) f t)) = (if k = j then Some (f r) else row_of cj_id k t)"
    and "keys_unique cj_id (snd (sql_update (\<lambda>r. cj_id r = j \<and> Q r) f t))"
proof -
  show "fst (sql_update (\<lambda>r. cj_id r = j \<and> Q r) f t) \<noteq> 0"
    unfolding affected_key [OF assms(1)] using assms(2,3) by simp
  show "row_of cj_id k (snd (sql_update (\<lambda>r. cj_id r = j \<and> Q r) f t)) = (if k = j then Some (f r) else row_of cj_id k t)"
    unfolding row_of_update [of cj_id f, OF assms(4)]
    using assms(2,3) by (cases "row_of cj_id k t") (auto dest: row_of_SomeD)
  show "keys_unique cj_id (snd (sql_update (\<lambda>r. cj_id r = j \<and> Q r) f t))"
    using assms(1,4) by (simp add: keys_unique_update)
qed

lemma ScheduleNext_correct:
  assumes pg: "pg_text (ce_pg e)" and others: "ce_others e = (\<lambda>t. t)" and t: "keys_unique cj_id t" "row_of cj_id j t = Some r"
    and row: "sr_id row = j" "sr_schedule row = cj_schedule r" "same_last_run (ce_pg e) (sr_last_run row) r" "needs_scheduling r"
    and n: "Next (ce_time e) c l now = Some n" "n + d * ns = time_point_max \<or> (n + d * ns) mod 1000 = 0"
  shows "\<exists>t'. ScheduleNext e row c l now d t = Some (Scheduled, t') \<and>
    (\<forall>k. row_of cj_id k t' = (if k = j then Some (r\<lparr>cj_next_run := Some (next_run_column (ce_pg e) (cron_tz r) (n + d * ns))\<rparr>)
       else row_of cj_id k t))"
proof -
  define s where "s = (if n + d * ns = time_point_max then ''infinity'' else FormatTimestamp (ce_pg e) (n + d * ns))"
  let ?Q = "\<lambda>r'. cj_schedule r' = cj_schedule r \<and> same_last_run (ce_pg e) (sr_last_run row) r' \<and> cj_enabled r' \<and> cj_next_run r' = None"
  let ?f = "\<lambda>r. r\<lparr>cj_next_run := next_run_value (ce_pg e) (cron_tz r) s\<rparr>"
  have Q: "?Q r" using row(3,4) by (simp add: needs_scheduling_def)
  have f: "\<And>r. cj_id (?f r) = cj_id r" by simp
  note u = update_one_row [of t j r ?Q ?f, OF t Q f]
  have f_r: "?f r = r\<lparr>cj_next_run := Some (next_run_column (ce_pg e) (cron_tz r) (n + d * ns))\<rparr>"
    using next_run_value_text [OF pg n(2)] by (simp add: s_def)
  have "ScheduleNext e row c l now d t = Some (Scheduled, snd (sql_update (\<lambda>r. cj_id r = j \<and> ?Q r) ?f t))"
    using u(1) n(1) row(1,2) by (simp add: ScheduleNext_def others sql_update_next_run_def case_prod_beta s_def [symmetric])
  then show ?thesis using u(2) unfolding f_r by blast
qed

lemma row_texts:
  assumes pg: "pg_text pg" and d: "delay_ok r" and m: "cron_micro pg now r"
  shows "row_delay pg (schedule_row_of pg now r) = Some (case cj_delay r of None \<Rightarrow> 0 | Some d \<Rightarrow> d)"
    and "row_last_run pg (schedule_row_of pg now r) (case cj_delay r of None \<Rightarrow> 0 | Some d \<Rightarrow> d) = Some (cron_last pg r)"
    and "ParseTimestamp pg (sr_now (schedule_row_of pg now r)) = Some (to_local pg (cron_tz r) now)"
    and "cj_delay r \<noteq> None \<Longrightarrow> 0 \<le> g \<Longrightarrow> IsSameInterval pg (sr_delay_range (schedule_row_of pg now r)) g \<longleftrightarrow> cj_delay_range r = Some g"
    and "same_last_run pg (sr_last_run (schedule_row_of pg now r)) r"
  using assms
  by (auto simp: same_last_run_def pg_text.timestamp_in_out row_delay_def row_last_run_def schedule_row_of_def delay_ok_def cron_micro_def cron_last_def IsSameInterval_def
      pg_text.ParseIntervalS_out pg_text.ParseTimestamp_out split: option.splits)

lemma cron_tz_upd [simp]:
  "cron_tz (r\<lparr>cj_delay := a\<rparr>) = cron_tz r" "cron_tz (r\<lparr>cj_delay_range := b\<rparr>) = cron_tz r"
  "cron_tz (r\<lparr>cj_delay := a, cj_delay_range := b\<rparr>) = cron_tz r"
  by (simp_all add: cron_tz_def)

lemma ScheduleRow_body:
  assumes pg: "pg_text (ce_pg e)" and rnd: "rnd_ok (ce_rnd e)" and others: "ce_others e = (\<lambda>t. t)"
    and t: "keys_unique cj_id t" "row_of cj_id j t = Some r" and r: "needs_scheduling r" "delay_ok r" "cron_micro (ce_pg e) now r"
    and c: "CronSchedule (ce_str e) (cj_schedule r) = Inr c"
    and n: "Next (ce_time e) c (cron_last (ce_pg e) r) (to_local (ce_pg e) (cron_tz r) now) = Some n"
      "n mod 1000 = 0 \<or> n = time_point_max \<and> delay_range c \<le> 1"
  shows "\<exists>d t'. ScheduleRow e (schedule_row_of (ce_pg e) now r) t = Some (Scheduled, t') \<and> 0 \<le> d \<and> d < max 1 (delay_range c) \<and>
    (\<forall>k. row_of cj_id k t' = (if k = j then Some (r\<lparr>cj_delay := Some d, cj_delay_range := Some (delay_range c),
         cj_next_run := Some (next_run_column (ce_pg e) (cron_tz r) (n + d * ns))\<rparr>) else row_of cj_id k t))"
proof -
  let ?pg = "ce_pg e" and ?row = "schedule_row_of (ce_pg e) now r"
  have g: "0 \<le> delay_range c" using c by (rule delay_range_nonneg)
  have v: "n + d * ns = time_point_max \<or> (n + d * ns) mod 1000 = 0" if "0 \<le> d" "d < max 1 (delay_range c)" for d
    using n(2) micro_seconds [of n d] that by auto
  have row: "sr_id ?row = j" "sr_schedule ?row = cj_schedule r" "sr_delay ?row = None \<longleftrightarrow> cj_delay r = None"
    using row_of_SomeD [OF t(2)] by (simp_all add: schedule_row_of_def)
  note x = row_texts [OF pg r(2,3)]
  show ?thesis
  proof (cases "cj_delay r = None \<or> cj_delay_range r \<noteq> Some (delay_range c)")
    case True
    define d where "d = RandomInt64 (ce_rnd e) (delay_range c)"
    let ?Q = "\<lambda>r'. cj_schedule r' = cj_schedule r \<and> cj_enabled r' \<and> cj_next_run r' = None"
    let ?f = "\<lambda>r. r\<lparr>cj_delay := Some d, cj_delay_range := Some (delay_range c)\<rparr>"
    define t1 where "t1 = snd (sql_make_random_delay j (cj_schedule r) d (delay_range c) t)"
    have d: "0 \<le> d" "d < max 1 (delay_range c)" using RandomInt64_bounds [OF rnd] by (simp_all add: d_def)
    have Q: "?Q r" using r(1) by (simp add: needs_scheduling_def)
    note u = update_one_row [of t j r ?Q ?f, OF t Q, folded sql_make_random_delay_def [symmetric], simplified]
    have mk: "MakeRandomDelay (ce_rnd e) j (cj_schedule r) (delay_range c) t = (Inr d, t1)"
      using u(1) by (simp add: MakeRandomDelay_def d_def [symmetric] t1_def sql_make_random_delay_def case_prod_beta)
    have t1: "keys_unique cj_id t1" "row_of cj_id j t1 = Some (?f r)"
      "row_of cj_id k t1 = (if k = j then Some (?f r) else row_of cj_id k t)" for k
      using u(2,3) by (simp_all add: t1_def sql_make_random_delay_def)
    have "ScheduleRow e ?row t = ScheduleNext e ?row c (cron_last ?pg r) (to_local ?pg (cron_tz r) now) d t1"
      using True x(1-3) x(4) [of "delay_range c"] g row c mk by (auto simp: ScheduleRow_def others)
    moreover have f: "sr_schedule ?row = cj_schedule (?f r)" "same_last_run ?pg (sr_last_run ?row) (?f r)" "needs_scheduling (?f r)"
      using row(2) r(1) x(5) by (simp_all add: needs_scheduling_def same_last_run_def split: option.splits)
    moreover have tz: "cron_tz (?f r) = cron_tz r" by simp
    moreover obtain t' where "ScheduleNext e ?row c (cron_last ?pg r) (to_local ?pg (cron_tz r) now) d t1 = Some (Scheduled, t')"
      and rows: "\<forall>k. row_of cj_id k t' = (if k = j then Some ((?f r)\<lparr>cj_next_run := Some (next_run_column ?pg (cron_tz r) (n + d * ns))\<rparr>)
         else row_of cj_id k t1)"
      using ScheduleNext_correct [OF pg others t1(1,2) row(1) f n(1) v [OF d]] unfolding tz by blast
    ultimately show ?thesis
      using d t1(3) by (intro exI [of _ d] exI [of _ t']) simp
  next
    case False
    then obtain d where d: "cj_delay r = Some d" "cj_delay_range r = Some (delay_range c)" by auto
    then have db: "0 \<le> d" "d < max 1 (delay_range c)" using r(2) by (auto simp: delay_ok_def)
    have "ScheduleRow e ?row t = ScheduleNext e ?row c (cron_last ?pg r) (to_local ?pg (cron_tz r) now) d t"
      using False x(1-3) x(4) [of "delay_range c"] g row c d by (auto simp: ScheduleRow_def)
    moreover have "r\<lparr>cj_delay := Some d, cj_delay_range := Some (delay_range c)\<rparr> = r" using d by simp
    ultimately show ?thesis
      using ScheduleNext_correct [OF pg others t, of ?row c _ _ n d, OF row(1,2) x(5) r(1) n(1) v [OF db]] db d
      by (intro exI [of _ d]) auto
  qed
qed

lemma Next_micro:
  assumes "calendar lib" and "cron_ok c" and "0 \<le> effective_last l now" and "Next lib c l now = Some n"
  shows "n mod 1000 = 0"
proof -
  obtain x where x: "matches c x" "n = TimeGm lib x"
    using calendar.Next_position [OF assms(1,2) refl assms(3,4)] by metis
  then have "n = 0 + (86400 * civil_days x + day_seconds x) * ns"
    using calendar.TimeGm_seconds [OF assms(1)] by (simp add: matches_def)
  then show ?thesis using micro_seconds [of 0] by simp
qed

text \<open>
  C13: scheduling a row. When no other node interferes, a row whose schedule parses and whose
  next run can be calculated gets a random delay within the schedule's range (or keeps the one it
  has) and its next run: the schedule's next time after the last run (less the old delay), in the
  row's time zone, plus the delay. No other row and no other column changes.
\<close>

theorem ScheduleRow_correct:
  assumes "pg_text (ce_pg e)" and "calendar (ce_time e)" and "rnd_ok (ce_rnd e)" and "ce_others e = (\<lambda>t. t)"
    and "keys_unique cj_id t" and "row_of cj_id j t = Some r"
    and "needs_scheduling r" and "delay_ok r" and "cron_micro (ce_pg e) now r"
    and "CronSchedule (ce_str e) (cj_schedule r) = Inr c" and "cron_ok c"
    and "0 \<le> effective_last (cron_last (ce_pg e) r) (to_local (ce_pg e) (cron_tz r) now)"
    and "Next (ce_time e) c (cron_last (ce_pg e) r) (to_local (ce_pg e) (cron_tz r) now) = Some n"
  shows "\<exists>d t'. ScheduleRow e (schedule_row_of (ce_pg e) now r) t = Some (Scheduled, t') \<and> 0 \<le> d \<and> d < max 1 (delay_range c) \<and>
    (\<forall>k. row_of cj_id k t' = (if k = j then Some (r\<lparr>cj_delay := Some d, cj_delay_range := Some (delay_range c),
         cj_next_run := Some (next_run_column (ce_pg e) (cron_tz r) (n + d * ns))\<rparr>) else row_of cj_id k t))"
  using ScheduleRow_body [OF assms(1,3-10,13)] Next_micro [OF assms(2,11-13)] by simp

definition sample_env :: cron_env where
  "sample_env = \<lparr>ce_pg = plain_pg, ce_str = ascii_lib, ce_time = gregorian, ce_rnd = (\<lambda>n. n - 1), ce_others = (\<lambda>t. t)\<rparr>"

lemma sample_env_ok: "pg_text (ce_pg sample_env)" "calendar (ce_time sample_env)" "rnd_ok (ce_rnd sample_env)"
  "ce_others sample_env = (\<lambda>t. t)"
  by (simp_all add: sample_env_def plain_pg.pg_text_axioms gregorian.calendar_axioms rnd_ok_def)

lemma sample_cron_ok:
  "keys_unique cj_id [sample_cron j s]" "row_of cj_id j [sample_cron j s] = Some (sample_cron j s)"
  "needs_scheduling (sample_cron j s)" "delay_ok (sample_cron j s)" "now mod 1000 = 0 \<Longrightarrow> cron_micro plain_pg now (sample_cron j s)"
  "cron_last plain_pg (sample_cron j s) = time_point_min" "cj_schedule (sample_cron j s) = s" "cron_tz (sample_cron j s) = ''UTC''"
  by (simp_all add: sample_cron_def keys_unique_def needs_scheduling_def delay_ok_def cron_micro_def cron_last_def cron_tz_def
      plain_pg_def)

theorem ScheduleRow_correct_witness:
  "\<exists>t'. ScheduleRow sample_env (schedule_row_of plain_pg (60 * ns) (sample_cron ''1'' ''0 12 1 * 5'')) [sample_cron ''1'' ''0 12 1 * 5'']
     = Some (Scheduled, t')"
proof -
  let ?r = "sample_cron ''1'' ''0 12 1 * 5''"
  have e: "effective_last time_point_min (60 * ns) = 0" by (simp add: effective_last_def)
  obtain n where n: "Next gregorian noon_schedule time_point_min (60 * ns) = Some n"
    using gregorian.Next_returns [OF schedules_ok(1) e [symmetric]]
    by (auto simp: satisfiable_def noon_schedule_def)
  have pg: "ce_pg sample_env = plain_pg" "ce_str sample_env = ascii_lib" "ce_time sample_env = gregorian"
    by (simp_all add: sample_env_def)
  have loc: "to_local plain_pg z x = x" for z x by (simp add: plain_pg_def)
  have "\<exists>d t'. ScheduleRow sample_env (schedule_row_of (ce_pg sample_env) (60 * ns) ?r) [?r] = Some (Scheduled, t') \<and>
      0 \<le> d \<and> d < max 1 (delay_range noon_schedule) \<and>
      (\<forall>k. row_of cj_id k t' = (if k = ''1'' then Some (?r\<lparr>cj_delay := Some d, cj_delay_range := Some (delay_range noon_schedule),
         cj_next_run := Some (next_run_column (ce_pg sample_env) (cron_tz ?r) (n + d * ns))\<rparr>) else row_of cj_id k [?r]))"
    by (rule ScheduleRow_correct [OF sample_env_ok sample_cron_ok(1,2,3,4)])
      (simp_all only: pg loc sample_cron_ok parsed_schedules schedules_ok e n, simp_all add: sample_cron_ok(5))
  then show ?thesis unfolding pg by blast
qed

text \<open>
  A \<open>@once\<close> job runs once. As long as it never ran it is scheduled for now; once it has a last
  run it is scheduled for \<open>infinity\<close>, and then it is not pending at any time.
\<close>

theorem cron_once:
  assumes "pg_text (ce_pg e)" and "rnd_ok (ce_rnd e)" and "ce_others e = (\<lambda>t. t)"
    and "keys_unique cj_id t" and "row_of cj_id j t = Some r"
    and "needs_scheduling r" and "delay_ok r" and "cron_micro (ce_pg e) now r" and "cj_schedule r = ''@once''"
    and "to_local (ce_pg e) (cron_tz r) now \<noteq> time_point_max"
    and "cj_last_run r \<noteq> None \<Longrightarrow> cron_last (ce_pg e) r \<noteq> time_point_min"
  shows "\<exists>t' r'. ScheduleRow e (schedule_row_of (ce_pg e) now r) t = Some (Scheduled, t') \<and> row_of cj_id j t' = Some r' \<and>
    (if cj_last_run r = None
     then cj_next_run r' = Some (At (from_local (ce_pg e) (cron_tz r) (to_local (ce_pg e) (cron_tz r) now)))
     else cj_next_run r' = Some Infinity \<and> (\<forall>st snl now'. \<not> cron_pending st snl now' r'))"
proof -
  let ?c = "cron_schedule_init\<lparr>delay_range := 0\<rparr>" and ?now = "to_local (ce_pg e) (cron_tz r) now"
  let ?n = "if cj_last_run r = None then ?now else time_point_max"
  have c: "CronSchedule (ce_str e) (cj_schedule r) = Inr ?c"
    using assms(9) by (simp add: CronSchedule_def Let_def split: prod.splits)
  have once: "IsOnce ?c"
    by (simp add: IsOnce_def cron_schedule_init_def rbs_none_def rbs_new_def list_ex_iff)
  have n: "Next (ce_time e) ?c (cron_last (ce_pg e) r) ?now = Some ?n"
    using once assms(11) by (auto simp: Next_def cron_last_def split: option.splits)
  have "?n mod 1000 = 0 \<or> ?n = time_point_max \<and> delay_range ?c \<le> 1"
    using assms(8) by (auto simp: cron_micro_def)
  from ScheduleRow_body [OF assms(1-8) c n this] obtain d t' where
    s: "ScheduleRow e (schedule_row_of (ce_pg e) now r) t = Some (Scheduled, t')" and d: "0 \<le> d" "d < max 1 (delay_range ?c)"
    and k: "\<forall>k. row_of cj_id k t' = (if k = j then Some (r\<lparr>cj_delay := Some d, cj_delay_range := Some (delay_range ?c),
       cj_next_run := Some (next_run_column (ce_pg e) (cron_tz r) (?n + d * ns))\<rparr>) else row_of cj_id k t)" by blast
  have "d = 0" using d by simp
  with k have "row_of cj_id j t' = Some (r\<lparr>cj_delay := Some 0, cj_delay_range := Some 0,
       cj_next_run := Some (next_run_column (ce_pg e) (cron_tz r) ?n)\<rparr>)" by simp
  with s show ?thesis
    using assms(10) by (intro exI [of _ t'] exI conjI) (auto simp: next_run_column_def cron_pending_def)
qed

theorem cron_once_witness:
  "\<exists>t' r'. ScheduleRow sample_env (schedule_row_of plain_pg 7000 ((sample_cron ''1'' ''@once'')\<lparr>cj_last_run := Some 1000\<rparr>))
       [(sample_cron ''1'' ''@once'')\<lparr>cj_last_run := Some 1000\<rparr>] = Some (Scheduled, t') \<and>
     row_of cj_id ''1'' t' = Some r' \<and> cj_next_run r' = Some Infinity"
proof -
  let ?r = "(sample_cron ''1'' ''@once'')\<lparr>cj_last_run := Some 1000\<rparr>"
  have pg: "ce_pg sample_env = plain_pg" by (simp add: sample_env_def)
  have "keys_unique cj_id [?r]" "row_of cj_id ''1'' [?r] = Some ?r" "needs_scheduling ?r" "delay_ok ?r"
    "cron_micro (ce_pg sample_env) 7000 ?r" "cj_schedule ?r = ''@once''" "to_local (ce_pg sample_env) (cron_tz ?r) 7000 \<noteq> time_point_max"
    "cron_last (ce_pg sample_env) ?r \<noteq> time_point_min"
    by (simp_all add: pg sample_cron_def keys_unique_def needs_scheduling_def delay_ok_def cron_micro_def cron_last_def
        plain_pg_def time_point_max_def time_point_min_def)
  from cron_once [OF sample_env_ok(1,3,4) this] show ?thesis by (auto simp: pg sample_cron_def)
qed

text \<open>Whether a run of the scheduler comes to its end.\<close>

lemma ScheduleNext_returns: "Next (ce_time e) c l now = Some n \<Longrightarrow> ScheduleNext e row c l now d t \<noteq> None"
  by (simp add: ScheduleNext_def case_prod_beta Let_def)

lemma ScheduleRow_returns:
  assumes pg: "pg_text (ce_pg e)" and r: "delay_ok r" "cron_micro (ce_pg e) now r"
    and n: "\<And>c. CronSchedule (ce_str e) (cj_schedule r) = Inr c \<Longrightarrow>
      \<exists>n. Next (ce_time e) c (cron_last (ce_pg e) r) (to_local (ce_pg e) (cron_tz r) now) = Some n"
  shows "ScheduleRow e (schedule_row_of (ce_pg e) now r) t \<noteq> None"
proof (cases "CronSchedule (ce_str e) (cj_schedule r)")
  case (Inl x)
  then show ?thesis using row_texts [OF pg r] by (simp add: ScheduleRow_def schedule_row_of_def)
next
  case (Inr c)
  let ?d = "case cj_delay r of None \<Rightarrow> 0 | Some d \<Rightarrow> d"
  obtain n where n: "Next (ce_time e) c (cron_last (ce_pg e) r) (to_local (ce_pg e) (cron_tz r) now) = Some n"
    using n [OF Inr] by blast
  have s: "sr_schedule (schedule_row_of (ce_pg e) now r) = cj_schedule r" by (simp add: schedule_row_of_def)
  obtain x t1 where mk: "MakeRandomDelay (ce_rnd e) (sr_id (schedule_row_of (ce_pg e) now r)) (cj_schedule r) (delay_range c)
      (ce_others e t) = (x, t1)" by fastforce
  have "ScheduleRow e (schedule_row_of (ce_pg e) now r) t =
      (if sr_delay (schedule_row_of (ce_pg e) now r) = None \<or>
          \<not> IsSameInterval (ce_pg e) (sr_delay_range (schedule_row_of (ce_pg e) now r)) (delay_range c)
       then (case x of Inl y \<Rightarrow> Some (y, t1)
             | Inr d \<Rightarrow> ScheduleNext e (schedule_row_of (ce_pg e) now r) c (cron_last (ce_pg e) r) (to_local (ce_pg e) (cron_tz r) now) d t1)
       else ScheduleNext e (schedule_row_of (ce_pg e) now r) c (cron_last (ce_pg e) r) (to_local (ce_pg e) (cron_tz r) now) ?d t)"
    using row_texts(1-3) [OF pg r] Inr mk by (simp add: ScheduleRow_def s split: sum.splits)
  then show ?thesis using ScheduleNext_returns [OF n] by (simp split: sum.splits)
qed

lemma ScheduleRows_returns:
  "(\<And>row t. row \<in> set rows \<Longrightarrow> ScheduleRow e row t \<noteq> None) \<Longrightarrow> \<exists>t'. ScheduleRows e rows t = Some t'"
proof (induction rows arbitrary: t)
  case (Cons row rows)
  obtain x t1 where "ScheduleRow e row t = Some (x, t1)"
    using Cons.prems [of row t] by (cases "ScheduleRow e row t") auto
  with Cons show ?case by simp
qed simp

text \<open>
  C14: A run of the scheduler returns, whatever other nodes do to the table meanwhile, when every
  schedule among the selected rows that parses is \<open>@once\<close> or admits some date.
\<close>

theorem CalculateNextRun_returns:
  assumes "pg_text (ce_pg e)" and "calendar (ce_time e)"
    and "\<forall>r \<in> set t. delay_ok r \<and> cron_micro (ce_pg e) now r \<and>
      0 \<le> effective_last (cron_last (ce_pg e) r) (to_local (ce_pg e) (cron_tz r) now)"
    and "\<forall>r \<in> set t. \<forall>c. needs_scheduling r \<longrightarrow> CronSchedule (ce_str e) (cj_schedule r) = Inr c \<longrightarrow>
      cj_schedule r = ''@once'' \<or> satisfiable c"
  shows "\<exists>b t'. CalculateNextRun e now t = Some (b, t')"
proof -
  have "ScheduleRow e row t' \<noteq> None" if row: "row \<in> set (sql_select_jobs_for_scheduling (ce_pg e) now t)" for row t'
  proof -
    obtain r where r: "r \<in> set t" "needs_scheduling r" "row = schedule_row_of (ce_pg e) now r"
      using row set_take_subset [of 1000 "filter needs_scheduling t"] by (auto simp: sql_select_jobs_for_scheduling_def)
    have "\<exists>n. Next (ce_time e) c (cron_last (ce_pg e) r) (to_local (ce_pg e) (cron_tz r) now) = Some n"
      if c: "CronSchedule (ce_str e) (cj_schedule r) = Inr c" for c
    proof (cases "cj_schedule r = ''@once''")
      case True
      then have "c = cron_schedule_init\<lparr>delay_range := 0\<rparr>"
        using c by (simp add: CronSchedule_def Let_def split: prod.splits)
      then have "IsOnce c" by (simp add: IsOnce_def cron_schedule_init_def rbs_none_def rbs_new_def list_ex_iff)
      then show ?thesis by (simp add: Next_def)
    next
      case False
      have "cron_ok c" using cron_parsed_ok [OF c False] .
      moreover have "satisfiable c" using assms(4) r(1,2) c False by blast
      ultimately show ?thesis using calendar.Next_returns [OF assms(2) _ refl] assms(3) r(1) by blast
    qed
    then show ?thesis unfolding r(3) using assms(1,3) r(1) by (intro ScheduleRow_returns) auto
  qed
  then obtain t' where "ScheduleRows e (sql_select_jobs_for_scheduling (ce_pg e) now t) t = Some t'"
    using ScheduleRows_returns [of "sql_select_jobs_for_scheduling (ce_pg e) now t" e t] by blast
  then show ?thesis by (auto simp: CalculateNextRun_def Let_def)
qed

theorem CalculateNextRun_returns_witness:
  "\<exists>b t'. CalculateNextRun sample_env (60 * ns) [sample_cron ''1'' ''0 12 1 * 5'', sample_cron ''2'' ''bad''] = Some (b, t')"
proof -
  let ?t = "[sample_cron ''1'' ''0 12 1 * 5'', sample_cron ''2'' ''bad'']"
  have e: "effective_last time_point_min (60 * ns) = 0" by (simp add: effective_last_def)
  have loc: "to_local plain_pg z x = x" for z x by (simp add: plain_pg_def)
  have "satisfiable noon_schedule" by (simp add: satisfiable_def noon_schedule_def)
  moreover have "\<exists>x. CronSchedule ascii_lib ''bad'' = Inl x" by (simp add: cron_eval)
  ultimately have "\<forall>r \<in> set ?t. \<forall>c. needs_scheduling r \<longrightarrow> CronSchedule (ce_str sample_env) (cj_schedule r) = Inr c \<longrightarrow>
      cj_schedule r = ''@once'' \<or> satisfiable c"
    using parsed_schedules(1) by (auto simp: sample_cron_ok(7) sample_env_def)
  moreover have "\<forall>r \<in> set ?t. delay_ok r \<and> cron_micro (ce_pg sample_env) (60 * ns) r \<and>
      0 \<le> effective_last (cron_last (ce_pg sample_env) r) (to_local (ce_pg sample_env) (cron_tz r) (60 * ns))"
    using sample_cron_ok(5) [of "60 * ns"] e by (simp add: sample_cron_ok(4,6) sample_env_def loc)
  ultimately show ?thesis using CalculateNextRun_returns [OF sample_env_ok(1,2)] by blast
qed

text \<open>
  One job whose schedule admits no date, such as \<open>0 0 30 2 *\<close>, blocks the scheduler for all
  jobs: once its delay is stored, no run that selects it returns, whatever other nodes do.
\<close>

theorem CalculateNextRun_blocked:
  assumes "pg_text (ce_pg e)" and "calendar (ce_time e)"
    and "r \<in> set (take 1000 (filter needs_scheduling t))" and "delay_ok r" and "cron_micro (ce_pg e) now r"
    and "CronSchedule (ce_str e) (cj_schedule r) = Inr c" and "cron_ok c" and "\<not> satisfiable c"
    and "cj_delay r \<noteq> None" and "cj_delay_range r = Some (delay_range c)"
    and "0 \<le> effective_last (cron_last (ce_pg e) r) (to_local (ce_pg e) (cron_tz r) now)"
  shows "CalculateNextRun e now t = None"
proof -
  let ?row = "schedule_row_of (ce_pg e) now r"
  have "Next (ce_time e) c (cron_last (ce_pg e) r) (to_local (ce_pg e) (cron_tz r) now) = None"
  proof (rule ccontr)
    assume "Next (ce_time e) c (cron_last (ce_pg e) r) (to_local (ce_pg e) (cron_tz r) now) \<noteq> None"
    then obtain n where "Next (ce_time e) c (cron_last (ce_pg e) r) (to_local (ce_pg e) (cron_tz r) now) = Some n" by auto
    from calendar.Next_position [OF assms(2,7) refl assms(11) this] have "satisfiable c"
      unfolding matches_def by (metis date_ok_satisfiable)
    with assms(8) show False by simp
  qed
  then have hang: "ScheduleNext e ?row c (cron_last (ce_pg e) r) (to_local (ce_pg e) (cron_tz r) now) d t' = None" for d t'
    by (simp add: ScheduleNext_def)
  have "sr_schedule ?row = cj_schedule r" "sr_delay ?row \<noteq> None" using assms(9) by (auto simp: schedule_row_of_def)
  then have none: "ScheduleRow e ?row t' = None" for t'
    using hang row_texts [OF assms(1,4,5)] assms(6,9,10) delay_range_nonneg [OF assms(6)] by (auto simp: ScheduleRow_def)
  have rows: "ScheduleRows e rows t' = None" if "?row \<in> set rows" for rows t'
    using that none by (induction rows arbitrary: t') (auto split: option.splits)
  have "?row \<in> set (sql_select_jobs_for_scheduling (ce_pg e) now t)"
    using assms(3) by (auto simp: sql_select_jobs_for_scheduling_def)
  then have "ScheduleRows e (sql_select_jobs_for_scheduling (ce_pg e) now t) t = None"
    "sql_select_jobs_for_scheduling (ce_pg e) now t \<noteq> []" using rows by auto
  then show ?thesis by (simp add: CalculateNextRun_def)
qed

theorem CalculateNextRun_blocked_witness:
  "CalculateNextRun sample_env (60 * ns)
     [sample_cron ''1'' ''@daily'', (sample_cron ''2'' ''0 0 30 2 *'')\<lparr>cj_delay := Some 7, cj_delay_range := Some 60\<rparr>] = None"
proof -
  let ?r = "(sample_cron ''2'' ''0 0 30 2 *'')\<lparr>cj_delay := Some 7, cj_delay_range := Some 60\<rparr>"
  have e: "effective_last time_point_min (60 * ns) = 0" by (simp add: effective_last_def)
  have r: "?r \<in> set (take 1000 (filter needs_scheduling [sample_cron ''1'' ''@daily'', ?r]))" "delay_ok ?r"
    "cron_micro (ce_pg sample_env) (60 * ns) ?r" "cj_delay ?r \<noteq> None" "cj_delay_range ?r = Some (delay_range february_30)"
    "cron_last (ce_pg sample_env) ?r = time_point_min" "to_local (ce_pg sample_env) (cron_tz ?r) (60 * ns) = 60 * ns"
    "cj_schedule ?r = ''0 0 30 2 *''"
    by (simp_all add: sample_env_def sample_cron_def needs_scheduling_def delay_ok_def cron_micro_def cron_last_def
        plain_pg_def february_30_def)
  have p: "CronSchedule (ce_str sample_env) (cj_schedule ?r) = Inr february_30"
    using parsed_schedules(3) r(8) by (simp add: sample_env_def)
  have "\<not> satisfiable february_30"
    by (auto simp: satisfiable_def february_30_def bits_elems days_in_month_def split: if_splits)
  moreover have "0 \<le> effective_last (cron_last (ce_pg sample_env) ?r) (to_local (ce_pg sample_env) (cron_tz ?r) (60 * ns))"
    unfolding r(6,7) e by simp
  ultimately show ?thesis
    using CalculateNextRun_blocked [OF sample_env_ok(1,2) r(1-3) p schedules_ok(3) _ r(4,5)] by blast
qed

end
