(* ===== verification/Jobs_Table.thy ===== *)
theory Jobs_Table
  imports Claim_Table "HOL-Library.Product_Lexorder"
begin

text \<open>
  The table \<open>jobs\<close> (\<open>sql/jobs.sql\<close>) with the columns Workshop reads or writes, the statements
  that \<open>pg_init()\<close> prepares and the functions of \<open>src/workshop/PGQueue.cxx\<close> that execute them.
  \<open>now()\<close> is an argument. A function that throws returns \<open>Inl\<close>; the table it leaves is the second
  component.
\<close>

record job_row =
  job_id :: string
  plan_name :: string
  sticky_id :: "string option"
  args :: "string list"
  env :: "string list option"
  stdin :: "string option"
  scheduled_time :: "time_point option"
  enabled :: bool
  priority :: int
  time_created :: time_point
  time_modified :: time_point
  node_name :: "string option"
  node_timeout :: "time_point option"
  progress :: int
  time_started :: "time_point option"
  time_done :: "time_point option"
  cpu_usage :: "int option"
  log :: "string option"
  exit_status :: "int option"

type_synonym jobs = "job_row list"

text \<open>What \<open>pg_init()\<close> finds out about the schema, fixed for the life of a connection.\<close>

record pg_schema =
  has_stdin :: bool
  has_time_modified :: bool
  has_sticky_id :: bool

section \<open>The prepared statements\<close>

definition set_time_modified :: "pg_schema \<Rightarrow> time_point \<Rightarrow> job_row \<Rightarrow> job_row" where
  "set_time_modified sch now r = (if has_time_modified sch then r\<lparr>time_modified := now\<rparr> else r)"

definition sticky_id_check :: "pg_schema \<Rightarrow> string set \<Rightarrow> job_row \<Rightarrow> bool" where
  "sticky_id_check sch sticky_non_local r =
     (has_sticky_id sch \<longrightarrow> (case sticky_id r of None \<Rightarrow> True | Some s \<Rightarrow> s \<notin> sticky_non_local))"

definition unfinished :: "job_row \<Rightarrow> bool" where
  "unfinished r \<longleftrightarrow> time_done r = None \<and> exit_status r = None"

definition sql_next_scheduled_job ::
  "pg_lib \<Rightarrow> pg_schema \<Rightarrow> string set \<Rightarrow> time_point \<Rightarrow> string list \<Rightarrow> jobs \<Rightarrow> int option" where
  "sql_next_scheduled_job pg sch snl now plans t =
     (let ts = map (the \<circ> scheduled_time) (filter (\<lambda>r. node_name r = None \<and> unfinished r \<and>
            (case scheduled_time r of None \<Rightarrow> False | Some s \<Rightarrow> s < plus_year pg now) \<and>
            plan_name r \<in> set plans \<and> enabled r \<and> sticky_id_check sch snl r) t)
      in if ts = [] then None else Some (Min (set ts) - now))"

definition new_job ::
  "pg_schema \<Rightarrow> string set \<Rightarrow> time_point \<Rightarrow> string list \<Rightarrow> string list \<Rightarrow> string list \<Rightarrow> job_row \<Rightarrow> bool" where
  "new_job sch snl now inc exc low r \<longleftrightarrow>
     node_name r = None \<and> unfinished r \<and>
     (case scheduled_time r of None \<Rightarrow> True | Some s \<Rightarrow> s \<le> now) \<and>
     plan_name r \<in> set inc \<and> plan_name r \<notin> set (exc @ low) \<and> enabled r \<and> sticky_id_check sch snl r"

definition sql_select_new_jobs ::
  "pg_schema \<Rightarrow> string set \<Rightarrow> time_point \<Rightarrow> string list \<Rightarrow> string list \<Rightarrow> string list \<Rightarrow> nat \<Rightarrow> jobs \<Rightarrow> jobs" where
  "sql_select_new_jobs sch snl now inc exc low limit t =
     take limit (sort_key (\<lambda>r. (priority r, time_created r)) (filter (new_job sch snl now inc exc low) t))"

text \<open>Start times of a plan's jobs within the interval, the latest first.\<close>

definition recent_starts :: "time_point \<Rightarrow> string \<Rightarrow> int \<Rightarrow> jobs \<Rightarrow> time_point list" where
  "recent_starts now plan d t = rev (sort (map (the \<circ> time_started) (filter (\<lambda>r. plan_name r = plan \<and>
     (case time_started r of None \<Rightarrow> False | Some s \<Rightarrow> now - d \<le> s)) t)))"

definition sql_check_rate_limit :: "time_point \<Rightarrow> string \<Rightarrow> int \<Rightarrow> nat \<Rightarrow> jobs \<Rightarrow> int option" where
  "sql_check_rate_limit now plan d offset t =
     (let ss = recent_starts now plan d t
      in if offset < length ss then Some (ss ! offset + d - now) else None)"

definition sql_claim_job ::
  "pg_schema \<Rightarrow> time_point \<Rightarrow> string \<Rightarrow> string \<Rightarrow> int \<Rightarrow> jobs \<Rightarrow> nat \<times> jobs" where
  "sql_claim_job sch now node jid timeout =
     sql_update (\<lambda>r. job_id r = jid \<and> (node_name r = None \<and> enabled r))
       (\<lambda>r. set_time_modified sch now
          (r\<lparr>node_name := Some node, node_timeout := Some (now + timeout), time_started := Some now\<rparr>))"

definition sql_set_job_progress ::
  "pg_schema \<Rightarrow> time_point \<Rightarrow> string \<Rightarrow> nat \<Rightarrow> int \<Rightarrow> jobs \<Rightarrow> nat \<times> jobs" where
  "sql_set_job_progress sch now jid p timeout =
     sql_update (\<lambda>r. job_id r = jid \<and> True)
       (\<lambda>r. set_time_modified sch now (r\<lparr>progress := int p, node_timeout := Some (now + timeout)\<rparr>))"

definition sql_set_job_done ::
  "pg_schema \<Rightarrow> time_point \<Rightarrow> string \<Rightarrow> int \<Rightarrow> string option \<Rightarrow> jobs \<Rightarrow> nat \<times> jobs" where
  "sql_set_job_done sch now jid status l =
     sql_update (\<lambda>r. job_id r = jid \<and> True)
       (\<lambda>r. set_time_modified sch now
          (r\<lparr>time_done := Some now, progress := 100, exit_status := Some status, log := l\<rparr>))"

definition sql_add_cpu_usage :: "string \<Rightarrow> int \<Rightarrow> jobs \<Rightarrow> nat \<times> jobs" where
  "sql_add_cpu_usage jid d =
     sql_update (\<lambda>r. job_id r = jid \<and> True)
       (\<lambda>r. r\<lparr>cpu_usage := Some ((case cpu_usage r of None \<Rightarrow> 0 | Some u \<Rightarrow> u) + d)\<rparr>)"

definition release_row :: "pg_schema \<Rightarrow> time_point \<Rightarrow> job_row \<Rightarrow> job_row" where
  "release_row sch now r =
     set_time_modified sch now (r\<lparr>node_name := None, node_timeout := None, progress := 0\<rparr>)"

definition sql_release_jobs :: "pg_schema \<Rightarrow> time_point \<Rightarrow> string \<Rightarrow> jobs \<Rightarrow> nat \<times> jobs" where
  "sql_release_jobs sch now node =
     sql_update (\<lambda>r. node_name r = Some node \<and> unfinished r) (release_row sch now)"

definition row_expired :: "time_point \<Rightarrow> job_row \<Rightarrow> bool" where
  "row_expired now r \<longleftrightarrow> (case node_timeout r of None \<Rightarrow> False | Some e \<Rightarrow> e < now)"

definition sql_expire_jobs :: "pg_schema \<Rightarrow> time_point \<Rightarrow> string \<Rightarrow> jobs \<Rightarrow> nat \<times> jobs" where
  "sql_expire_jobs sch now except =
     sql_update (\<lambda>r. unfinished r \<and> node_name r \<noteq> None \<and> node_name r \<noteq> Some except \<and> row_expired now r)
       (release_row sch now)"

definition sql_set_env :: "string \<Rightarrow> string \<Rightarrow> string \<Rightarrow> jobs \<Rightarrow> nat \<times> jobs" where
  "sql_set_env jid more_env like =
     sql_update (\<lambda>r. job_id r = jid \<and> True)
       (\<lambda>r. r\<lparr>env := Some (filter (\<lambda>x. \<not> sql_like like x) (case env r of None \<Rightarrow> [] | Some e \<Rightarrow> e) @ [more_env])\<rparr>)"

definition sql_rollback_job :: "pg_schema \<Rightarrow> time_point \<Rightarrow> string \<Rightarrow> jobs \<Rightarrow> nat \<times> jobs" where
  "sql_rollback_job sch now jid =
     sql_update (\<lambda>r. job_id r = jid \<and> (node_name r \<noteq> None \<and> time_done r = None)) (release_row sch now)"

definition sql_again_job ::
  "pg_schema \<Rightarrow> time_point \<Rightarrow> string \<Rightarrow> int \<Rightarrow> string option \<Rightarrow> jobs \<Rightarrow> nat \<times> jobs" where
  "sql_again_job sch now jid delay l =
     sql_update (\<lambda>r. job_id r = jid \<and> (node_name r \<noteq> None \<and> time_done r = None))
       (\<lambda>r. (release_row sch now r)\<lparr>log := l, scheduled_time := Some (now + delay * ns)\<rparr>)"

definition sql_reap_finished_jobs :: "time_point \<Rightarrow> string \<Rightarrow> int \<Rightarrow> jobs \<Rightarrow> nat \<times> jobs" where
  "sql_reap_finished_jobs now plan d =
     sql_delete (\<lambda>r. plan_name r = plan \<and> (case time_done r of None \<Rightarrow> False | Some x \<Rightarrow> x < now - d))"

section \<open>The functions of PGQueue\<close>

definition pg_release_jobs :: "pg_schema \<Rightarrow> time_point \<Rightarrow> string \<Rightarrow> jobs \<Rightarrow> (db_error + nat) \<times> jobs" where
  "pg_release_jobs sch now node t = (let (n, t') = sql_release_jobs sch now node t in (Inr n, t'))"

definition pg_expire_jobs :: "pg_schema \<Rightarrow> time_point \<Rightarrow> string \<Rightarrow> jobs \<Rightarrow> (db_error + nat) \<times> jobs" where
  "pg_expire_jobs sch now except t = (let (n, t') = sql_expire_jobs sch now except t in (Inr n, t'))"

definition pg_next_scheduled_job ::
  "pg_lib \<Rightarrow> pg_schema \<Rightarrow> string set \<Rightarrow> time_point \<Rightarrow> string \<Rightarrow> jobs \<Rightarrow> db_error + int option" where
  "pg_next_scheduled_job pg sch snl now plans_include t =
     (case array_in pg plans_include of
        None \<Rightarrow> Inl SqlError
      | Some plans \<Rightarrow>
          (case sql_next_scheduled_job pg sch snl now plans t of
             None \<Rightarrow> Inr None
           | Some d \<Rightarrow> if epoch_out pg d = [] then Inr None else Inr (Some (strtol0 (epoch_out pg d)))))"

definition pg_select_new_jobs ::
  "pg_lib \<Rightarrow> pg_schema \<Rightarrow> string set \<Rightarrow> time_point \<Rightarrow> string \<Rightarrow> string \<Rightarrow> string \<Rightarrow> nat \<Rightarrow> jobs \<Rightarrow> db_error + jobs" where
  "pg_select_new_jobs pg sch snl now plans_include plans_exclude plans_lowprio limit t =
     (case (array_in pg plans_include, array_in pg plans_exclude, array_in pg plans_lowprio) of
        (Some inc, Some exc, Some low) \<Rightarrow> Inr (sql_select_new_jobs sch snl now inc exc low limit t)
      | _ \<Rightarrow> Inl SqlError)"

text \<open>\<open>max_count - 1\<close> is computed in \<open>unsigned\<close>, where zero wraps around.\<close>

definition PgCheckRateLimit :: "pg_lib \<Rightarrow> time_point \<Rightarrow> string \<Rightarrow> int \<Rightarrow> nat \<Rightarrow> jobs \<Rightarrow> db_error + int" where
  "PgCheckRateLimit pg now plan duration max_count t =
     (case sql_check_rate_limit now plan (duration * ns) ((max_count + 2 ^ 32 - 1) mod 2 ^ 32) t of
        None \<Rightarrow> Inr 0
      | Some d \<Rightarrow> (let value = epoch_out pg d
                   in if value = [] then Inr 0 else Inr (int (fst (strtoul 10 value)))))"

definition pg_claim_job ::
  "pg_lib \<Rightarrow> pg_schema \<Rightarrow> time_point \<Rightarrow> string \<Rightarrow> string \<Rightarrow> string \<Rightarrow> jobs \<Rightarrow> (db_error + bool) \<times> jobs" where
  "pg_claim_job pg sch now jid node timeout t =
     (case interval_in pg timeout of
        None \<Rightarrow> (Inl SqlError, t)
      | Some d \<Rightarrow> (let (n, t') = sql_claim_job sch now node jid d t in (Inr (0 < n), t')))"

text \<open>The functions that throw when no row was affected.\<close>

definition expect_row :: "nat \<times> jobs \<Rightarrow> (db_error + unit) \<times> jobs" where
  "expect_row r = (let (n, t') = r in (if n < 1 then Inl NoMatchingJob else Inr (), t'))"

definition pg_set_job_progress ::
  "pg_lib \<Rightarrow> pg_schema \<Rightarrow> time_point \<Rightarrow> string \<Rightarrow> nat \<Rightarrow> string \<Rightarrow> jobs \<Rightarrow> (db_error + unit) \<times> jobs" where
  "pg_set_job_progress pg sch now jid p timeout t =
     (case interval_in pg timeout of
        None \<Rightarrow> (Inl SqlError, t)
      | Some d \<Rightarrow> expect_row (sql_set_job_progress sch now jid p d t))"

definition env_name :: "string \<Rightarrow> string" where
  "env_name = takeWhile (\<lambda>c. c \<noteq> CHR ''='')"

definition PgSetEnv :: "string \<Rightarrow> string \<Rightarrow> jobs \<Rightarrow> (db_error + unit) \<times> jobs" where
  "PgSetEnv jid more_env t =
     (if CHR ''='' \<notin> set more_env \<or> cderef more_env = CHR ''='' then (Inl MalformedEnvironment, t)
      else expect_row (sql_set_env jid more_env (env_name more_env @ ''=%'') t))"

definition pg_rollback_job :: "pg_schema \<Rightarrow> time_point \<Rightarrow> string \<Rightarrow> jobs \<Rightarrow> (db_error + unit) \<times> jobs" where
  "pg_rollback_job sch now jid t = expect_row (sql_rollback_job sch now jid t)"

definition pg_again_job ::
  "pg_schema \<Rightarrow> time_point \<Rightarrow> string \<Rightarrow> string option \<Rightarrow> int \<Rightarrow> jobs \<Rightarrow> (db_error + unit) \<times> jobs" where
  "pg_again_job sch now jid l delay t = expect_row (sql_again_job sch now jid delay l t)"

definition pg_set_job_done ::
  "pg_schema \<Rightarrow> time_point \<Rightarrow> string \<Rightarrow> int \<Rightarrow> string option \<Rightarrow> jobs \<Rightarrow> (db_error + unit) \<times> jobs" where
  "pg_set_job_done sch now jid status l t = expect_row (sql_set_job_done sch now jid status l t)"

text \<open>The microseconds of the argument.\<close>

definition PgAddJobCpuUsage :: "string \<Rightarrow> int \<Rightarrow> jobs \<Rightarrow> (db_error + unit) \<times> jobs" where
  "PgAddJobCpuUsage jid usec t = expect_row (sql_add_cpu_usage jid (usec * 1000) t)"

definition PgReapFinishedJobs ::
  "pg_lib \<Rightarrow> time_point \<Rightarrow> string \<Rightarrow> string \<Rightarrow> jobs \<Rightarrow> (db_error + nat) \<times> jobs" where
  "PgReapFinishedJobs pg now plan reap_finished t =
     (case interval_in pg reap_finished of
        None \<Rightarrow> (Inl SqlError, t)
      | Some d \<Rightarrow> (let (n, t') = sql_reap_finished_jobs now plan d t in (Inr n, t')))"

section \<open>The table as a claim table\<close>

datatype job_settle = Done int "string option" | Rollback | Again int "string option"

datatype job_touch = Progress nat string | SetEnv string | CpuUsage int

definition job_holder :: "jobs \<Rightarrow> string \<Rightarrow> string option" where
  "job_holder t j = (case row_of job_id j t of None \<Rightarrow> None | Some r \<Rightarrow> node_name r)"

definition job_overdue :: "time_point \<Rightarrow> jobs \<Rightarrow> string \<Rightarrow> bool" where
  "job_overdue now t j = (case row_of job_id j t of None \<Rightarrow> False | Some r \<Rightarrow> row_expired now r)"

definition job_settle_op :: "pg_schema \<Rightarrow> job_settle \<Rightarrow> string \<Rightarrow> time_point \<Rightarrow> jobs \<Rightarrow> (db_error + unit) \<times> jobs" where
  "job_settle_op sch s jid now t =
     (case s of Done status l \<Rightarrow> pg_set_job_done sch now jid status l t
      | Rollback \<Rightarrow> pg_rollback_job sch now jid t
      | Again delay l \<Rightarrow> pg_again_job sch now jid l delay t)"

definition job_touch_op :: "pg_lib \<Rightarrow> pg_schema \<Rightarrow> job_touch \<Rightarrow> string \<Rightarrow> time_point \<Rightarrow> jobs \<Rightarrow> (db_error + unit) \<times> jobs" where
  "job_touch_op pg sch u jid now t =
     (case u of Progress p timeout \<Rightarrow> pg_set_job_progress pg sch now jid p timeout t
      | SetEnv e \<Rightarrow> PgSetEnv jid e t
      | CpuUsage d \<Rightarrow> PgAddJobCpuUsage jid d t)"

definition jobs_ops :: "pg_lib \<Rightarrow> pg_schema \<Rightarrow> string \<Rightarrow> (jobs, job_settle, job_touch) claim_ops" where
  "jobs_ops pg sch timeout = \<lparr>holder = job_holder, table_ok = keys_unique job_id, expired = job_overdue,
     claim = (\<lambda>n j now t. let (r, t') = pg_claim_job pg sch now j n timeout t in (r = Inr True, t')),
     settle = (\<lambda>s n j now t. snd (job_settle_op sch s j now t)),
     touch = (\<lambda>u j now t. snd (job_touch_op pg sch u j now t)),
     release = (\<lambda>n now t. snd (pg_release_jobs sch now n t)),
     expire = (\<lambda>n now t. snd (pg_expire_jobs sch now n t))\<rparr>"

text \<open>Every statement is an update that keeps the key, so rows and keys follow the update rules.\<close>

lemma time_modified_simps [simp]:
  "job_id (set_time_modified sch now r) = job_id r" "node_name (set_time_modified sch now r) = node_name r"
  "node_timeout (set_time_modified sch now r) = node_timeout r" "time_done (set_time_modified sch now r) = time_done r"
  "exit_status (set_time_modified sch now r) = exit_status r" "progress (set_time_modified sch now r) = progress r"
  "env (set_time_modified sch now r) = env r" "plan_name (set_time_modified sch now r) = plan_name r"
  "enabled (set_time_modified sch now r) = enabled r" "time_started (set_time_modified sch now r) = time_started r"
  "scheduled_time (set_time_modified sch now r) = scheduled_time r" "sticky_id (set_time_modified sch now r) = sticky_id r"
  "log (set_time_modified sch now r) = log r" "cpu_usage (set_time_modified sch now r) = cpu_usage r"
  by (simp_all add: set_time_modified_def)

lemma release_row_simps [simp]:
  "job_id (release_row sch now r) = job_id r" "node_name (release_row sch now r) = None"
  "node_timeout (release_row sch now r) = None" "time_done (release_row sch now r) = time_done r"
  "exit_status (release_row sch now r) = exit_status r" "progress (release_row sch now r) = 0"
  "plan_name (release_row sch now r) = plan_name r" "enabled (release_row sch now r) = enabled r"
  "scheduled_time (release_row sch now r) = scheduled_time r" "sticky_id (release_row sch now r) = sticky_id r"
  by (simp_all add: release_row_def)

lemma snd_expect_row [simp]: "snd (expect_row r) = snd r"
  by (simp add: expect_row_def split: prod.splits)

lemmas job_statement_defs =
  sql_claim_job_def sql_set_job_progress_def sql_set_job_done_def sql_add_cpu_usage_def sql_release_jobs_def
  sql_expire_jobs_def sql_set_env_def sql_rollback_job_def sql_again_job_def

lemmas job_function_defs =
  pg_claim_job_def pg_set_job_progress_def pg_set_job_done_def PgAddJobCpuUsage_def pg_release_jobs_def
  pg_expire_jobs_def PgSetEnv_def pg_rollback_job_def pg_again_job_def job_settle_op_def job_touch_op_def

lemma keys_unique_job_update [simp]:
  "keys_unique job_id t \<Longrightarrow> (\<And>r. job_id (f r) = job_id r) \<Longrightarrow> keys_unique job_id (snd (sql_update P f t))"
  by (simp add: keys_unique_update)

lemma job_settle_op_keys: "keys_unique job_id t \<Longrightarrow> keys_unique job_id (snd (job_settle_op sch s j now t))"
  by (cases s) (simp_all add: job_function_defs job_statement_defs)

lemma job_touch_op_keys: "keys_unique job_id t \<Longrightarrow> keys_unique job_id (snd (job_touch_op pg sch u j now t))"
  by (cases u) (simp_all add: job_function_defs job_statement_defs split: option.splits)

lemma job_settle_op_other: "k \<noteq> j \<Longrightarrow> job_holder (snd (job_settle_op sch s j now t)) k = job_holder t k"
  by (cases s) (auto simp: job_function_defs job_statement_defs job_holder_def row_of_update
      split: option.splits dest: row_of_SomeD)

lemma job_touch_op_holder: "job_holder (snd (job_touch_op pg sch u j now t)) k = job_holder t k"
  by (cases u) (auto simp: job_function_defs job_statement_defs job_holder_def row_of_update split: option.splits)

lemma pg_claim_job_row:
  assumes "keys_unique job_id t" and "pg_claim_job pg sch now j n timeout t = (r, t')"
  shows "if r = Inr True
    then \<exists>d row. interval_in pg timeout = Some d \<and> row_of job_id j t = Some row \<and> node_name row = None \<and> enabled row \<and>
      t' = snd (sql_claim_job sch now n j d t)
    else t' = t \<and> (\<forall>row. row_of job_id j t = Some row \<and> interval_in pg timeout \<noteq> None \<longrightarrow> node_name row \<noteq> None \<or> \<not> enabled row)"
proof (cases "interval_in pg timeout")
  case None
  with assms(2) show ?thesis by (auto simp: pg_claim_job_def)
next
  case (Some d)
  have a: "0 < fst (sql_claim_job sch now n j d t) \<longleftrightarrow> (\<exists>row. row_of job_id j t = Some row \<and> (node_name row = None \<and> enabled row))"
    unfolding sql_claim_job_def by (rule affected_key_pos [OF assms(1)])
  have z: "fst (sql_claim_job sch now n j d t) = 0 \<Longrightarrow> snd (sql_claim_job sch now n j d t) = t"
    unfolding sql_claim_job_def by (rule sql_update_affected_0)
  have r: "r = Inr (0 < fst (sql_claim_job sch now n j d t))" "t' = snd (sql_claim_job sch now n j d t)"
    using assms(2) Some by (auto simp: pg_claim_job_def split: prod.splits)
  show ?thesis
    using a z r Some by (cases "0 < fst (sql_claim_job sch now n j d t)") auto
qed

lemma sql_claim_job_holder:
  assumes "row_of job_id j t = Some row" and "node_name row = None" and "enabled row"
  shows "job_holder (snd (sql_claim_job sch now n j d t)) = (job_holder t)(j := Some n)"
proof
  fix k
  show "job_holder (snd (sql_claim_job sch now n j d t)) k = ((job_holder t)(j := Some n)) k"
    using assms by (auto simp: job_holder_def sql_claim_job_def row_of_update split: option.splits dest: row_of_SomeD)
qed

interpretation jobs: claim_table "jobs_ops pg sch timeout" for pg sch timeout
proof unfold_locales
  fix t :: jobs and n m j k now t' s u
  assume "table_ok (jobs_ops pg sch timeout) t"
  then have ok: "keys_unique job_id t" by (simp add: jobs_ops_def)
  note row = pg_claim_job_row [OF ok]
  show "holder (jobs_ops pg sch timeout) t j = None \<and>
      holder (jobs_ops pg sch timeout) t' = (holder (jobs_ops pg sch timeout) t)(j := Some n)"
    if "claim (jobs_ops pg sch timeout) n j now t = (True, t')"
  proof -
    have "pg_claim_job pg sch now j n timeout t = (Inr True, t')"
      using that by (cases "pg_claim_job pg sch now j n timeout t") (simp add: jobs_ops_def)
    from row [OF this] obtain d row where
      "row_of job_id j t = Some row" "node_name row = None" "enabled row" "t' = snd (sql_claim_job sch now n j d t)" by auto
    then show ?thesis using sql_claim_job_holder by (simp add: jobs_ops_def job_holder_def [of t j])
  qed
  show "t' = t" if lost: "claim (jobs_ops pg sch timeout) n j now t = (False, t')"
  proof -
    obtain r where r: "pg_claim_job pg sch now j n timeout t = (r, t')" "r \<noteq> Inr True"
      using lost by (cases "pg_claim_job pg sch now j n timeout t") (simp add: jobs_ops_def)
    from row [OF r(1)] r(2) show ?thesis by simp
  qed
  show "k \<noteq> j \<Longrightarrow> holder (jobs_ops pg sch timeout) (settle (jobs_ops pg sch timeout) s n j now t) k
      = holder (jobs_ops pg sch timeout) t k"
    by (simp add: jobs_ops_def job_settle_op_other)
  show "holder (jobs_ops pg sch timeout) (touch (jobs_ops pg sch timeout) u j now t) = holder (jobs_ops pg sch timeout) t"
    by (rule ext) (simp add: jobs_ops_def job_touch_op_holder)
  show "holder (jobs_ops pg sch timeout) (release (jobs_ops pg sch timeout) n now t) j = Some m"
    if "holder (jobs_ops pg sch timeout) t j = Some m" "m \<noteq> n"
    using that by (auto simp: jobs_ops_def job_holder_def job_function_defs job_statement_defs row_of_update
        case_prod_beta split: option.splits)
  show "holder (jobs_ops pg sch timeout) (expire (jobs_ops pg sch timeout) n now t) j = Some m"
    if "holder (jobs_ops pg sch timeout) t j = Some m" "\<not> expired (jobs_ops pg sch timeout) now t j"
    using that by (auto simp: jobs_ops_def job_holder_def job_overdue_def job_function_defs job_statement_defs row_of_update
        case_prod_beta split: option.splits)
  show "table_ok (jobs_ops pg sch timeout) (snd (claim (jobs_ops pg sch timeout) n j now t))"
    using ok by (auto simp: jobs_ops_def pg_claim_job_def sql_claim_job_def case_prod_beta split: option.splits)
  show "table_ok (jobs_ops pg sch timeout) (settle (jobs_ops pg sch timeout) s n j now t)"
    using ok by (simp add: jobs_ops_def job_settle_op_keys)
  show "table_ok (jobs_ops pg sch timeout) (touch (jobs_ops pg sch timeout) u j now t)"
    using ok by (simp add: jobs_ops_def job_touch_op_keys)
  show "table_ok (jobs_ops pg sch timeout) (release (jobs_ops pg sch timeout) n now t)"
    "table_ok (jobs_ops pg sch timeout) (expire (jobs_ops pg sch timeout) n now t)"
    using ok by (simp_all add: jobs_ops_def job_function_defs job_statement_defs case_prod_beta)
qed

section \<open>Properties of the job table\<close>

text \<open>A two-job table for the evaluation of the model.\<close>

definition sample_job :: "string \<Rightarrow> job_row" where
  "sample_job j = \<lparr>job_id = j, plan_name = ''video'', sticky_id = None, args = [], env = Some [''A=1''], stdin = None,
     scheduled_time = None, enabled = True, priority = 0, time_created = 0, time_modified = 0,
     node_name = None, node_timeout = None, progress = 0, time_started = None, time_done = None,
     cpu_usage = None, log = None, exit_status = None\<rparr>"

definition sample_jobs :: jobs where
  "sample_jobs = [sample_job ''1'', sample_job ''2'']"

definition full_schema :: pg_schema where
  "full_schema = \<lparr>has_stdin = True, has_time_modified = True, has_sticky_id = True\<rparr>"

lemma sample_jobs_keys: "keys_unique job_id sample_jobs"
  by (simp add: keys_unique_def sample_jobs_def sample_job_def)

text \<open>
  C7: mutual exclusion for the job queue. Starting with no job running, whatever claims,
  progress reports, completions, rollbacks, crashes, restarts and expiry runs the nodes interleave,
  no two nodes run the same job, as long as no running job is overdue when an expiry run executes
  and nodes connect to the database only while they run nothing.
\<close>

theorem jobs_exclusive:
  assumes "keys_unique job_id t" and "(cluster_step (jobs_ops pg sch timeout))\<^sup>*\<^sup>* (t, \<lambda>_. {}) (t', R)"
  shows "exclusive R"
  using jobs.cluster_exclusive [OF assms(2)] assms(1) by (simp add: jobs_ops_def)

lemma sample_claim:
  "claim (jobs_ops plain_pg full_schema ''60'') ''a'' ''1'' 0 sample_jobs
    = (True, snd (sql_claim_job full_schema 0 ''a'' ''1'' 60 sample_jobs))"
  by (simp add: jobs_ops_def pg_claim_job_def plain_pg_def read_int_def is_digit_def digits_value_def
      sample_jobs_def sample_job_def sql_claim_job_def sql_update_def)

theorem jobs_exclusive_witness:
  "exclusive ((\<lambda>_. {})(''a'' := {''1''}))"
proof -
  have "cluster_step (jobs_ops plain_pg full_schema ''60'') (sample_jobs, \<lambda>_. {})
     (snd (sql_claim_job full_schema 0 ''a'' ''1'' 60 sample_jobs), (\<lambda>_. {})(''a'' := {''1''}))"
    using cluster_step.Claim [OF sample_claim, of "\<lambda>_. {}"] by simp
  then show ?thesis using jobs_exclusive [OF sample_jobs_keys] by blast
qed

text \<open>
  The restriction on connecting is needed. \<open>OnConnect()\<close> releases all jobs of the node, also
  after a mere loss of the connection while their processes go on: from a reachable state in which
  node \<open>a\<close> runs job 1, a reconnect of \<open>a\<close> makes the claim of the same job by \<open>b\<close> succeed.
\<close>

theorem jobs_reconnect_not_exclusive:
  "\<exists>t1 t2 t3. cluster_step (jobs_ops plain_pg full_schema ''60'') (sample_jobs, \<lambda>_. {}) (t1, (\<lambda>_. {})(''a'' := {''1''})) \<and>
     reconnect_step (jobs_ops plain_pg full_schema ''60'') (t1, (\<lambda>_. {})(''a'' := {''1''})) (t2, (\<lambda>_. {})(''a'' := {''1''})) \<and>
     cluster_step (jobs_ops plain_pg full_schema ''60'') (t2, (\<lambda>_. {})(''a'' := {''1''}))
       (t3, (\<lambda>_. {})(''a'' := {''1''}, ''b'' := {''1''})) \<and>
     \<not> exclusive ((\<lambda>_. {})(''a'' := {''1''}, ''b'' := {''1''}))"
proof -
  let ?ops = "jobs_ops plain_pg full_schema ''60''" and ?R = "(\<lambda>_. {})(''a'' := {''1''})"
  define t1 where "t1 = snd (sql_claim_job full_schema 0 ''a'' ''1'' 60 sample_jobs)"
  define t2 where "t2 = snd (pg_release_jobs full_schema 5 ''a'' t1)"
  have 1: "cluster_step ?ops (sample_jobs, \<lambda>_. {}) (t1, ?R)"
    using cluster_step.Claim [OF sample_claim, of "\<lambda>_. {}"] by (simp add: t1_def)
  have 2: "reconnect_step ?ops (t1, ?R) (t2, ?R)"
    using reconnect_step.Reconnect [of ?ops t1 ?R "''a''" 5] by (simp add: t2_def jobs_ops_def)
  have "\<exists>t3. claim ?ops ''b'' ''1'' 6 t2 = (True, t3)"
    by (simp add: t2_def t1_def jobs_ops_def pg_claim_job_def pg_release_jobs_def plain_pg_def read_int_def is_digit_def
        digits_value_def sample_jobs_def sample_job_def sql_claim_job_def sql_release_jobs_def release_row_def
        unfinished_def set_time_modified_def full_schema_def sql_update_def)
  then obtain t3 where "claim ?ops ''b'' ''1'' 6 t2 = (True, t3)" ..
  then have 3: "cluster_step ?ops (t2, ?R) (t3, ?R(''b'' := {''1''}))"
    using cluster_step.Claim [of ?ops "''b''" "''1''" 6 t2 True t3 ?R] by simp
  have "\<not> exclusive (?R(''b'' := {''1''}))"
  proof
    assume "exclusive (?R(''b'' := {''1''}))"
    then have "''a'' = ''b''" unfolding exclusive_def by (metis fun_upd_apply insertI1)
    then show False by simp
  qed
  with 1 2 3 show ?thesis by blast
qed

text \<open>
  C8: Setting an environment variable. For a name without the pattern characters of \<open>LIKE\<close>, the
  new list is the old one without the variable's previous settings, followed by the new one; other
  jobs are untouched.
\<close>

theorem PgSetEnv_replaces:
  assumes "keys_unique job_id t" and "row_of job_id jid t = Some r" and "name \<noteq> []" and "CHR ''='' \<notin> set name"
    and "like_plain name"
  shows "fst (PgSetEnv jid (name @ ''='' @ v) t) = Inr () \<and>
    row_of job_id k (snd (PgSetEnv jid (name @ ''='' @ v) t)) =
      (if k = jid then Some (r\<lparr>env := Some (filter (\<lambda>x. \<not> (\<exists>w. x = name @ ''='' @ w)) (case env r of None \<Rightarrow> [] | Some e \<Rightarrow> e)
         @ [name @ ''='' @ v])\<rparr>)
       else row_of job_id k t)"
proof -
  have nm: "env_name (name @ ''='' @ v) = name"
    using assms(4) by (auto simp: env_name_def takeWhile_append)
  have ne: "cderef (name @ ''='' @ v) \<noteq> CHR ''=''"
    using assms(3,4) by (cases name) auto
  have lp: "like_plain (name @ ''='')" using assms(5) by (simp add: like_plain_def)
  have like: "sql_like (name @ ''=%'') x \<longleftrightarrow> (\<exists>w. x = name @ ''='' @ w)" for x
    using sql_like_prefix [OF lp, of x] by simp
  have "fst (sql_set_env jid (name @ ''='' @ v) (name @ ''=%'') t) = 1"
    unfolding sql_set_env_def affected_key [OF assms(1)] using assms(2) by simp
  then have f: "fst (PgSetEnv jid (name @ ''='' @ v) t) = Inr ()"
    using ne nm by (simp add: PgSetEnv_def expect_row_def case_prod_beta)
  have "snd (PgSetEnv jid (name @ ''='' @ v) t) = snd (sql_set_env jid (name @ ''='' @ v) (name @ ''=%'') t)"
    using ne nm by (simp add: PgSetEnv_def)
  with f show ?thesis
    using assms(2) like by (cases "row_of job_id k t") (auto simp: sql_set_env_def row_of_update dest: row_of_SomeD)
qed

theorem PgSetEnv_replaces_witness:
  "fst (PgSetEnv ''1'' (''A'' @ ''='' @ ''2'') sample_jobs) = Inr () \<and>
   map_option env (row_of job_id ''1'' (snd (PgSetEnv ''1'' (''A'' @ ''='' @ ''2'') sample_jobs))) = Some (Some [''A=2''])"
  using PgSetEnv_replaces [OF sample_jobs_keys, of "''1''" "sample_job ''1''" "''A''" "''2''" "''1''"]
  by (simp add: sample_jobs_def sample_job_def like_plain_def)

text \<open>
  Without that condition other variables are lost: \<open>_\<close> is legal in a variable's name and a
  wildcard for \<open>LIKE\<close>, so that setting \<open>A_B\<close> also deletes \<open>AXB\<close>.
\<close>

theorem PgSetEnv_underscore:
  assumes "keys_unique job_id t" and "row_of job_id jid t = Some r" and "env r = Some [''AXB=1'', ''C=2'']"
  shows "map_option env (row_of job_id jid (snd (PgSetEnv jid ''A_B=3'' t))) = Some (Some [''C=2'', ''A_B=3''])"
  using assms row_of_SomeD [OF assms(2)]
  by (simp add: PgSetEnv_def sql_set_env_def row_of_update env_name_def)

theorem PgSetEnv_underscore_witness:
  "map_option env (row_of job_id ''7'' (snd (PgSetEnv ''7'' ''A_B=3'' [(sample_job ''7'')\<lparr>env := Some [''AXB=1'', ''C=2'']\<rparr>])))
     = Some (Some [''C=2'', ''A_B=3''])"
  using PgSetEnv_underscore [of "[(sample_job ''7'')\<lparr>env := Some [''AXB=1'', ''C=2'']\<rparr>]" "''7''"]
  by (simp add: keys_unique_def sample_job_def)

text \<open>Rate limits: counting the jobs of a plan that were started since a given time.\<close>

definition started_since :: "string \<Rightarrow> time_point \<Rightarrow> jobs \<Rightarrow> nat" where
  "started_since plan since t = length (filter (\<lambda>r. plan_name r = plan \<and>
     (case time_started r of None \<Rightarrow> False | Some s \<Rightarrow> since \<le> s)) t)"

lemma filter_ge_length:
  assumes "sorted_wrt (\<ge>) ss" and "i < length ss" and "ss ! i < (y :: int)"
  shows "length (filter (\<lambda>s. y \<le> s) ss) \<le> i"
proof -
  have "\<not> y \<le> s" if s: "s \<in> set (drop i ss)" for s
  proof -
    obtain k where k: "k < length ss - i" "s = ss ! (i + k)"
      using s by (auto simp: in_set_conv_nth)
    then have "s \<le> ss ! i"
      using sorted_wrt_nth_less [OF assms(1), of i "i + k"] by (cases "k = 0") auto
    with assms(3) show ?thesis by linarith
  qed
  then have "filter (\<lambda>s. y \<le> s) (drop i ss) = []" by (simp add: filter_empty_conv)
  then have "filter (\<lambda>s. y \<le> s) ss = filter (\<lambda>s. y \<le> s) (take i ss)"
    using filter_append [of "\<lambda>s. y \<le> s" "take i ss" "drop i ss"] by simp
  then show ?thesis using length_filter_le [of "\<lambda>s. y \<le> s" "take i ss"] by simp
qed

lemma recent_starts_sorted: "sorted_wrt (\<ge>) (recent_starts now plan d t)"
  unfolding recent_starts_def sorted_wrt_rev by simp

lemma length_recent_starts: "length (recent_starts now plan d t) = started_since plan (now - d) t"
  by (simp add: recent_starts_def started_since_def)

lemma length_filter_recent_starts:
  assumes "now - d \<le> y"
  shows "length (filter (\<lambda>s. y \<le> s) (recent_starts now plan d t)) = started_since plan y t"
proof -
  have "length (filter (\<lambda>s. y \<le> s) (rev (sort xs))) = length (filter (\<lambda>s. y \<le> s) xs)" for xs :: "int list"
    using filter_sort [of "\<lambda>s. y \<le> s" "\<lambda>x. x" xs] by (simp add: rev_filter [symmetric])
  then show ?thesis
    using assms by (auto simp: recent_starts_def started_since_def filter_map comp_def intro!: arg_cong [where f = length] filter_cong
        split: option.splits)
qed

lemma recent_starts_bounds:
  assumes "x \<in> set (recent_starts now plan d t)" and "\<forall>r \<in> set t. \<forall>s. time_started r = Some s \<longrightarrow> s \<le> now"
  shows "now - d \<le> x" "x \<le> now"
  using assms by (auto simp: recent_starts_def split: option.splits)

text \<open>
  C9: The rate limit check. When the result \<open>w\<close> is positive, at least \<open>max_count\<close> jobs of the
  plan were started within the last \<open>duration\<close> seconds; and in any case, \<open>w + 1\<close> seconds from now
  the number of those starts that still count is below \<open>max_count\<close>. In particular a result of
  zero means that the limit is respected up to one second.
\<close>

theorem PgCheckRateLimit_correct:
  assumes "pg_text pg" and "PgCheckRateLimit pg now plan duration max_count t = Inr w"
    and "1 \<le> max_count" and "max_count < 2 ^ 32" and "0 \<le> duration" and "duration \<le> 2 ^ 63"
    and "\<forall>r \<in> set t. \<forall>s. time_started r = Some s \<longrightarrow> s \<le> now"
  shows "(0 < w \<longrightarrow> max_count \<le> started_since plan (now - duration * ns) t) \<and>
    started_since plan (now + (w + 1) * ns - duration * ns) t < max_count"
proof -
  let ?ss = "recent_starts now plan (duration * ns) t"
  have idx: "(max_count + 2 ^ 32 - 1) mod 2 ^ 32 = max_count - 1"
    using assms(3,4) by (simp add: mod_if)
  show ?thesis
  proof (cases "max_count - 1 < length ?ss")
    case False
    then have w: "w = 0" using assms(2) idx by (simp add: PgCheckRateLimit_def sql_check_rate_limit_def)
    have "started_since plan (now + ns - duration * ns) t \<le> length ?ss"
      using length_filter_recent_starts [of now "duration * ns" "now + ns - duration * ns" plan t]
      by (metis diff_add_cancel diff_right_mono le_add_same_cancel1 length_filter_le zero_le_numeral)
    then show ?thesis using False w assms(3) by simp
  next
    case True
    define x where "x = ?ss ! (max_count - 1)"
    have xin: "x \<in> set ?ss" using True by (simp add: x_def)
    note b = recent_starts_bounds [OF xin assms(7)]
    have d: "0 \<le> x + duration * ns - now" "x + duration * ns - now \<le> duration * ns" using b by linarith+
    have "(x + duration * ns - now) div ns \<le> int ULONG_MAX"
      using zdiv_mono1 [OF d(2), of ns] assms(6) by simp
    then have "fst (strtoul 10 (epoch_out pg (x + duration * ns - now))) = nat ((x + duration * ns - now) div ns)"
      using pg_text.epoch_out_strtoul [OF assms(1) d(1)] by simp
    then have w: "w = (x + duration * ns - now) div ns"
      using assms(2) idx True pg_text.epoch_out_nonempty [OF assms(1)] d(1)
      by (simp add: PgCheckRateLimit_def sql_check_rate_limit_def x_def Let_def pos_imp_zdiv_nonneg_iff)
    have lt: "x < now + (w + 1) * ns - duration * ns"
      using mult_div_mod_eq [of ns "x + duration * ns - now"] pos_mod_bound [of ns "x + duration * ns - now"]
      unfolding w by (simp add: algebra_simps)
    have "started_since plan (now + (w + 1) * ns - duration * ns) t \<le> max_count - 1"
      using filter_ge_length [OF recent_starts_sorted True, folded x_def, OF lt]
        length_filter_recent_starts [of now "duration * ns" "now + (w + 1) * ns - duration * ns"] lt b(1) by simp
    moreover have "max_count \<le> started_since plan (now - duration * ns) t"
      using True length_recent_starts [of now plan "duration * ns" t] by linarith
    ultimately show ?thesis using assms(3) by linarith
  qed
qed

theorem PgCheckRateLimit_correct_witness:
  "PgCheckRateLimit plain_pg (5 * ns) ''video'' 10 1 [(sample_job ''1'')\<lparr>time_started := Some 0\<rparr>] = Inr 5 \<and>
   started_since ''video'' (1 * ns) [(sample_job ''1'')\<lparr>time_started := Some 0\<rparr>] < 1"
proof -
  have sn: "show_nat 5 = ''5''" by (subst show_nat.simps) (simp add: char_of_def bit_0)
  have r: "PgCheckRateLimit plain_pg (5 * ns) ''video'' 10 1 [(sample_job ''1'')\<lparr>time_started := Some 0\<rparr>] = Inr 5"
    by (simp add: PgCheckRateLimit_def sql_check_rate_limit_def recent_starts_def sample_job_def plain_pg_def show_int_def
        sn strtoul_def strtoul_digits_def is_space_def skip_sign_def is_digit_def digits_value_def)
  from PgCheckRateLimit_correct [OF plain_pg.pg_text_axioms r] show ?thesis
    using r by (simp add: sample_job_def)
qed



text \<open>A job that was reported done: it keeps its node, so that no statement hands it out again.\<close>

definition job_finished :: "jobs \<Rightarrow> string \<Rightarrow> bool" where
  "job_finished t j \<longleftrightarrow> (case row_of job_id j t of None \<Rightarrow> False
     | Some r \<Rightarrow> time_done r \<noteq> None \<and> exit_status r \<noteq> None \<and> node_name r \<noteq> None)"

lemma job_finished_settle: "job_finished t j \<Longrightarrow> job_finished (snd (job_settle_op sch s k now t)) j"
  by (cases s) (auto simp: job_finished_def job_function_defs job_statement_defs row_of_update split: option.splits)

lemma job_finished_touch: "job_finished t j \<Longrightarrow> job_finished (snd (job_touch_op pg sch u k now t)) j"
  by (cases u) (auto simp: job_finished_def job_function_defs job_statement_defs row_of_update split: option.splits)

lemma job_finished_claim: "job_finished t j \<Longrightarrow> job_finished (snd (pg_claim_job pg sch now k n timeout t)) j"
  by (auto simp: job_finished_def pg_claim_job_def sql_claim_job_def row_of_update case_prod_beta split: option.splits)

lemma job_finished_release:
  "job_finished t j \<Longrightarrow> job_finished (snd (pg_release_jobs sch now n t)) j"
  "job_finished t j \<Longrightarrow> job_finished (snd (pg_expire_jobs sch now n t)) j"
  by (auto simp: job_finished_def pg_release_jobs_def pg_expire_jobs_def sql_release_jobs_def sql_expire_jobs_def
      unfinished_def row_of_update case_prod_beta split: option.splits)

lemma job_finished_step:
  assumes "cluster_step (jobs_ops pg sch timeout) c c'" and "job_finished (fst c) j"
  shows "job_finished (fst c') j"
  using assms
proof (induction rule: cluster_step.induct)
  case (Claim n k now t b t' R)
  then show ?case
    using job_finished_claim [of t j pg sch now k n timeout] by (simp add: jobs_ops_def case_prod_beta)
qed (simp_all add: jobs_ops_def job_finished_settle job_finished_touch job_finished_release)



end
