(* ===== verification/Sticky_Manager.thy ===== *)
theory Sticky_Manager
  imports Workshop_Prelude
begin

text \<open>
  \<open>src/StickyManager.cxx\<close> and \<open>src/StickyTable.cxx\<close>: which node of the cluster shall execute the
  jobs with a given sticky id, and the temporary table of ids that belong to other nodes. The map
  of nodes is the association list in the order of its keys. The Avahi publisher is represented by
  the flag \<open>is_published\<close>; the rendezvous score
  (\<open>RendezvousHashing::Node::CalculateRendezvousScore\<close> of \<open>libcommon\<close>) is the argument
  \<open>score\<close>, a function of what was published about the node and the id.
\<close>

record sticky_node =
  host_name :: string
  address :: string
  txt_list :: string
  is_our_own :: bool

record sticky_manager =
  nodes :: "(string \<times> sticky_node) list"
  is_published :: bool
  has_explorer :: bool

type_synonym 'a score = "string \<Rightarrow> string \<Rightarrow> string \<Rightarrow> 'a"

definition sticky_init :: sticky_manager where
  "sticky_init = \<lparr>nodes = [], is_published = False, has_explorer = True\<rparr>"

definition Sticky_Enable :: "sticky_manager \<Rightarrow> sticky_manager" where
  "Sticky_Enable m = (if \<not> is_published m then m\<lparr>is_published := True\<rparr> else m)"

definition Sticky_Disable :: "sticky_manager \<Rightarrow> sticky_manager" where
  "Sticky_Disable m = (if is_published m then m\<lparr>is_published := False\<rparr> else m)"

definition Sticky_BeginShutdown :: "sticky_manager \<Rightarrow> sticky_manager" where
  "Sticky_BeginShutdown m = (Sticky_Disable m)\<lparr>has_explorer := False\<rparr>"

definition node_score :: "'a::linorder score \<Rightarrow> string \<Rightarrow> sticky_node \<Rightarrow> 'a" where
  "node_score score sid n = score (address n) (txt_list n) sid"

text \<open>The loop over the nodes after the first, with the best so far.\<close>

fun best_node :: "'a::linorder score \<Rightarrow> string \<Rightarrow> sticky_node \<Rightarrow> (string \<times> sticky_node) list \<Rightarrow> sticky_node" where
  "best_node score sid best [] = best"
| "best_node score sid best ((k, n) # ns) =
     best_node score sid (if node_score score sid n > node_score score sid best then n else best) ns"

definition IsLocal :: "'a::linorder score \<Rightarrow> sticky_manager \<Rightarrow> string \<Rightarrow> string \<times> bool" where
  "IsLocal score m sid =
     (case nodes m of
        [] \<Rightarrow> (''localhost'', True)
      | [(k, n)] \<Rightarrow> (host_name n, True)
      | (k, n) # second \<Rightarrow> (let best = best_node score sid n second in (host_name best, is_our_own best)))"

fun insert_node :: "string \<Rightarrow> sticky_node \<Rightarrow> (string \<times> sticky_node) list \<Rightarrow> (string \<times> sticky_node) list" where
  "insert_node key n [] = [(key, n)]"
| "insert_node key n ((k, x) # ns) =
     (if key = k then (k, n) # ns else if key < k then (key, n) # (k, x) # ns else (k, x) # insert_node key n ns)"

text \<open>
  \<open>try_emplace()\<close> keeps the host name of a known node; \<open>Update()\<close> then stores the new address,
  TXT records and flags.
\<close>

definition OnAvahiNewObject :: "string \<Rightarrow> string \<Rightarrow> string \<Rightarrow> string \<Rightarrow> bool \<Rightarrow> sticky_manager \<Rightarrow> sticky_manager" where
  "OnAvahiNewObject key host addr tx own m =
     (let host' = (case map_of (nodes m) key of None \<Rightarrow> host | Some n \<Rightarrow> host_name n)
      in m\<lparr>nodes := insert_node key \<lparr>host_name = host', address = addr, txt_list = tx, is_our_own = own\<rparr> (nodes m)\<rparr>)"

definition OnAvahiRemoveObject :: "string \<Rightarrow> sticky_manager \<Rightarrow> sticky_manager" where
  "OnAvahiRemoveObject key m = m\<lparr>nodes := filter (\<lambda>(k, n). k \<noteq> key) (nodes m)\<rparr>"

section \<open>The table of foreign ids\<close>

definition StickyTable_Init :: "string set" where
  "StickyTable_Init = {}"

text \<open>The unique index makes inserting an id twice an SQL error.\<close>

definition StickyTable_InsertNonLocal :: "string \<Rightarrow> string set \<Rightarrow> string set option" where
  "StickyTable_InsertNonLocal sid t = (if sid \<in> t then None else Some (insert sid t))"

definition StickyTable_Flush :: "string set \<Rightarrow> string set" where
  "StickyTable_Flush t = {}"

section \<open>Choice of the node\<close>

definition sorted_nodes :: "sticky_manager \<Rightarrow> bool" where
  "sorted_nodes m \<longleftrightarrow> sorted_wrt (<) (map fst (nodes m))"

lemma insert_node_keys: "set (map fst (insert_node key n ns)) = insert key (set (map fst ns))"
  by (induction ns rule: insert_node.induct) auto

lemma insert_node_sorted: "sorted_wrt (<) (map fst ns) \<Longrightarrow> sorted_wrt (<) (map fst (insert_node key n ns))"
proof (induction key n ns rule: insert_node.induct)
  case (2 key n k x ns)
  then show ?case using insert_node_keys [of key n ns] by (auto simp: less_le_not_le)
qed simp

lemma sorted_nodes_ops [wf_intros]:
  "sorted_nodes sticky_init"
  "sorted_nodes m \<Longrightarrow> sorted_nodes (OnAvahiNewObject key host addr tx own m)"
  "sorted_nodes m \<Longrightarrow> sorted_nodes (OnAvahiRemoveObject key m)"
proof -
  show "sorted_nodes sticky_init" by (simp add: sorted_nodes_def sticky_init_def)
  show "sorted_nodes m \<Longrightarrow> sorted_nodes (OnAvahiNewObject key host addr tx own m)"
    using insert_node_sorted [of "nodes m"] by (simp add: sorted_nodes_def OnAvahiNewObject_def Let_def)
  show "sorted_nodes m \<Longrightarrow> sorted_nodes (OnAvahiRemoveObject key m)"
    by (simp add: sorted_nodes_def OnAvahiRemoveObject_def sorted_wrt_map sorted_wrt_filter)
qed

lemma best_node_in: "best_node score sid best ns \<in> insert best (snd ` set ns)"
  by (induction score sid best ns rule: best_node.induct) (simp, force)

lemma best_node_max: "n \<in> insert best (snd ` set ns) \<Longrightarrow> node_score score sid n \<le> node_score score sid (best_node score sid best ns)"
proof (induction score sid best ns arbitrary: n rule: best_node.induct)
  case (2 score sid best k x ns)
  let ?b = "if node_score score sid x > node_score score sid best then x else best"
  let ?r = "best_node score sid ?b ns"
  have b: "node_score score sid best \<le> node_score score sid ?b" "node_score score sid x \<le> node_score score sid ?b" by auto
  have r: "node_score score sid ?b \<le> node_score score sid ?r" using 2(1) [of ?b] by blast
  consider "n = best" | "n = x" | "n \<in> snd ` set ns" using 2(2) by auto
  then have "node_score score sid n \<le> node_score score sid ?r"
  proof cases
    case 1
    show ?thesis unfolding 1 using b(1) r by (rule order_trans)
  next
    case 2
    show ?thesis unfolding 2 using b(2) r by (rule order_trans)
  next
    case 3
    then show ?thesis using "2.IH" [of n] by blast
  qed
  then show ?case by simp
qed simp

text \<open>
  With at least two nodes, the answer is the flag of a node of the list with the best score.
\<close>

lemma IsLocal_best:
  assumes "2 \<le> length (nodes m)"
  obtains n where "n \<in> snd ` set (nodes m)" "IsLocal score m sid = (host_name n, is_our_own n)"
    "\<And>n'. n' \<in> snd ` set (nodes m) \<Longrightarrow> node_score score sid n' \<le> node_score score sid n"
proof -
  obtain k x y r where m: "nodes m = (k, x) # y # r"
    using assms by (cases "nodes m"; cases "tl (nodes m)") auto
  let ?n = "best_node score sid x (y # r)"
  have "IsLocal score m sid = (host_name ?n, is_our_own ?n)" by (simp add: IsLocal_def m Let_def)
  moreover have "?n \<in> snd ` set (nodes m)"
    using best_node_in [of score sid x "y # r"] by (simp add: m)
  moreover have "node_score score sid n' \<le> node_score score sid ?n" if "n' \<in> snd ` set (nodes m)" for n'
    using best_node_max [of n' x "y # r" score sid] that by (simp add: m)
  ultimately show thesis using that by blast
qed

text \<open>What a node publishes about itself, the same on every observer.\<close>

definition published :: "sticky_node \<Rightarrow> string \<times> string \<times> string" where
  "published n = (host_name n, address n, txt_list n)"

definition cluster_view :: "sticky_manager \<Rightarrow> (string \<times> string \<times> string) set" where
  "cluster_view m = (published \<circ> snd) ` set (nodes m)"


definition sample_view :: "bool \<Rightarrow> sticky_manager" where
  "sample_view first =
     OnAvahiNewObject ''k2'' ''b'' ''10.0.0.2'' [] (\<not> first) (OnAvahiNewObject ''k1'' ''a'' ''10.0.0.1'' [] first sticky_init)"


text \<open>
  With a single known node the answer is \<open>true\<close> without looking at whose node it is: as long
  as this node has not yet discovered itself, it considers jobs local that belong to the other one.
\<close>

theorem IsLocal_single_foreign:
  "IsLocal score (OnAvahiNewObject key host addr tx False sticky_init) sid = (host, True)"
  by (simp add: IsLocal_def OnAvahiNewObject_def sticky_init_def)

end
