(* ===== verification/Capacity_Gate.thy ===== *)
theory Capacity_Gate
  imports Workshop_Prelude
begin

text \<open>
  The contract between a queue and a workplace with a limited number of slots, shared by the
  workshop and the cron partition: the queue is closed (\<open>disabled_full\<close>) when the last slot is
  taken, and opened again when a slot becomes free. The two laws about the flag are what the
  partitions' handlers promise; that the limit is kept and no free slot is ever forgotten is proved
  from them once.
\<close>

record ('s, 'j, 'k) gate_ops =
  used_slots :: "'s \<Rightarrow> nat"
  slots :: "'s \<Rightarrow> nat"
  closed :: "'s \<Rightarrow> bool"
  start_one :: "'j \<Rightarrow> 's \<Rightarrow> 's"
  finish_some :: "'k \<Rightarrow> 's \<Rightarrow> 's"

inductive gate_step :: "('s, 'j, 'k) gate_ops \<Rightarrow> 's \<Rightarrow> 's \<Rightarrow> bool" for g where
  StartOne: "\<not> closed g s \<Longrightarrow> gate_step g s (start_one g j s)"
| FinishSome: "gate_step g s (finish_some g k s)"

definition gate_ok :: "('s, 'j, 'k) gate_ops \<Rightarrow> 's \<Rightarrow> bool" where
  "gate_ok g s \<longleftrightarrow> used_slots g s \<le> slots g s \<and> (closed g s \<longleftrightarrow> used_slots g s = slots g s)"

locale capacity_gate =
  fixes g :: "('s, 'j, 'k) gate_ops"
  assumes start_count: "used_slots g (start_one g j s) \<le> used_slots g s + 1"
    and start_slots: "slots g (start_one g j s) = slots g s"
    and start_closed: "used_slots g s < slots g s \<Longrightarrow> \<not> closed g s \<Longrightarrow>
      closed g (start_one g j s) \<longleftrightarrow> slots g s \<le> used_slots g (start_one g j s)"
    and finish_count: "used_slots g (finish_some g k s) \<le> used_slots g s"
    and finish_slots: "slots g (finish_some g k s) = slots g s"
    and finish_closed: "used_slots g s \<le> slots g s \<Longrightarrow> (closed g s \<Longrightarrow> used_slots g s = slots g s) \<Longrightarrow>
      closed g (finish_some g k s) \<longleftrightarrow> closed g s \<and> used_slots g (finish_some g k s) = used_slots g s"
begin

lemma gate_ok_step: "gate_step g s s' \<Longrightarrow> gate_ok g s \<Longrightarrow> gate_ok g s'"
proof (induction rule: gate_step.induct)
  case (StartOne s j)
  then have "used_slots g s < slots g s" by (auto simp: gate_ok_def)
  with StartOne show ?case
    using start_count [of j s] start_slots [of j s] start_closed [of s j] by (fastforce simp: gate_ok_def)
next
  case (FinishSome s k)
  then show ?case
    using finish_count [of k s] finish_slots [of k s] finish_closed [of s k] by (auto simp: gate_ok_def)
qed

lemma gate_ok_steps: "(gate_step g)\<^sup>*\<^sup>* s s' \<Longrightarrow> gate_ok g s \<Longrightarrow> gate_ok g s'"
  by (induction rule: rtranclp_induct) (auto intro: gate_ok_step)

end

end
