(* ===== verification/Cron_Node.thy ===== *)
theory Cron_Node
  imports Cron_Table Sticky_Manager Capacity_Gate
begin

text \<open>
  One cron partition: \<open>CronQueue\<close> (\<open>src/cron/Queue.cxx\<close>), \<open>CronWorkplace\<close>
  (\<open>src/cron/Workplace.cxx\<close>) and \<open>CronPartition\<close> (\<open>src/cron/Partition.cxx\<close>), with the database
  they work on. A timer is the delay it was scheduled with, or \<open>None\<close>. Calls into other programs
  and libraries that the partition does not see a result of (sending mail, logging to Pond, the idle
  callback, connecting) are appended to the list of actions. Every SQL statement may fail: the
  database carries the list of the failures to come. \<open>Pg::AsyncConnection::CheckError()\<close>, which
  decides about the connection after a failure, is a function of \<open>libcommon\<close> and a parameter,
  as are \<open>random()\<close> and the clock of the event loop.
\<close>

section \<open>State\<close>

record cron_job =
  jb_id :: string
  jb_account_id :: string
  jb_command :: string
  jb_translate_param :: string
  jb_notification :: string
  jb_sticky_id :: string
  jb_timeout :: int

record cron_result =
  res_log :: string
  res_exit_status :: int

definition CronResult_Error :: "string \<Rightarrow> cron_result" where
  "CronResult_Error l = \<lparr>res_log = l, res_exit_status = -1\<rparr>"

record result_row =
  rr_cronjob_id :: string
  rr_node_name :: string
  rr_start_time :: string
  rr_exit_status :: int
  rr_log :: string

record cron_db =
  cd_jobs :: cronjobs
  cd_results :: "result_row list"
  cd_sticky :: "string set"
  cd_have_sticky :: bool
  cd_now :: time_point
  cd_faults :: "bool list"

datatype cron_action = DbConnect | DbDisconnect | SendEmail cron_job cron_result | PondLog string string
  | IdleCallback | Listen string | EmailCancelAll

record cron_queue =
  cq_node_name :: string
  cq_sticky :: bool
  cq_enabled_state :: bool
  cq_enabled_admin :: bool
  cq_disabled_full :: bool
  cq_db_defined :: bool
  cq_db_ready :: bool
  cq_check_notify :: bool
  cq_scheduler_timer :: "int option"
  cq_claim_timer :: "int option"
  cq_next_expire_check :: "int option"

record cron_running =
  rn_key :: nat
  rn_job :: cron_job
  rn_start_time :: string
  rn_start_time2 :: int
  rn_timeout :: "int option"
  rn_site :: string
  rn_tag :: string

record cron_workplace =
  wp_running :: "cron_running list"
  wp_next_key :: nat
  wp_max_operators :: nat
  wp_use_qrelay :: bool
  wp_shutting_down :: bool
  wp_pond :: bool

record cron_node =
  cn_name :: string
  cn_tag :: "string option"
  cn_sticky :: "sticky_manager option"
  cn_queue :: cron_queue
  cn_workplace :: cron_workplace
  cn_default_timeout :: int
  cn_db :: cron_db
  cn_actions :: "cron_action list"

text \<open>What the partition does not own: libraries, random numbers, the clock, the build options.\<close>

record cron_ctx =
  cx_cron :: cron_env
  cx_score :: "int score"
  cx_check_error :: "db_error \<Rightarrow> (bool \<times> bool) option"
  cx_tag_contains :: "string \<Rightarrow> string \<Rightarrow> bool"
  cx_random :: nat
  cx_steady :: int
  cx_server_version :: nat
  cx_sticky_column :: bool

definition act :: "cron_action \<Rightarrow> cron_node \<Rightarrow> cron_node" where
  "act a s = s\<lparr>cn_actions := cn_actions s @ [a]\<rparr>"

definition on_queue :: "(cron_queue \<Rightarrow> cron_queue) \<Rightarrow> cron_node \<Rightarrow> cron_node" where
  "on_queue f s = s\<lparr>cn_queue := f (cn_queue s)\<rparr>"

text \<open>Execute a statement unless it fails. Over a connection that is not established every statement fails.\<close>

definition db_try :: "(cron_db \<Rightarrow> 'a \<times> cron_db) \<Rightarrow> cron_node \<Rightarrow> (db_error + 'a) \<times> cron_node" where
  "db_try f s =
     (let db = cn_db s; db' = db\<lparr>cd_faults := tl (cd_faults db)\<rparr>
      in if \<not> cq_db_ready (cn_queue s) then (Inl SqlError, s)
         else if cd_faults db \<noteq> [] \<and> hd (cd_faults db) then (Inl SqlError, s\<lparr>cn_db := db'\<rparr>)
         else (let (x, db'') = f db' in (Inr x, s\<lparr>cn_db := db''\<rparr>)))"

definition on_jobs :: "(cronjobs \<Rightarrow> 'a \<times> cronjobs) \<Rightarrow> cron_db \<Rightarrow> 'a \<times> cron_db" where
  "on_jobs f db = (let (x, t) = f (cd_jobs db) in (x, db\<lparr>cd_jobs := t\<rparr>))"

definition CronQueue_OnDisconnect :: "cron_queue \<Rightarrow> cron_queue" where
  "CronQueue_OnDisconnect q = q\<lparr>cq_check_notify := False, cq_scheduler_timer := None, cq_claim_timer := None\<rparr>"

text \<open>
  \<open>cx_check_error\<close> tells whether the connection was found to be lost and its state then
  (\<open>IsDefined()\<close>, \<open>IsReady()\<close>); the handler is called in that case.
\<close>

definition CheckError :: "cron_ctx \<Rightarrow> db_error \<Rightarrow> cron_node \<Rightarrow> cron_node" where
  "CheckError cx e s =
     (case cx_check_error cx e of
        None \<Rightarrow> s
      | Some (d, r) \<Rightarrow> on_queue (\<lambda>q. (CronQueue_OnDisconnect q)\<lparr>cq_db_defined := d, cq_db_ready := r\<rparr>) s)"

section \<open>The queue\<close>

definition CronQueue_IsEnabledOrFull :: "cron_queue \<Rightarrow> bool" where
  "CronQueue_IsEnabledOrFull q \<longleftrightarrow> cq_enabled_state q \<and> cq_enabled_admin q"

definition CronQueue_IsEnabled :: "cron_queue \<Rightarrow> bool" where
  "CronQueue_IsEnabled q \<longleftrightarrow> cq_enabled_state q \<and> cq_enabled_admin q \<and> \<not> cq_disabled_full q"

definition CronQueue_ScheduleCheckNotify :: "cron_queue \<Rightarrow> cron_queue" where
  "CronQueue_ScheduleCheckNotify q = q\<lparr>cq_check_notify := True\<rparr>"

definition CronQueue_ScheduleClaim :: "cron_queue \<Rightarrow> cron_queue" where
  "CronQueue_ScheduleClaim q = q\<lparr>cq_claim_timer := Some ns\<rparr>"

definition CronQueue_ScheduleScheduler :: "cron_ctx \<Rightarrow> bool \<Rightarrow> cron_queue \<Rightarrow> cron_queue" where
  "CronQueue_ScheduleScheduler cx immediately q =
     q\<lparr>cq_scheduler_timer := Some (if immediately then 0 else int (cx_random cx mod 5000000) * 1000)\<rparr>"

definition CronQueue_CheckEnabled :: "cron_node \<Rightarrow> cron_node" where
  "CronQueue_CheckEnabled s =
     (let q = cn_queue s
      in if CronQueue_IsEnabled q
         then (if \<not> cq_db_defined q then act DbConnect s
               else if cq_db_ready q then on_queue CronQueue_ScheduleClaim s else s)
         else (if cq_db_defined q \<and> \<not> cq_db_ready q then act DbDisconnect s else s))"

definition CronQueue_SetStateEnabled :: "bool \<Rightarrow> cron_node \<Rightarrow> cron_node" where
  "CronQueue_SetStateEnabled b s =
     (if b = cq_enabled_state (cn_queue s) then s
      else CronQueue_CheckEnabled (on_queue (\<lambda>q. q\<lparr>cq_enabled_state := b\<rparr>) s))"

definition CronQueue_DisableAdmin :: "cron_node \<Rightarrow> cron_node" where
  "CronQueue_DisableAdmin s = on_queue (\<lambda>q. q\<lparr>cq_enabled_admin := False\<rparr>) s"

definition CronQueue_EnableAdmin :: "cron_node \<Rightarrow> cron_node" where
  "CronQueue_EnableAdmin s =
     (if cq_enabled_admin (cn_queue s) then s
      else CronQueue_CheckEnabled (on_queue (\<lambda>q. q\<lparr>cq_enabled_admin := True\<rparr>) s))"

definition CronQueue_DisableFull :: "cron_node \<Rightarrow> cron_node" where
  "CronQueue_DisableFull s = on_queue (\<lambda>q. q\<lparr>cq_disabled_full := True\<rparr>) s"

definition CronQueue_EnableFull :: "cron_node \<Rightarrow> cron_node" where
  "CronQueue_EnableFull s =
     (if \<not> cq_disabled_full (cn_queue s) then s
      else CronQueue_CheckEnabled (on_queue (\<lambda>q. q\<lparr>cq_disabled_full := False\<rparr>) s))"

definition CronQueue_ReleaseStale :: "cron_node \<Rightarrow> (db_error + nat) \<times> cron_node" where
  "CronQueue_ReleaseStale s = db_try (on_jobs (sql_release_stale (cq_node_name (cn_queue s)))) s"

definition CronQueue_Expire :: "cron_node \<Rightarrow> (db_error + nat) \<times> cron_node" where
  "CronQueue_Expire s =
     db_try (on_jobs (sql_cron_expire_jobs (cd_now (cn_db s)) (cq_node_name (cn_queue s)))) s"

text \<open>The insertion of an id that is already present fails.\<close>

definition CronQueue_InsertStickyNonLocal :: "cron_ctx \<Rightarrow> string \<Rightarrow> cron_node \<Rightarrow> cron_node" where
  "CronQueue_InsertStickyNonLocal cx sid s =
     (if \<not> cq_db_ready (cn_queue s) then s
      else (case db_try (\<lambda>db. case StickyTable_InsertNonLocal sid (cd_sticky db) of
                None \<Rightarrow> (False, db) | Some t \<Rightarrow> (True, db\<lparr>cd_sticky := t\<rparr>)) s of
              (Inr True, s') \<Rightarrow> s'
            | (_, s') \<Rightarrow> CheckError cx SqlError s'))"

definition CronQueue_FlushSticky :: "cron_ctx \<Rightarrow> cron_node \<Rightarrow> cron_node" where
  "CronQueue_FlushSticky cx s =
     (if \<not> cq_db_ready (cn_queue s) then s
      else (case db_try (\<lambda>db. ((), db\<lparr>cd_sticky := StickyTable_Flush (cd_sticky db)\<rparr>)) s of
              (Inr _, s') \<Rightarrow> s' | (Inl e, s') \<Rightarrow> CheckError cx e s'))"

text \<open>\<open>None\<close> when \<open>CalculateNextRun()\<close> does not return.\<close>

definition CronQueue_RunScheduler :: "cron_ctx \<Rightarrow> cron_node \<Rightarrow> cron_node option" where
  "CronQueue_RunScheduler cx s =
     (let due = (case cq_next_expire_check (cn_queue s) of None \<Rightarrow> True | Some t \<Rightarrow> t \<le> cx_steady cx);
          (r, s1) = (if due
                     then CronQueue_Expire (on_queue (\<lambda>q. q\<lparr>cq_next_expire_check := Some (cx_steady cx + 60 * ns)\<rparr>) s)
                     else (Inr 0, s))
      in case r of
           Inl e \<Rightarrow> Some (CheckError cx e s1)
         | Inr _ \<Rightarrow>
             (case db_try (\<lambda>db. (CalculateNextRun (cx_cron cx) (cd_now db) (cd_jobs db), db)) s1 of
                (Inl e, s2) \<Rightarrow> Some (CheckError cx e s2)
              | (Inr None, s2) \<Rightarrow> None
              | (Inr (Some (done, t)), s2) \<Rightarrow>
                  (let s3 = s2\<lparr>cn_db := (cn_db s2)\<lparr>cd_jobs := t\<rparr>\<rparr>;
                       s4 = (if done then s3 else on_queue (CronQueue_ScheduleScheduler cx False) s3)
                   in Some (on_queue CronQueue_ScheduleCheckNotify s4))))"

text \<open>
  The value is read as \<open>unsigned long long\<close> and stored in \<open>long long\<close>; \<open>None\<close> is
  \<open>seconds::max()\<close>.
\<close>

definition FindEarliestPending :: "cron_ctx \<Rightarrow> cron_node \<Rightarrow> (db_error + int option) \<times> cron_node" where
  "FindEarliestPending cx s =
     (case db_try (\<lambda>db. (sql_find_earliest_pending (cd_have_sticky db) (cd_sticky db) (cd_now db) (cd_jobs db), db)) s of
        (Inl e, s') \<Rightarrow> (Inl e, s')
      | (Inr None, s') \<Rightarrow> (Inr None, s')
      | (Inr (Some d), s') \<Rightarrow>
          (let text = epoch_out (ce_pg (cx_cron cx)) d; (v, endptr) = strtoul 10 text;
               value = (if v < 2 ^ 63 then int v else int v - 2 ^ 64)
           in (Inr (Some (if endptr = text then 60 else min value 86400)), s')))"

definition CronQueue_Claim :: "cron_ctx \<Rightarrow> cron_job \<Rightarrow> cron_node \<Rightarrow> bool \<times> cron_node" where
  "CronQueue_Claim cx job s =
     (case db_try (on_jobs (sql_cron_claim_job (cd_now (cn_db s)) (jb_id job) (cq_node_name (cn_queue s)) (300 * ns))) s of
        (Inl e, s') \<Rightarrow> (False, CheckError cx e s')
      | (Inr n, s') \<Rightarrow> (n \<noteq> 0, s'))"

definition CronQueue_Finish :: "cron_ctx \<Rightarrow> cron_job \<Rightarrow> cron_node \<Rightarrow> cron_node" where
  "CronQueue_Finish cx job s =
     (case db_try (on_jobs (sql_finish_job (cd_now (cn_db s)) (jb_id job) (cq_node_name (cn_queue s))))
             (on_queue CronQueue_ScheduleCheckNotify s) of
        (Inl e, s') \<Rightarrow> CheckError cx e s'
      | (Inr n, s') \<Rightarrow> s')"

definition CronQueue_InsertResult :: "cron_ctx \<Rightarrow> cron_job \<Rightarrow> string \<Rightarrow> cron_result \<Rightarrow> cron_node \<Rightarrow> cron_node" where
  "CronQueue_InsertResult cx job start_time result s =
     (case db_try (\<lambda>db. ((), db\<lparr>cd_results := cd_results db @ [\<lparr>rr_cronjob_id = jb_id job,
                rr_node_name = cq_node_name (cn_queue s), rr_start_time = start_time,
                rr_exit_status = res_exit_status result, rr_log = res_log result\<rparr>]\<rparr>))
             (on_queue CronQueue_ScheduleCheckNotify s) of
        (Inl e, s') \<Rightarrow> CheckError cx e s'
      | (Inr _, s') \<Rightarrow> s')"

definition CronQueue_GetNow :: "cron_ctx \<Rightarrow> cron_node \<Rightarrow> (db_error + string) \<times> cron_node" where
  "CronQueue_GetNow cx s =
     db_try (\<lambda>db. (timestamp_out (ce_pg (cx_cron cx)) (cd_now db), db)) (on_queue CronQueue_ScheduleCheckNotify s)"

definition CronQueue_OnNotify :: "cron_ctx \<Rightarrow> string \<Rightarrow> cron_queue \<Rightarrow> cron_queue" where
  "CronQueue_OnNotify cx name q =
     (if name = ''cronjobs_modified'' then CronQueue_ScheduleScheduler cx False q
      else if name = ''cronjobs_scheduled'' then CronQueue_ScheduleClaim q else q)"

text \<open>The temporary sticky table is new in every connection.\<close>

definition CronQueue_Prepare :: "cron_ctx \<Rightarrow> cron_node \<Rightarrow> (db_error + unit) \<times> cron_node" where
  "CronQueue_Prepare cx s =
     db_try (\<lambda>db. ((), db\<lparr>cd_have_sticky := cq_sticky (cn_queue s) \<and> cx_sticky_column cx, cd_sticky := StickyTable_Init\<rparr>)) s"

definition db_listen :: "string \<Rightarrow> cron_node \<Rightarrow> (db_error + unit) \<times> cron_node" where
  "db_listen channel s =
     (case db_try (\<lambda>db. ((), db)) s of (Inl e, s') \<Rightarrow> (Inl e, s') | (Inr _, s') \<Rightarrow> (Inr (), act (Listen channel) s'))"

text \<open>The failure of \<open>SET timezone\<close> is logged only.\<close>

definition CronQueue_OnConnect :: "cron_ctx \<Rightarrow> cron_node \<Rightarrow> (db_error + unit) \<times> cron_node" where
  "CronQueue_OnConnect cx s =
     (if cx_server_version cx < 90600 then (Inl SqlError, s)
      else (case CronQueue_Prepare cx s of
        (Inl e, s1) \<Rightarrow> (Inl e, s1)
      | (Inr _, s1) \<Rightarrow> (case db_listen ''cronjobs_modified'' s1 of
          (Inl e, s2) \<Rightarrow> (Inl e, s2)
        | (Inr _, s2) \<Rightarrow> (case db_listen ''cronjobs_scheduled'' s2 of
            (Inl e, s3) \<Rightarrow> (Inl e, s3)
          | (Inr _, s3) \<Rightarrow> (case CronQueue_ReleaseStale (snd (db_try (\<lambda>db. ((), db)) s3)) of
              (Inl e, s4) \<Rightarrow> (Inl e, s4)
            | (Inr _, s4) \<Rightarrow> (Inr (), on_queue (\<lambda>q. CronQueue_ScheduleCheckNotify
                 (CronQueue_ScheduleClaim (CronQueue_ScheduleScheduler cx True q))) s4))))))"

section \<open>The workplace\<close>

definition CronWorkplace_IsEmpty :: "cron_workplace \<Rightarrow> bool" where
  "CronWorkplace_IsEmpty w \<longleftrightarrow> wp_running w = []"

definition CronWorkplace_IsFull :: "cron_workplace \<Rightarrow> bool" where
  "CronWorkplace_IsFull w \<longleftrightarrow> wp_max_operators w \<le> length (wp_running w)"

definition Running_SetResult :: "cron_ctx \<Rightarrow> cron_running \<Rightarrow> cron_result \<Rightarrow> cron_node \<Rightarrow> cron_node" where
  "Running_SetResult cx r result s =
     (let w = cn_workplace s;
          s1 = (if jb_notification (rn_job r) \<noteq> [] \<and> (\<not> wp_use_qrelay w \<or> \<not> wp_shutting_down w)
                then act (SendEmail (rn_job r) result) s else s);
          s2 = (if wp_pond w
                then act (PondLog (if rn_site r = [] then jb_account_id (rn_job r) else rn_site r) (jb_command (rn_job r))) s1
                else s1)
      in CronQueue_InsertResult cx (rn_job r) (rn_start_time r) result (CronQueue_Finish cx (rn_job r) s2))"

definition CronPartition_IsIdle :: "cron_node \<Rightarrow> bool" where
  "CronPartition_IsIdle s = CronWorkplace_IsEmpty (cn_workplace s)"

definition CronPartition_OnChildProcessExit :: "cron_node \<Rightarrow> cron_node" where
  "CronPartition_OnChildProcessExit s =
     (let s1 = (if \<not> CronWorkplace_IsFull (cn_workplace s) then CronQueue_EnableFull s else s)
      in if CronPartition_IsIdle s1 then act IdleCallback s1 else s1)"

definition remove_running :: "nat \<Rightarrow> cron_node \<Rightarrow> cron_node" where
  "remove_running key s =
     s\<lparr>cn_workplace := (cn_workplace s)\<lparr>wp_running := filter (\<lambda>r. rn_key r \<noteq> key) (wp_running (cn_workplace s))\<rparr>\<rparr>"

definition CronWorkplace_OnCompletion :: "cron_running \<Rightarrow> cron_node \<Rightarrow> cron_node" where
  "CronWorkplace_OnCompletion r s = CronPartition_OnChildProcessExit (remove_running (rn_key r) s)"

text \<open>The coroutine ended: it has set its result, or it has thrown.\<close>

definition Running_OnCompletion :: "cron_ctx \<Rightarrow> cron_running \<Rightarrow> string + cron_result \<Rightarrow> cron_node \<Rightarrow> cron_node" where
  "Running_OnCompletion cx r outcome s =
     (case outcome of
        Inl error \<Rightarrow> CronWorkplace_OnCompletion r (Running_SetResult cx r (CronResult_Error error) s)
      | Inr result \<Rightarrow> CronWorkplace_OnCompletion r (Running_SetResult cx r result s))"

definition Running_OnTimeout :: "cron_ctx \<Rightarrow> cron_running \<Rightarrow> cron_node \<Rightarrow> cron_node" where
  "Running_OnTimeout cx r s =
     CronWorkplace_OnCompletion r (Running_SetResult cx r (CronResult_Error ''Timeout'') s)"

definition Running_Cancel :: "cron_ctx \<Rightarrow> cron_running \<Rightarrow> cron_node \<Rightarrow> cron_node" where
  "Running_Cancel cx r s = Running_SetResult cx r (CronResult_Error ''Canceled'') s"

text \<open>Cancel and delete each of the given processes, in the order of the list.\<close>

fun cancel_running :: "cron_ctx \<Rightarrow> cron_running list \<Rightarrow> cron_node \<Rightarrow> cron_node" where
  "cancel_running cx [] s = s"
| "cancel_running cx (r # rs) s = cancel_running cx rs (Running_Cancel cx r (remove_running (rn_key r) s))"

definition CronWorkplace_CancelAll :: "cron_ctx \<Rightarrow> cron_node \<Rightarrow> cron_node" where
  "CronWorkplace_CancelAll cx s =
     (let rs = wp_running (cn_workplace s)
      in if rs = [] then s else CronPartition_OnChildProcessExit (cancel_running cx rs s))"

definition Running_IsTag :: "cron_ctx \<Rightarrow> cron_running \<Rightarrow> string \<Rightarrow> bool" where
  "Running_IsTag cx r tag = cx_tag_contains cx (rn_tag r) tag"

definition CronWorkplace_CancelTag :: "cron_ctx \<Rightarrow> string \<Rightarrow> cron_node \<Rightarrow> cron_node" where
  "CronWorkplace_CancelTag cx tag s =
     (let rs = filter (\<lambda>r. Running_IsTag cx r tag) (wp_running (cn_workplace s))
      in if rs = [] then s else CronPartition_OnChildProcessExit (cancel_running cx rs s))"

definition CronWorkplace_BeginShutdown :: "cron_ctx \<Rightarrow> cron_node \<Rightarrow> cron_node" where
  "CronWorkplace_BeginShutdown cx s =
     CronWorkplace_CancelAll cx (s\<lparr>cn_workplace := (cn_workplace s)\<lparr>wp_shutting_down := True\<rparr>\<rparr>)"

text \<open>A new process, with its timer when the job has a timeout.\<close>

definition CronWorkplace_Start :: "cron_ctx \<Rightarrow> cron_job \<Rightarrow> cron_node \<Rightarrow> (db_error + unit) \<times> cron_node" where
  "CronWorkplace_Start cx job s =
     (case CronQueue_GetNow cx s of
        (Inl e, s') \<Rightarrow> (Inl e, s')
      | (Inr start_time, s') \<Rightarrow>
          (let w = cn_workplace s';
               r = \<lparr>rn_key = wp_next_key w, rn_job = job, rn_start_time = start_time, rn_start_time2 = cx_steady cx,
                    rn_timeout = (if jb_timeout job > 0 then Some (jb_timeout job) else None),
                    rn_site = jb_account_id job, rn_tag = []\<rparr>
           in (Inr (), s'\<lparr>cn_workplace := w\<lparr>wp_running := wp_running w @ [r], wp_next_key := wp_next_key w + 1\<rparr>\<rparr>)))"

section \<open>What a job executes\<close>

text \<open>
  The part of the translation server's response that \<open>MakeOperator()\<close> looks at. The rest of the
  child options is handed to the spawner as it is.
\<close>

record execute_options =
  eo_uid_gid_empty :: bool
  eo_execute :: "string option"
  eo_args :: "string list"
  eo_process_name :: "string option"
  eo_cgroup_name :: "string option"
  eo_tag :: string

record translate_response =
  tr_status :: nat
  tr_message :: "string option"
  tr_execute_options :: "execute_options option"
  tr_site :: "string option"
  tr_timeout :: int

datatype cron_operator = SpawnOperator "string list" "string option" "string option" string | CurlOperator string

datatype operator_error = TranslationFailed | TranslationStatus nat "string option" | NoSpawnerOptions | NoUidGid
  | NoExecute | TooManyAppend

definition starts_with :: "string \<Rightarrow> string \<Rightarrow> bool" where
  "starts_with p s \<longleftrightarrow> take (length p) s = p"

definition IsURL :: "string \<Rightarrow> bool" where
  "IsURL command \<longleftrightarrow> starts_with ''http://'' command \<or> starts_with ''https://'' command"

fun append_args :: "string list \<Rightarrow> string list \<Rightarrow> operator_error + string list" where
  "append_args args [] = Inr args"
| "append_args args (a # as) = (if 4096 \<le> length args then Inl TooManyAppend else append_args (args @ [a]) as)"

definition MakeSpawnOperator ::
  "bool \<Rightarrow> cron_job \<Rightarrow> string option \<Rightarrow> execute_options \<Rightarrow> string option \<Rightarrow> operator_error + cron_operator" where
  "MakeSpawnOperator debug_mode job command options site =
     (let args0 = (case command of Some c \<Rightarrow> [''/bin/sh'', ''-c'', c] | None \<Rightarrow> [])
      in if eo_uid_gid_empty options \<and> \<not> debug_mode then Inl NoUidGid
         else then_do (case command of
                         Some _ \<Rightarrow> Inr args0
                       | None \<Rightarrow> (case eo_execute options of
                                    None \<Rightarrow> Inl NoExecute
                                  | Some x \<Rightarrow> append_args (args0 @ [x]) (eo_args options)))
                (\<lambda>args. Inr (SpawnOperator args (eo_process_name options)
                   (case eo_cgroup_name options of None \<Rightarrow> None | Some _ \<Rightarrow> Some (jb_id job))
                   (case site of None \<Rightarrow> jb_account_id job | Some x \<Rightarrow> x))))"

text \<open>\<open>None\<close> is a failed translation request.\<close>

definition MakeOperator ::
  "bool \<Rightarrow> translate_response option \<Rightarrow> cron_running \<Rightarrow> (operator_error + cron_operator) \<times> cron_running" where
  "MakeOperator debug_mode resp r =
     (let job = rn_job r; uri = starts_with ''urn:'' (jb_command job)
      in case resp of
           None \<Rightarrow> (Inl TranslationFailed, r)
         | Some t \<Rightarrow>
             if tr_status t \<noteq> 0 then (Inl (TranslationStatus (tr_status t) (tr_message t)), r)
             else (case tr_execute_options t of
                     None \<Rightarrow> (Inl NoSpawnerOptions, r)
                   | Some options \<Rightarrow>
                       (let r1 = (case tr_site t of None \<Rightarrow> r | Some x \<Rightarrow> r\<lparr>rn_site := x\<rparr>);
                            r2 = (if eo_tag options \<noteq> [] then r1\<lparr>rn_tag := eo_tag options\<rparr> else r1);
                            r3 = (if tr_timeout t > 0 then r2\<lparr>rn_timeout := Some (tr_timeout t)\<rparr> else r2)
                        in (if IsURL (jb_command job) then Inr (CurlOperator (jb_command job))
                            else MakeSpawnOperator debug_mode job (if uri then None else Some (jb_command job)) options (tr_site t),
                            r3))))"

text \<open>
  The coroutine of a process: its outcome, and the process with what the translation server has
  changed. \<open>message\<close> is \<open>GetFullMessage()\<close> of \<open>libcommon\<close>; \<open>run\<close> is the operator's
  execution, an error or a result.
\<close>

definition Running_CoStart ::
  "(operator_error \<Rightarrow> string) \<Rightarrow> bool \<Rightarrow> (cron_operator \<Rightarrow> string + cron_result) \<Rightarrow> translate_response option \<Rightarrow> cron_running
   \<Rightarrow> (string + cron_result) \<times> cron_running" where
  "Running_CoStart message debug_mode run resp r =
     (case MakeOperator debug_mode resp r of
        (Inl e, r') \<Rightarrow> (Inl (message e), r')
      | (Inr op, r') \<Rightarrow> (run op, r'))"

section \<open>The partition\<close>

definition CronQueue_init :: "string \<Rightarrow> bool \<Rightarrow> cron_queue" where
  "CronQueue_init node_name sticky = \<lparr>cq_node_name = node_name, cq_sticky = sticky, cq_enabled_state = False,
     cq_enabled_admin = True, cq_disabled_full = False, cq_db_defined = False, cq_db_ready = False, cq_check_notify = False,
     cq_scheduler_timer = None, cq_claim_timer = None, cq_next_expire_check = None\<rparr>"

definition CronWorkplace_init :: "bool \<Rightarrow> bool \<Rightarrow> nat \<Rightarrow> cron_workplace" where
  "CronWorkplace_init use_qrelay pond max_operators = \<lparr>wp_running = [], wp_next_key = 0, wp_max_operators = max_operators,
     wp_use_qrelay = use_qrelay, wp_shutting_down = False, wp_pond = pond\<rparr>"

text \<open>The configuration of a partition, with the node name and the concurrency of the root.\<close>

record cron_partition_setup =
  cp_name :: string
  cp_tag :: string
  cp_sticky :: bool
  cp_use_qrelay :: bool
  cp_pond :: bool
  cp_default_timeout :: int
  cp_node_name :: string
  cp_concurrency :: nat

definition CronPartition_init :: "cron_partition_setup \<Rightarrow> cron_db \<Rightarrow> cron_node" where
  "CronPartition_init c db = \<lparr>cn_name = cp_name c, cn_tag = (if cp_tag c = [] then None else Some (cp_tag c)),
     cn_sticky = (if cp_sticky c then Some sticky_init else None),
     cn_queue = CronQueue_init (cp_node_name c) (cp_sticky c),
     cn_workplace = CronWorkplace_init (cp_use_qrelay c) (cp_pond c) (cp_concurrency c),
     cn_default_timeout = cp_default_timeout c, cn_db = db, cn_actions = []\<rparr>"

definition CronPartition_EnableDisableSticky :: "cron_node \<Rightarrow> cron_node" where
  "CronPartition_EnableDisableSticky s =
     (case cn_sticky s of
        None \<Rightarrow> s
      | Some m \<Rightarrow> s\<lparr>cn_sticky := Some (if CronQueue_IsEnabledOrFull (cn_queue s) then Sticky_Enable m else Sticky_Disable m)\<rparr>)"

definition CronPartition_SetStateEnabled :: "bool \<Rightarrow> cron_node \<Rightarrow> cron_node" where
  "CronPartition_SetStateEnabled b s = CronPartition_EnableDisableSticky (CronQueue_SetStateEnabled b s)"

definition CronPartition_DisableQueue :: "cron_node \<Rightarrow> cron_node" where
  "CronPartition_DisableQueue s = CronPartition_EnableDisableSticky (CronQueue_DisableAdmin s)"

definition CronPartition_EnableQueue :: "cron_node \<Rightarrow> cron_node" where
  "CronPartition_EnableQueue s = CronPartition_EnableDisableSticky (CronQueue_EnableAdmin s)"

definition CronPartition_TerminateChildren :: "cron_ctx \<Rightarrow> string \<Rightarrow> cron_node \<Rightarrow> cron_node" where
  "CronPartition_TerminateChildren cx tag s = CronWorkplace_CancelTag cx tag s"

definition CronPartition_OnStickyChanged :: "cron_ctx \<Rightarrow> cron_node \<Rightarrow> cron_node" where
  "CronPartition_OnStickyChanged cx s = CronQueue_FlushSticky cx s"

definition CronPartition_BeginShutdown :: "cron_ctx \<Rightarrow> cron_node \<Rightarrow> cron_node" where
  "CronPartition_BeginShutdown cx s =
     act EmailCancelAll (CronWorkplace_BeginShutdown cx
       (CronQueue_DisableAdmin (s\<lparr>cn_sticky := map_option Sticky_BeginShutdown (cn_sticky s)\<rparr>)))"

text \<open>The rest of \<open>OnJob()\<close> when the job may run here.\<close>

definition CronPartition_StartJob :: "cron_ctx \<Rightarrow> cron_job \<Rightarrow> cron_node \<Rightarrow> cron_node" where
  "CronPartition_StartJob cx job0 s =
     (let job = (if jb_timeout job0 \<le> 0 then job0\<lparr>jb_timeout := cn_default_timeout s\<rparr> else job0);
          (claimed, s1) = CronQueue_Claim cx job s
      in if \<not> claimed then s1
         else (let s2 = snd (CronWorkplace_Start cx job s1)
               in if CronWorkplace_IsFull (cn_workplace s2) then CronQueue_DisableFull s2 else s2))"

definition CronPartition_OnJob :: "cron_ctx \<Rightarrow> cron_job \<Rightarrow> cron_node \<Rightarrow> cron_node" where
  "CronPartition_OnJob cx job s =
     (case cn_sticky s of
        Some m \<Rightarrow>
          if jb_sticky_id job \<noteq> [] \<and> \<not> snd (IsLocal (cx_score cx) m (jb_sticky_id job))
          then CronQueue_InsertStickyNonLocal cx (jb_sticky_id job) s
          else CronPartition_StartJob cx job s
      | None \<Rightarrow> CronPartition_StartJob cx job s)"

section \<open>Claiming pending jobs\<close>

definition cron_job_of :: "cron_node \<Rightarrow> cron_row \<Rightarrow> cron_job" where
  "cron_job_of s r = (let str = (\<lambda>x. case x of None \<Rightarrow> [] | Some v \<Rightarrow> v)
     in \<lparr>jb_id = cj_id r, jb_account_id = cj_account_id r, jb_command = cj_command r,
         jb_translate_param = str (cj_translate_param r), jb_notification = str (cj_notification r),
         jb_sticky_id = (if cd_have_sticky (cn_db s) then str (cj_sticky_id r) else []), jb_timeout = 0\<rparr>)"

fun CheckPendingRows :: "cron_ctx \<Rightarrow> cron_job list \<Rightarrow> cron_node \<Rightarrow> bool \<times> cron_node" where
  "CheckPendingRows cx [] s = (True, s)"
| "CheckPendingRows cx (job # rest) s =
     (let s' = CronPartition_OnJob cx job s
      in if \<not> CronQueue_IsEnabled (cn_queue s') then (False, s') else CheckPendingRows cx rest s')"

definition CronQueue_CheckPending :: "cron_ctx \<Rightarrow> cron_node \<Rightarrow> (db_error + bool) \<times> cron_node" where
  "CronQueue_CheckPending cx s =
     (if \<not> CronQueue_IsEnabled (cn_queue s) then (Inr False, s)
      else (case db_try (\<lambda>db. (sql_check_pending (cd_have_sticky db) (cd_sticky db) (cd_now db) (cd_jobs db), db)) s of
              (Inl e, s') \<Rightarrow> (Inl e, s')
            | (Inr rows, s') \<Rightarrow>
                if rows = [] then (Inr False, s')
                else (let (b, s'') = CheckPendingRows cx (map (cron_job_of s') rows) s' in (Inr b, s''))))"

text \<open>One pass through the loop of \<open>RunClaim()\<close>: return, \<open>break\<close>, or once more.\<close>

datatype claim_pass = ClaimReturn cron_node | ClaimBreak cron_node | ClaimAgain cron_node

definition RunClaimPass :: "cron_ctx \<Rightarrow> cron_node \<Rightarrow> claim_pass" where
  "RunClaimPass cx s =
     (case FindEarliestPending cx s of
        (Inl e, s1) \<Rightarrow> ClaimReturn (CheckError cx e s1)
      | (Inr None, s1) \<Rightarrow> ClaimReturn s1
      | (Inr (Some delta), s1) \<Rightarrow>
          if delta > 0
          then ClaimReturn (on_queue (\<lambda>q. q\<lparr>cq_claim_timer := Some (delta * ns + int (cx_random cx mod 30000000) * 1000)\<rparr>) s1)
          else (case CronQueue_CheckPending cx s1 of
                  (Inl e, s2) \<Rightarrow> ClaimReturn (CheckError cx e s2)
                | (Inr b, s2) \<Rightarrow> if b then ClaimAgain s2 else ClaimBreak s2))"

partial_function (option) RunClaimLoop :: "cron_ctx \<Rightarrow> cron_node \<Rightarrow> cron_node option" where
  "RunClaimLoop cx s =
     (case RunClaimPass cx s of
        ClaimReturn s' \<Rightarrow> Some s'
      | ClaimBreak s' \<Rightarrow> Some (on_queue (\<lambda>q. CronQueue_ScheduleCheckNotify (CronQueue_ScheduleClaim q)) s')
      | ClaimAgain s' \<Rightarrow> RunClaimLoop cx s')"

definition CronQueue_RunClaim :: "cron_ctx \<Rightarrow> cron_node \<Rightarrow> cron_node option" where
  "CronQueue_RunClaim cx s = (if \<not> CronQueue_IsEnabled (cn_queue s) then Some s else RunClaimLoop cx s)"

section \<open>Frame rules\<close>

text \<open>What the operations leave alone. \<open>flags\<close> are the three switches of the queue.\<close>

definition cq_flags :: "cron_node \<Rightarrow> bool \<times> bool \<times> bool" where
  "cq_flags s = (cq_enabled_state (cn_queue s), cq_enabled_admin (cn_queue s), cq_disabled_full (cn_queue s))"

lemma act_frame [simp]:
  "cn_queue (act a s) = cn_queue s" "cn_workplace (act a s) = cn_workplace s" "cn_db (act a s) = cn_db s"
  "cn_sticky (act a s) = cn_sticky s" "cn_default_timeout (act a s) = cn_default_timeout s"
  by (simp_all add: act_def)

lemma on_queue_frame [simp]:
  "cn_queue (on_queue f s) = f (cn_queue s)" "cn_workplace (on_queue f s) = cn_workplace s" "cn_db (on_queue f s) = cn_db s"
  "cn_sticky (on_queue f s) = cn_sticky s" "cn_default_timeout (on_queue f s) = cn_default_timeout s"
  by (simp_all add: on_queue_def)

lemma db_try_frame [simp]:
  "cn_queue (snd (db_try f s)) = cn_queue s" "cn_workplace (snd (db_try f s)) = cn_workplace s"
  "cn_sticky (snd (db_try f s)) = cn_sticky s" "cn_default_timeout (snd (db_try f s)) = cn_default_timeout s"
  by (simp_all add: db_try_def Let_def case_prod_beta)

lemma CheckError_frame [simp]:
  "cn_workplace (CheckError cx e s) = cn_workplace s" "cn_db (CheckError cx e s) = cn_db s"
  "cn_sticky (CheckError cx e s) = cn_sticky s" "cn_default_timeout (CheckError cx e s) = cn_default_timeout s"
  "cq_flags (CheckError cx e s) = cq_flags s" "cq_node_name (cn_queue (CheckError cx e s)) = cq_node_name (cn_queue s)"
  by (auto simp: CheckError_def cq_flags_def CronQueue_OnDisconnect_def split: option.splits)

lemma cq_flags_frame [simp]:
  "cq_flags (act a s) = cq_flags s" "cq_flags (snd (db_try f s)) = cq_flags s"
  "cq_flags (on_queue CronQueue_ScheduleCheckNotify s) = cq_flags s"
  "cq_flags (s\<lparr>cn_workplace := w\<rparr>) = cq_flags s" "cq_flags (s\<lparr>cn_db := d\<rparr>) = cq_flags s"
  by (simp_all add: cq_flags_def CronQueue_ScheduleCheckNotify_def)

lemma db_try_cases:
  obtains (fault) s' fs where "db_try f s = (Inl SqlError, s')"
      "cn_db s' = (cn_db s)\<lparr>cd_faults := fs\<rparr>" "length fs \<le> length (cd_faults (cn_db s))"
      "cd_faults (cn_db s) = [] \<Longrightarrow> \<not> cq_db_ready (cn_queue s)"
      "cn_queue s' = cn_queue s" "cn_workplace s' = cn_workplace s" "cn_sticky s' = cn_sticky s"
    | (ok) s' where "db_try f s = (Inr (fst (f ((cn_db s)\<lparr>cd_faults := tl (cd_faults (cn_db s))\<rparr>))), s')"
      "cn_db s' = snd (f ((cn_db s)\<lparr>cd_faults := tl (cd_faults (cn_db s))\<rparr>))" "cq_db_ready (cn_queue s)"
      "cn_queue s' = cn_queue s" "cn_workplace s' = cn_workplace s" "cn_sticky s' = cn_sticky s"
proof -
  have frame: "cn_queue (snd (db_try f s)) = cn_queue s" "cn_workplace (snd (db_try f s)) = cn_workplace s"
    "cn_sticky (snd (db_try f s)) = cn_sticky s" by simp_all
  consider (down) "\<not> cq_db_ready (cn_queue s)" | (err) "cq_db_ready (cn_queue s)" "cd_faults (cn_db s) \<noteq> []" "hd (cd_faults (cn_db s))"
    | (good) "cq_db_ready (cn_queue s)" "\<not> (cd_faults (cn_db s) \<noteq> [] \<and> hd (cd_faults (cn_db s)))" by blast
  then show thesis
  proof cases
    case down
    then show thesis by (intro fault [of "snd (db_try f s)" "cd_faults (cn_db s)"] frame) (simp_all add: db_try_def Let_def)
  next
    case err
    then show thesis by (intro fault [of "snd (db_try f s)" "tl (cd_faults (cn_db s))"] frame) (simp_all add: db_try_def Let_def)
  next
    case good
    then show thesis by (intro ok [of "snd (db_try f s)"] frame) (auto simp: db_try_def Let_def case_prod_beta)
  qed
qed

lemma CronQueue_CheckEnabled_frame [simp]:
  "cn_workplace (CronQueue_CheckEnabled s) = cn_workplace s" "cn_db (CronQueue_CheckEnabled s) = cn_db s"
  "cn_sticky (CronQueue_CheckEnabled s) = cn_sticky s" "cq_flags (CronQueue_CheckEnabled s) = cq_flags s"
  "cq_node_name (cn_queue (CronQueue_CheckEnabled s)) = cq_node_name (cn_queue s)"
  by (simp_all add: CronQueue_CheckEnabled_def Let_def cq_flags_def CronQueue_ScheduleClaim_def)

lemma CronQueue_EnableFull_frame [simp]:
  "cn_workplace (CronQueue_EnableFull s) = cn_workplace s" "cn_db (CronQueue_EnableFull s) = cn_db s"
  "cq_node_name (cn_queue (CronQueue_EnableFull s)) = cq_node_name (cn_queue s)"
  "cq_flags (CronQueue_EnableFull s) = (cq_enabled_state (cn_queue s), cq_enabled_admin (cn_queue s), False)"
proof -
  show "cq_flags (CronQueue_EnableFull s) = (cq_enabled_state (cn_queue s), cq_enabled_admin (cn_queue s), False)"
    using CronQueue_CheckEnabled_frame(4) [of "on_queue (\<lambda>q. q\<lparr>cq_disabled_full := False\<rparr>) s"]
    by (auto simp: CronQueue_EnableFull_def cq_flags_def)
qed (simp_all add: CronQueue_EnableFull_def)

lemma CronQueue_Claim_frame [simp]:
  "cn_workplace (snd (CronQueue_Claim cx job s)) = cn_workplace s" "cq_flags (snd (CronQueue_Claim cx job s)) = cq_flags s"
  by (rule db_try_cases [of "on_jobs (sql_cron_claim_job (cd_now (cn_db s)) (jb_id job) (cq_node_name (cn_queue s)) (300 * ns))" s];
      simp add: CronQueue_Claim_def; simp add: cq_flags_def)+

lemma CronQueue_Finish_frame [simp]:
  "cn_workplace (CronQueue_Finish cx job s) = cn_workplace s" "cq_flags (CronQueue_Finish cx job s) = cq_flags s"
  by (simp_all only: CronQueue_Finish_def case_prod_beta) (simp_all split: sum.splits)

lemma CronQueue_InsertResult_frame [simp]:
  "cn_workplace (CronQueue_InsertResult cx job st res s) = cn_workplace s"
  "cq_flags (CronQueue_InsertResult cx job st res s) = cq_flags s"
  by (simp_all only: CronQueue_InsertResult_def case_prod_beta) (simp_all split: sum.splits)

lemma CronQueue_GetNow_frame [simp]:
  "cn_workplace (snd (CronQueue_GetNow cx s)) = cn_workplace s" "cq_flags (snd (CronQueue_GetNow cx s)) = cq_flags s"
  by (simp_all add: CronQueue_GetNow_def)

lemma CronQueue_InsertStickyNonLocal_frame [simp]:
  "cn_workplace (CronQueue_InsertStickyNonLocal cx sid s) = cn_workplace s"
  "cq_flags (CronQueue_InsertStickyNonLocal cx sid s) = cq_flags s"
  by (simp_all only: CronQueue_InsertStickyNonLocal_def case_prod_beta) (simp_all split: sum.splits bool.splits)

lemma Running_SetResult_frame [simp]:
  "cn_workplace (Running_SetResult cx r res s) = cn_workplace s" "cq_flags (Running_SetResult cx r res s) = cq_flags s"
  by (simp_all add: Running_SetResult_def Let_def)

text \<open>The flag after a process exit, and the number of processes after each handler.\<close>

definition disabled_full :: "cron_node \<Rightarrow> bool" where
  "disabled_full s = cq_disabled_full (cn_queue s)"

definition slots_used :: "cron_node \<Rightarrow> nat" where
  "slots_used s = length (wp_running (cn_workplace s))"

definition slots_max :: "cron_node \<Rightarrow> nat" where
  "slots_max s = wp_max_operators (cn_workplace s)"

lemma disabled_full_flags: "disabled_full s = snd (snd (cq_flags s))"
  by (simp add: disabled_full_def cq_flags_def)

lemma gate_fields_frame [simp]:
  "slots_used (Running_SetResult cx r res s) = slots_used s" "slots_max (Running_SetResult cx r res s) = slots_max s"
  "disabled_full (Running_SetResult cx r res s) = disabled_full s"
  "slots_used (snd (CronQueue_Claim cx job s)) = slots_used s" "slots_max (snd (CronQueue_Claim cx job s)) = slots_max s"
  "disabled_full (snd (CronQueue_Claim cx job s)) = disabled_full s"
  "slots_used (CronQueue_InsertStickyNonLocal cx sid s) = slots_used s" "slots_max (CronQueue_InsertStickyNonLocal cx sid s) = slots_max s"
  "disabled_full (CronQueue_InsertStickyNonLocal cx sid s) = disabled_full s"
  by (simp_all add: slots_used_def slots_max_def disabled_full_flags)

lemma remove_running_frame [simp]:
  "slots_max (remove_running k s) = slots_max s" "disabled_full (remove_running k s) = disabled_full s"
  "cn_queue (remove_running k s) = cn_queue s" "cn_db (remove_running k s) = cn_db s"
  "slots_used (remove_running k s) \<le> slots_used s"
  by (simp_all add: remove_running_def slots_max_def disabled_full_def slots_used_def)

lemma OnChildProcessExit_gate [simp]:
  "slots_used (CronPartition_OnChildProcessExit s) = slots_used s" "slots_max (CronPartition_OnChildProcessExit s) = slots_max s"
  "disabled_full (CronPartition_OnChildProcessExit s) \<longleftrightarrow> disabled_full s \<and> slots_max s \<le> slots_used s"
proof -
  have "disabled_full (CronQueue_EnableFull s) = False"
    using CronQueue_EnableFull_frame(4) [of s] by (simp add: cq_flags_def disabled_full_def)
  then show "disabled_full (CronPartition_OnChildProcessExit s) \<longleftrightarrow> disabled_full s \<and> slots_max s \<le> slots_used s"
    by (auto simp: CronPartition_OnChildProcessExit_def Let_def CronWorkplace_IsFull_def slots_max_def slots_used_def
        disabled_full_flags)
qed (simp_all add: CronPartition_OnChildProcessExit_def Let_def slots_used_def slots_max_def)

lemma cancel_running_gate:
  "slots_max (cancel_running cx rs s) = slots_max s \<and> disabled_full (cancel_running cx rs s) = disabled_full s
    \<and> slots_used (cancel_running cx rs s) \<le> slots_used s"
proof (induction rs arbitrary: s)
  case (Cons r rs)
  show ?case
    using Cons [of "Running_Cancel cx r (remove_running (rn_key r) s)"] remove_running_frame(5) [of "rn_key r" s]
    by (simp add: Running_Cancel_def del: remove_running_frame(5))
qed simp

text \<open>Removing a process that is in the list makes the list shorter.\<close>

lemma remove_running_less: "r \<in> set (wp_running (cn_workplace s)) \<Longrightarrow> slots_used (remove_running (rn_key r) s) < slots_used s"
  by (auto simp: remove_running_def slots_used_def intro: length_filter_less)

lemma cancel_running_less:
  assumes "rs \<noteq> []" and "hd rs \<in> set (wp_running (cn_workplace s))"
  shows "slots_used (cancel_running cx rs s) < slots_used s"
proof -
  obtain r rs' where rs: "rs = r # rs'" using assms(1) by (cases rs) auto
  have "slots_used (cancel_running cx rs' (Running_Cancel cx r (remove_running (rn_key r) s)))
      \<le> slots_used (Running_Cancel cx r (remove_running (rn_key r) s))" by (simp add: cancel_running_gate)
  also have "\<dots> < slots_used s"
    using remove_running_less [of r s] assms(2) by (simp add: rs Running_Cancel_def)
  finally show ?thesis by (simp add: rs)
qed

lemma CronWorkplace_Start_gate:
  "slots_max (snd (CronWorkplace_Start cx job s)) = slots_max s"
  "disabled_full (snd (CronWorkplace_Start cx job s)) = disabled_full s"
  "slots_used (snd (CronWorkplace_Start cx job s)) = slots_used s \<or> slots_used (snd (CronWorkplace_Start cx job s)) = slots_used s + 1"
  by (simp_all add: CronWorkplace_Start_def case_prod_beta Let_def slots_max_def slots_used_def disabled_full_flags split: sum.splits)

lemma CronQueue_DisableFull_gate:
  "slots_max (CronQueue_DisableFull s) = slots_max s" "slots_used (CronQueue_DisableFull s) = slots_used s"
  "disabled_full (CronQueue_DisableFull s)"
  by (simp_all add: CronQueue_DisableFull_def slots_max_def slots_used_def disabled_full_def)

lemma CronPartition_StartJob_gate:
  "slots_max (CronPartition_StartJob cx job s) = slots_max s"
  "slots_used (CronPartition_StartJob cx job s) = slots_used s \<or> slots_used (CronPartition_StartJob cx job s) = slots_used s + 1"
  "slots_used s < slots_max s \<Longrightarrow> \<not> disabled_full s \<Longrightarrow>
     disabled_full (CronPartition_StartJob cx job s) \<longleftrightarrow> slots_max s \<le> slots_used (CronPartition_StartJob cx job s)"
proof -
  define j where "j = (if jb_timeout job \<le> 0 then job\<lparr>jb_timeout := cn_default_timeout s\<rparr> else job)"
  define s1 where "s1 = snd (CronQueue_Claim cx j s)"
  define s2 where "s2 = snd (CronWorkplace_Start cx j s1)"
  have eq: "CronPartition_StartJob cx job s =
      (if \<not> fst (CronQueue_Claim cx j s) then s1
       else if CronWorkplace_IsFull (cn_workplace s2) then CronQueue_DisableFull s2 else s2)"
    by (simp add: CronPartition_StartJob_def case_prod_beta Let_def j_def s1_def s2_def)
  have s1: "slots_max s1 = slots_max s" "slots_used s1 = slots_used s" "disabled_full s1 = disabled_full s"
    by (simp_all add: s1_def)
  have s2: "slots_max s2 = slots_max s" "disabled_full s2 = disabled_full s" "slots_used s2 = slots_used s \<or> slots_used s2 = slots_used s + 1"
    using CronWorkplace_Start_gate [of cx j s1] s1 by (simp_all add: s2_def)
  have full: "CronWorkplace_IsFull (cn_workplace s2) \<longleftrightarrow> slots_max s2 \<le> slots_used s2"
    by (simp add: CronWorkplace_IsFull_def slots_max_def slots_used_def)
  show "slots_max (CronPartition_StartJob cx job s) = slots_max s"
    by (simp add: eq s1 s2(1) CronQueue_DisableFull_gate)
  show "slots_used (CronPartition_StartJob cx job s) = slots_used s \<or> slots_used (CronPartition_StartJob cx job s) = slots_used s + 1"
    using s2(3) by (simp add: eq s1 CronQueue_DisableFull_gate)
  show "slots_used s < slots_max s \<Longrightarrow> \<not> disabled_full s \<Longrightarrow>
     disabled_full (CronPartition_StartJob cx job s) \<longleftrightarrow> slots_max s \<le> slots_used (CronPartition_StartJob cx job s)"
    using s2 by (auto simp: eq s1 CronQueue_DisableFull_gate full)
qed

lemma CronPartition_OnJob_cases:
  obtains "CronPartition_OnJob cx job s = CronQueue_InsertStickyNonLocal cx (jb_sticky_id job) s"
  | "CronPartition_OnJob cx job s = CronPartition_StartJob cx job s"
proof -
  have "CronPartition_OnJob cx job s = CronQueue_InsertStickyNonLocal cx (jb_sticky_id job) s
      \<or> CronPartition_OnJob cx job s = CronPartition_StartJob cx job s"
    by (simp add: CronPartition_OnJob_def split: option.split)
  then show thesis using that by blast
qed

lemma CronPartition_OnJob_gate:
  "slots_max (CronPartition_OnJob cx job s) = slots_max s"
  "slots_used (CronPartition_OnJob cx job s) = slots_used s \<or> slots_used (CronPartition_OnJob cx job s) = slots_used s + 1"
  "slots_used s < slots_max s \<Longrightarrow> \<not> disabled_full s \<Longrightarrow>
     disabled_full (CronPartition_OnJob cx job s) \<longleftrightarrow> slots_max s \<le> slots_used (CronPartition_OnJob cx job s)"
proof -
  consider "CronPartition_OnJob cx job s = CronQueue_InsertStickyNonLocal cx (jb_sticky_id job) s"
    | "CronPartition_OnJob cx job s = CronPartition_StartJob cx job s"
    by (rule CronPartition_OnJob_cases)
  note cases = this
  show "slots_max (CronPartition_OnJob cx job s) = slots_max s"
    using cases by cases (simp_all only: gate_fields_frame CronPartition_StartJob_gate(1))
  show "slots_used (CronPartition_OnJob cx job s) = slots_used s \<or> slots_used (CronPartition_OnJob cx job s) = slots_used s + 1"
    using cases by cases (simp_all only: gate_fields_frame CronPartition_StartJob_gate(2), simp)
  show "slots_used s < slots_max s \<Longrightarrow> \<not> disabled_full s \<Longrightarrow>
     disabled_full (CronPartition_OnJob cx job s) \<longleftrightarrow> slots_max s \<le> slots_used (CronPartition_OnJob cx job s)"
    by (rule cases; simp only: gate_fields_frame) (auto dest: CronPartition_StartJob_gate(3) [of s cx job])
qed

section \<open>Capacity\<close>

text \<open>The ways in which processes end.\<close>

datatype cron_exit = ExitCompletion cron_running "string + cron_result" | ExitTimeout cron_running
  | ExitCancelAll | ExitCancelTag string

fun cron_exit_run :: "cron_ctx \<Rightarrow> cron_exit \<Rightarrow> cron_node \<Rightarrow> cron_node" where
  "cron_exit_run cx (ExitCompletion r outcome) s = Running_OnCompletion cx r outcome s"
| "cron_exit_run cx (ExitTimeout r) s = Running_OnTimeout cx r s"
| "cron_exit_run cx ExitCancelAll s = CronWorkplace_CancelAll cx s"
| "cron_exit_run cx (ExitCancelTag tag) s = CronWorkplace_CancelTag cx tag s"

definition cron_gate_ops :: "cron_ctx \<Rightarrow> (cron_node, cron_job, cron_exit) gate_ops" where
  "cron_gate_ops cx = \<lparr>used_slots = slots_used, slots = slots_max, closed = disabled_full,
     start_one = CronPartition_OnJob cx, finish_some = cron_exit_run cx\<rparr>"

text \<open>Every exit handler ends in \<open>OnChildProcessExit()\<close>, after at most one process fewer is in the list.\<close>

lemma cron_exit_run_cases:
  obtains "cron_exit_run cx k s = s"
  | t where "cron_exit_run cx k s = CronPartition_OnChildProcessExit t"
      "slots_max t = slots_max s" "disabled_full t = disabled_full s" "slots_used t \<le> slots_used s"
proof (cases k)
  case (ExitCompletion r outcome)
  then show ?thesis using that(2) [of "remove_running (rn_key r) (Running_SetResult cx r (case outcome of Inl e \<Rightarrow> CronResult_Error e | Inr x \<Rightarrow> x) s)"]
      remove_running_frame(5) [of "rn_key r" "Running_SetResult cx r (case outcome of Inl e \<Rightarrow> CronResult_Error e | Inr x \<Rightarrow> x) s"]
    by (simp add: Running_OnCompletion_def CronWorkplace_OnCompletion_def del: remove_running_frame(5) split: sum.splits)
next
  case (ExitTimeout r)
  then show ?thesis using that(2) [of "remove_running (rn_key r) (Running_SetResult cx r (CronResult_Error ''Timeout'') s)"]
      remove_running_frame(5) [of "rn_key r" "Running_SetResult cx r (CronResult_Error ''Timeout'') s"]
    by (simp add: Running_OnTimeout_def CronWorkplace_OnCompletion_def del: remove_running_frame(5))
next
  case ExitCancelAll
  then show ?thesis using that(1) that(2) [of "cancel_running cx (wp_running (cn_workplace s)) s"]
    by (cases "wp_running (cn_workplace s) = []") (simp_all add: CronWorkplace_CancelAll_def Let_def cancel_running_gate)
next
  case (ExitCancelTag tag)
  then show ?thesis
    using that(1) that(2) [of "cancel_running cx (filter (\<lambda>r. Running_IsTag cx r tag) (wp_running (cn_workplace s))) s"]
    by (cases "filter (\<lambda>r. Running_IsTag cx r tag) (wp_running (cn_workplace s)) = []")
      (simp_all add: CronWorkplace_CancelTag_def Let_def cancel_running_gate)
qed

interpretation cron_gate: capacity_gate "cron_gate_ops cx" for cx
proof
  fix j k and s :: cron_node
  let ?g = "cron_gate_ops cx"
  show "used_slots ?g (start_one ?g j s) \<le> used_slots ?g s + 1"
    "slots ?g (start_one ?g j s) = slots ?g s"
    "used_slots ?g s < slots ?g s \<Longrightarrow> \<not> closed ?g s \<Longrightarrow>
      closed ?g (start_one ?g j s) \<longleftrightarrow> slots ?g s \<le> used_slots ?g (start_one ?g j s)"
    using CronPartition_OnJob_gate(1,2) [of cx j s] CronPartition_OnJob_gate(3) [of s cx j] by (auto simp: cron_gate_ops_def)
  show "used_slots ?g (finish_some ?g k s) \<le> used_slots ?g s" "slots ?g (finish_some ?g k s) = slots ?g s"
    by (rule cron_exit_run_cases [of cx k s]; simp add: cron_gate_ops_def)+
  show "used_slots ?g s \<le> slots ?g s \<Longrightarrow> (closed ?g s \<Longrightarrow> used_slots ?g s = slots ?g s) \<Longrightarrow>
      closed ?g (finish_some ?g k s) \<longleftrightarrow> closed ?g s \<and> used_slots ?g (finish_some ?g k s) = used_slots ?g s"
    by (rule cron_exit_run_cases [of cx k s]) (auto simp: cron_gate_ops_def)
qed

end
