(* ===== verification/Cron_Run.thy ===== *)
theory Cron_Run
  imports Cron_Node
begin

text \<open>
  Properties of the cron partition of \<open>Cron_Node\<close>: the loop of \<open>CronQueue::RunClaim()\<close> ends and
  leaves no pending job behind that the node could start, the number of processes stays within the
  limit in every sequence of events, every finished process leaves its result and gives its job
  back, and a partition that shuts down starts nothing any more.
\<close>

section \<open>The claim loop ends\<close>

text \<open>The pending rows of a database, and the order in which a database makes progress.\<close>

definition pending_rows :: "cron_db \<Rightarrow> cronjobs" where
  "pending_rows db = filter (cron_pending (cd_have_sticky db) (cd_sticky db) (cd_now db)) (cd_jobs db)"

definition db_le :: "cron_db \<Rightarrow> cron_db \<Rightarrow> bool" where
  "db_le db' db \<longleftrightarrow> length (pending_rows db') \<le> length (pending_rows db) \<and> length (cd_faults db') \<le> length (cd_faults db)"

lemma db_le_refl [simp]: "db_le db db"
  by (simp add: db_le_def)

lemma db_le_trans [trans]: "db_le a b \<Longrightarrow> db_le b c \<Longrightarrow> db_le a c"
  by (simp add: db_le_def)

lemma pending_rows_faults [simp]: "pending_rows (db\<lparr>cd_faults := fs\<rparr>) = pending_rows db"
  by (simp add: pending_rows_def)

lemma length_filter_map_le:
  assumes "\<And>x. P' (f x) \<Longrightarrow> P x"
  shows "length (filter P' (map f t)) \<le> length (filter P t)"
proof -
  have "length (filter P' (map f t)) = length (filter (\<lambda>x. P' (f x)) t)" by (simp add: filter_map o_def)
  also have "\<dots> = length (filter (\<lambda>x. P' (f x)) (filter P t))" using assms by (simp add: filter_filter) (metis (mono_tags, lifting) filter_cong)
  also have "\<dots> \<le> length (filter P t)" by (rule length_filter_le)
  finally show ?thesis .
qed

lemma length_filter_map_less:
  assumes "\<And>x. P' (f x) \<Longrightarrow> P x" and "r \<in> set t" "P r" "\<not> P' (f r)"
  shows "length (filter P' (map f t)) < length (filter P t)"
proof -
  have "length (filter P' (map f t)) = length (filter (\<lambda>x. P' (f x)) t)" by (simp add: filter_map o_def)
  also have "\<dots> = length (filter (\<lambda>x. P' (f x)) (filter P t))" using assms(1) by (simp add: filter_filter) (metis (mono_tags, lifting) filter_cong)
  also have "\<dots> < length (filter P t)" using assms(2-4) by (intro length_filter_less [of r]) auto
  finally show ?thesis .
qed

lemma cron_claim_pending:
  "length (pending_rows (db\<lparr>cd_jobs := snd (sql_cron_claim_job now jid n d (cd_jobs db))\<rparr>)) \<le> length (pending_rows db)"
  "r \<in> set (pending_rows db) \<Longrightarrow> cj_id r = jid \<Longrightarrow>
   length (pending_rows (db\<lparr>cd_jobs := snd (sql_cron_claim_job now jid n d (cd_jobs db))\<rparr>)) < length (pending_rows db)"
proof -
  let ?P = "cron_pending (cd_have_sticky db) (cd_sticky db) (cd_now db)"
  let ?f = "\<lambda>r. if cj_id r = jid \<and> cj_enabled r \<and> cj_node_name r = None
                then r\<lparr>cj_node_name := Some n, cj_node_timeout := Some (now + d)\<rparr> else r"
  have f: "?P (?f x) \<Longrightarrow> ?P x" for x by (auto simp: cron_pending_def split: if_splits)
  have eq: "pending_rows (db\<lparr>cd_jobs := snd (sql_cron_claim_job now jid n d (cd_jobs db))\<rparr>) = filter ?P (map ?f (cd_jobs db))"
    "pending_rows db = filter ?P (cd_jobs db)"
    by (simp_all add: pending_rows_def sql_cron_claim_job_def sql_update_def)
  show "length (pending_rows (db\<lparr>cd_jobs := snd (sql_cron_claim_job now jid n d (cd_jobs db))\<rparr>)) \<le> length (pending_rows db)"
    unfolding eq by (rule length_filter_map_le) (rule f)
  assume r: "r \<in> set (pending_rows db)" "cj_id r = jid"
  have n: "\<not> ?P (?f r)" using r by (auto simp: cron_pending_def pending_rows_def)
  have "r \<in> set (cd_jobs db)" "?P r" using r(1) by (simp_all add: eq(2))
  from length_filter_map_less [of ?P ?f ?P, OF f this n] show "length (pending_rows (db\<lparr>cd_jobs := snd (sql_cron_claim_job now jid n d (cd_jobs db))\<rparr>)) < length (pending_rows db)"
    unfolding eq .
qed

lemma sticky_insert_pending:
  "length (pending_rows (db\<lparr>cd_sticky := insert sid (cd_sticky db)\<rparr>)) \<le> length (pending_rows db)"
  "r \<in> set (pending_rows db) \<Longrightarrow> cd_have_sticky db \<Longrightarrow> cj_sticky_id r = Some sid \<Longrightarrow>
   length (pending_rows (db\<lparr>cd_sticky := insert sid (cd_sticky db)\<rparr>)) < length (pending_rows db)"
proof -
  let ?P = "cron_pending (cd_have_sticky db) (cd_sticky db) (cd_now db)"
  let ?Q = "cron_pending (cd_have_sticky db) (insert sid (cd_sticky db)) (cd_now db)"
  have PQ: "?Q (id x) \<Longrightarrow> ?P x" for x by (auto simp: cron_pending_def cron_sticky_check_def split: option.splits)
  show "length (pending_rows (db\<lparr>cd_sticky := insert sid (cd_sticky db)\<rparr>)) \<le> length (pending_rows db)"
    using length_filter_map_le [of ?Q id ?P "cd_jobs db", OF PQ] by (simp add: pending_rows_def)
  assume r: "r \<in> set (pending_rows db)" "cd_have_sticky db" "cj_sticky_id r = Some sid"
  then have "\<not> ?Q (id r)" by (auto simp: cron_pending_def cron_sticky_check_def)
  then show "length (pending_rows (db\<lparr>cd_sticky := insert sid (cd_sticky db)\<rparr>)) < length (pending_rows db)"
    using length_filter_map_less [of ?Q id ?P r "cd_jobs db", OF PQ] r by (simp add: pending_rows_def)
qed

lemma CronQueue_Claim_progress:
  "db_le (cn_db (snd (CronQueue_Claim cx job s))) (cn_db s)"
  "cd_faults (cn_db s) = [] \<Longrightarrow> cq_db_ready (cn_queue s) \<Longrightarrow> r \<in> set (pending_rows (cn_db s)) \<Longrightarrow> cj_id r = jb_id job \<Longrightarrow>
   length (pending_rows (cn_db (snd (CronQueue_Claim cx job s)))) < length (pending_rows (cn_db s))"
proof -
  let ?f = "on_jobs (sql_cron_claim_job (cd_now (cn_db s)) (jb_id job) (cq_node_name (cn_queue s)) (300 * ns))"
  consider (fault) fs where "cn_db (snd (CronQueue_Claim cx job s)) = (cn_db s)\<lparr>cd_faults := fs\<rparr>"
      "length fs \<le> length (cd_faults (cn_db s))" "cd_faults (cn_db s) = [] \<Longrightarrow> \<not> cq_db_ready (cn_queue s)"
    | (ok) "cn_db (snd (CronQueue_Claim cx job s)) = snd (?f ((cn_db s)\<lparr>cd_faults := tl (cd_faults (cn_db s))\<rparr>))"
    by (rule db_try_cases [of ?f s]) (simp_all add: CronQueue_Claim_def)
  note cases = this
  let ?db = "(cn_db s)\<lparr>cd_faults := tl (cd_faults (cn_db s))\<rparr>"
  have f: "snd (?f ?db) = ?db\<lparr>cd_jobs := snd (sql_cron_claim_job (cd_now (cn_db s)) (jb_id job) (cq_node_name (cn_queue s)) (300 * ns) (cd_jobs ?db))\<rparr>"
    by (simp add: on_jobs_def case_prod_beta Let_def)
  show "db_le (cn_db (snd (CronQueue_Claim cx job s))) (cn_db s)"
    using cases
  proof cases
    case ok
    then show ?thesis unfolding f using cron_claim_pending(1) [where db = ?db] by (simp add: db_le_def)
  qed (simp add: db_le_def)
  assume r: "cd_faults (cn_db s) = []" "cq_db_ready (cn_queue s)" "r \<in> set (pending_rows (cn_db s))" "cj_id r = jb_id job"
  show "length (pending_rows (cn_db (snd (CronQueue_Claim cx job s)))) < length (pending_rows (cn_db s))"
    using cases
  proof cases
    case ok
    then show ?thesis unfolding f using cron_claim_pending(2) [where db = ?db and r = r] r by simp
  qed (use r in auto)
qed
lemma CronQueue_InsertStickyNonLocal_progress:
  "db_le (cn_db (CronQueue_InsertStickyNonLocal cx sid s)) (cn_db s)"
  "cd_faults (cn_db s) = [] \<Longrightarrow> cq_db_ready (cn_queue s) \<Longrightarrow> cd_have_sticky (cn_db s) \<Longrightarrow>
   r \<in> set (pending_rows (cn_db s)) \<Longrightarrow> cj_sticky_id r = Some sid \<Longrightarrow>
   length (pending_rows (cn_db (CronQueue_InsertStickyNonLocal cx sid s))) < length (pending_rows (cn_db s))"
proof -
  let ?f = "\<lambda>db. case StickyTable_InsertNonLocal sid (cd_sticky db) of None \<Rightarrow> (False, db) | Some t \<Rightarrow> (True, db\<lparr>cd_sticky := t\<rparr>)"
  let ?db = "(cn_db s)\<lparr>cd_faults := tl (cd_faults (cn_db s))\<rparr>"
  consider (down) "cn_db (CronQueue_InsertStickyNonLocal cx sid s) = cn_db s" "\<not> cq_db_ready (cn_queue s)"
    | (fault) fs where "cn_db (CronQueue_InsertStickyNonLocal cx sid s) = (cn_db s)\<lparr>cd_faults := fs\<rparr>"
      "length fs \<le> length (cd_faults (cn_db s))" "cd_faults (cn_db s) \<noteq> [] \<or> \<not> cq_db_ready (cn_queue s)"
    | (dup) "cn_db (CronQueue_InsertStickyNonLocal cx sid s) = ?db" "sid \<in> cd_sticky (cn_db s)"
    | (ok) "cn_db (CronQueue_InsertStickyNonLocal cx sid s) = ?db\<lparr>cd_sticky := insert sid (cd_sticky ?db)\<rparr>"
    by (cases "cq_db_ready (cn_queue s)"; rule db_try_cases [of ?f s])
      (auto simp: CronQueue_InsertStickyNonLocal_def StickyTable_InsertNonLocal_def split: if_splits)
  note cases = this
  show "db_le (cn_db (CronQueue_InsertStickyNonLocal cx sid s)) (cn_db s)"
    using cases
  proof cases
    case ok
    then show ?thesis unfolding ok using sticky_insert_pending(1) [where db = ?db] by (simp add: db_le_def)
  qed (simp_all add: db_le_def)
  assume r: "cd_faults (cn_db s) = []" "cq_db_ready (cn_queue s)" "cd_have_sticky (cn_db s)"
    "r \<in> set (pending_rows (cn_db s))" "cj_sticky_id r = Some sid"
  show "length (pending_rows (cn_db (CronQueue_InsertStickyNonLocal cx sid s))) < length (pending_rows (cn_db s))"
    using cases
  proof cases
    case ok
    then show ?thesis unfolding ok using sticky_insert_pending(2) [where db = ?db and r = r] r by simp
  next
    case dup
    then show ?thesis using r by (auto simp: pending_rows_def cron_pending_def cron_sticky_check_def)
  qed (use r in auto)
qed

lemma db_try_read_progress: "(\<And>db. snd (f db) = db) \<Longrightarrow> db_le (cn_db (snd (db_try f s))) (cn_db s)"
  by (rule db_try_cases [of f s]) (simp_all add: db_le_def)

lemma CronWorkplace_Start_progress: "db_le (cn_db (snd (CronWorkplace_Start cx job s))) (cn_db s)"
proof -
  have "db_le (cn_db (snd (CronQueue_GetNow cx s))) (cn_db (on_queue CronQueue_ScheduleCheckNotify s))"
    unfolding CronQueue_GetNow_def by (rule db_try_read_progress) simp
  then show ?thesis by (simp add: CronWorkplace_Start_def case_prod_beta Let_def split: sum.splits)
qed

lemma CronPartition_StartJob_db:
  "db_le (cn_db (CronPartition_StartJob cx job s)) (cn_db (snd (CronQueue_Claim cx (if jb_timeout job \<le> 0 then job\<lparr>jb_timeout := cn_default_timeout s\<rparr> else job) s)))"
  using CronWorkplace_Start_progress
  by (simp add: CronPartition_StartJob_def case_prod_beta Let_def CronQueue_DisableFull_def)

lemma CronPartition_OnJob_progress: "db_le (cn_db (CronPartition_OnJob cx job s)) (cn_db s)"
  by (rule CronPartition_OnJob_cases [of cx job s])
    (simp_all only: CronQueue_InsertStickyNonLocal_progress(1) db_le_trans [OF CronPartition_StartJob_db CronQueue_Claim_progress(1)])

lemma cron_job_of_simps [simp]:
  "jb_id (cron_job_of s r) = cj_id r"
  "jb_sticky_id (cron_job_of s r) \<noteq> [] \<longleftrightarrow> cd_have_sticky (cn_db s) \<and> (\<exists>x. cj_sticky_id r = Some x \<and> x \<noteq> [])"
  by (auto simp: cron_job_of_def Let_def split: option.splits)

text \<open>A pending job that is handed to the partition is not pending afterwards, unless a statement failed.\<close>

lemma CronPartition_OnJob_less:
  assumes "cd_faults (cn_db s) = []" "cq_db_ready (cn_queue s)" "r \<in> set (pending_rows (cn_db s))"
    and "cd_have_sticky (cn_db t) = cd_have_sticky (cn_db s)"
  shows "length (pending_rows (cn_db (CronPartition_OnJob cx (cron_job_of t r) s))) < length (pending_rows (cn_db s))"
proof -
  let ?job = "cron_job_of t r"
  let ?j = "if jb_timeout ?job \<le> 0 then ?job\<lparr>jb_timeout := cn_default_timeout s\<rparr> else ?job"
  have start: "length (pending_rows (cn_db (CronPartition_StartJob cx ?job s))) < length (pending_rows (cn_db s))"
  proof -
    have "cj_id r = jb_id ?j" by simp
    from CronQueue_Claim_progress(2) [OF assms(1-3) this, of cx] CronPartition_StartJob_db [of cx ?job s]
    show ?thesis unfolding db_le_def by linarith
  qed
  show ?thesis
  proof (cases "cn_sticky s = None \<or> jb_sticky_id ?job = []")
    case True
    then show ?thesis using start by (auto simp: CronPartition_OnJob_def simp del: cron_job_of_simps(2) split: option.splits)
  next
    case False
    then have "cd_have_sticky (cn_db s)" "cj_sticky_id r = Some (jb_sticky_id ?job)"
      using assms(4) by (auto simp: cron_job_of_def Let_def split: option.splits if_splits)
    from CronQueue_InsertStickyNonLocal_progress(2) [OF assms(1,2) this(1) assms(3) this(2)] start False show ?thesis
      by (auto simp: CronPartition_OnJob_def split: option.splits)
  qed
qed

text \<open>At most one row is selected, a pending one.\<close>

lemma sql_check_pending_cases:
  obtains "sql_check_pending st snl now t = []" "filter (cron_pending st snl now) t = []"
  | r where "sql_check_pending st snl now t = [r]" "r \<in> set (filter (cron_pending st snl now) t)"
proof (cases "sort_key next_run_key (filter (cron_pending st snl now) t)")
  case Nil
  then have "set (filter (cron_pending st snl now) t) = {}" by (metis set_sort set_empty)
  then show thesis using that(1) Nil by (simp add: sql_check_pending_def)
next
  case (Cons r rs)
  then have "r \<in> set (filter (cron_pending st snl now) t)" by (metis set_sort list.set_intros(1))
  then show thesis using that(2) Cons by (simp add: sql_check_pending_def)
qed

lemma CronQueue_CheckPending_progress:
  assumes "CronQueue_CheckPending cx s = (Inr True, s')"
  shows "db_le (cn_db s') (cn_db s)"
    and "cd_faults (cn_db s) = [] \<Longrightarrow> length (pending_rows (cn_db s')) < length (pending_rows (cn_db s))"
proof -
  let ?f = "\<lambda>db. (sql_check_pending (cd_have_sticky db) (cd_sticky db) (cd_now db) (cd_jobs db), db)"
  let ?db = "(cn_db s)\<lparr>cd_faults := tl (cd_faults (cn_db s))\<rparr>"
  have en: "CronQueue_IsEnabled (cn_queue s)" using assms by (auto simp: CronQueue_CheckPending_def split: if_splits)
  obtain s1 where s1: "db_try ?f s = (Inr (fst (?f ?db)), s1)" "cn_db s1 = ?db" "cq_db_ready (cn_queue s1)"
    using assms en by (rule_tac db_try_cases [of ?f s]) (auto simp: CronQueue_CheckPending_def)
  obtain r where r: "fst (?f ?db) = [r]" "r \<in> set (pending_rows (cn_db s1))"
    using assms en s1
    by (rule_tac sql_check_pending_cases [of "cd_have_sticky ?db" "cd_sticky ?db" "cd_now ?db" "cd_jobs ?db"])
      (auto simp: CronQueue_CheckPending_def pending_rows_def)
  have s': "s' = CronPartition_OnJob cx (cron_job_of s1 r) s1"
    using assms en s1(1) r(1) by (auto simp: CronQueue_CheckPending_def Let_def split: if_splits)
  show "db_le (cn_db s') (cn_db s)"
    using CronPartition_OnJob_progress [of cx "cron_job_of s1 r" s1] s1(2) by (auto simp: s' db_le_def)
  assume "cd_faults (cn_db s) = []"
  then show "length (pending_rows (cn_db s')) < length (pending_rows (cn_db s))"
    using CronPartition_OnJob_less [of s1 r s1 cx] s1 r(2) by (simp add: s')
qed

definition claim_measure :: "cron_node \<Rightarrow> nat" where
  "claim_measure s = length (cd_faults (cn_db s)) + length (pending_rows (cn_db s))"

lemma FindEarliestPending_db:
  assumes "FindEarliestPending cx s = (Inr d, s')"
  shows "cn_db s' = (cn_db s)\<lparr>cd_faults := tl (cd_faults (cn_db s))\<rparr>" and "cq_db_ready (cn_queue s)" "cn_queue s' = cn_queue s"
    "cn_workplace s' = cn_workplace s"
proof -
  let ?f = "\<lambda>db. (sql_find_earliest_pending (cd_have_sticky db) (cd_sticky db) (cd_now db) (cd_jobs db), db)"
  have "snd (FindEarliestPending cx s) = snd (db_try ?f s)"
    by (simp add: FindEarliestPending_def case_prod_beta Let_def split: sum.splits option.splits)
  moreover have "\<exists>x. fst (db_try ?f s) = Inr x"
    using assms by (cases "db_try ?f s") (auto simp: FindEarliestPending_def split: sum.splits)
  ultimately have "cn_db s' = (cn_db s)\<lparr>cd_faults := tl (cd_faults (cn_db s))\<rparr> \<and> cq_db_ready (cn_queue s)
      \<and> cn_queue s' = cn_queue s \<and> cn_workplace s' = cn_workplace s"
    using assms by (rule_tac db_try_cases [of ?f s]) auto
  then show "cn_db s' = (cn_db s)\<lparr>cd_faults := tl (cd_faults (cn_db s))\<rparr>" "cq_db_ready (cn_queue s)" "cn_queue s' = cn_queue s"
    "cn_workplace s' = cn_workplace s" by simp_all
qed

lemma RunClaimPass_measure:
  assumes "RunClaimPass cx s = ClaimAgain s'"
  shows "claim_measure s' < claim_measure s"
proof -
  obtain d s1 where f: "FindEarliestPending cx s = (Inr d, s1)" and c: "CronQueue_CheckPending cx s1 = (Inr True, s')"
    using assms by (auto simp: RunClaimPass_def split: prod.splits sum.splits option.splits if_splits)
  note s1 = FindEarliestPending_db [OF f]
  show ?thesis
  proof (cases "cd_faults (cn_db s)")
    case Nil
    then show ?thesis using CronQueue_CheckPending_progress [OF c] s1 by (simp add: claim_measure_def db_le_def)
  next
    case Cons
    then show ?thesis using CronQueue_CheckPending_progress(1) [OF c] s1 by (simp add: claim_measure_def db_le_def)
  qed
qed

lemma RunClaimLoop_returns: "\<exists>s'. RunClaimLoop cx s = Some s'"
proof (induction "claim_measure s" arbitrary: s rule: less_induct)
  case less
  show ?case
  proof (cases "RunClaimPass cx s")
    case (ClaimAgain s')
    with less [OF RunClaimPass_measure [OF ClaimAgain]] show ?thesis by (subst RunClaimLoop.simps) simp
  qed (subst RunClaimLoop.simps, simp)+
qed


section \<open>Nothing pending is left behind\<close>

text \<open>Time stamps of PostgreSQL lie within 2^63 seconds of each other.\<close>

definition times_ok :: "cron_db \<Rightarrow> bool" where
  "times_ok db \<longleftrightarrow> (\<forall>x. Some (At x) \<in> cj_next_run ` set (cd_jobs db) \<longrightarrow> cd_now db - 2 ^ 63 * ns \<le> x)"

definition claim_inv :: "cron_node \<Rightarrow> bool" where
  "claim_inv s \<longleftrightarrow> cd_faults (cn_db s) = [] \<and> cq_db_ready (cn_queue s) \<and> times_ok (cn_db s)"

lemma pending_rowE:
  assumes "pending_rows db \<noteq> []"
  obtains r x where "r \<in> set (cd_jobs db)" "cj_enabled r" "cj_node_name r = None"
    "cron_sticky_check (cd_have_sticky db) (cd_sticky db) r" "cj_next_run r = Some (At x)" "x \<le> cd_now db"
proof -
  obtain r where "r \<in> set (pending_rows db)" using assms by (cases "pending_rows db") auto
  then show thesis by (intro that [of r "next_run_key r"]) (auto simp: pending_rows_def cron_pending_def next_run_key_def split: option.splits pg_timestamp.splits)
qed

lemma pending_rows_min:
  assumes "sql_find_earliest_pending (cd_have_sticky db) (cd_sticky db) (cd_now db) (cd_jobs db) = Some d"
  shows "0 < d \<Longrightarrow> pending_rows db = []" and "\<exists>x. Some (At x) \<in> cj_next_run ` set (cd_jobs db) \<and> d = x - cd_now db"
proof -
  let ?g = "\<lambda>r. case cj_next_run r of
            Some (At x) \<Rightarrow> if cj_enabled r \<and> cj_node_name r = None \<and> cron_sticky_check (cd_have_sticky db) (cd_sticky db) r then Some x else None
          | _ \<Rightarrow> None"
  define ts where "ts = List.map_filter ?g (cd_jobs db)"
  have d: "ts \<noteq> []" "d = Min (set ts) - cd_now db"
    using assms by (auto simp: sql_find_earliest_pending_def Let_def ts_def split: if_splits)
  have ts: "x \<in> set ts \<longleftrightarrow> (\<exists>r\<in>set (cd_jobs db). ?g r = Some x)" for x
    by (auto simp: ts_def map_filter_def image_iff)
  show "pending_rows db = []" if "0 < d"
  proof (rule ccontr)
    assume "pending_rows db \<noteq> []"
    then obtain r x where r: "r \<in> set (cd_jobs db)" "?g r = Some x" "x \<le> cd_now db"
      by (elim pending_rowE) auto
    then have "Min (set ts) \<le> x" using ts by (intro Min_le) auto
    then show False using that d r(3) by simp
  qed
  have "Min (set ts) \<in> set ts" using d(1) by (intro Min_in) auto
  then obtain r where "r \<in> set (cd_jobs db)" "?g r = Some (Min (set ts))" using ts by blast
  then show "\<exists>x. Some (At x) \<in> cj_next_run ` set (cd_jobs db) \<and> d = x - cd_now db"
    using d(2) by (intro exI [of _ "Min (set ts)"]) (force split: option.splits pg_timestamp.splits if_splits)
qed

lemma no_candidate_no_pending:
  assumes "sql_find_earliest_pending (cd_have_sticky db) (cd_sticky db) (cd_now db) (cd_jobs db) = None"
  shows "pending_rows db = []"
proof (rule ccontr)
  assume "pending_rows db \<noteq> []"
  then show False
    using assms by (elim pending_rowE) (auto simp: sql_find_earliest_pending_def Let_def map_filter_def filter_empty_conv split: if_splits)
qed

text \<open>The delay read from the text of the difference is positive only when the earliest time is in the future.\<close>

lemma FindEarliestPending_none:
  assumes "pg_text (ce_pg (cx_cron cx))" "claim_inv s"
    and "FindEarliestPending cx s = (Inr x, s')" and "x = None \<or> x = Some delta \<and> 0 < delta"
  shows "pending_rows (cn_db s') = []"
proof -
  let ?f = "\<lambda>db. (sql_find_earliest_pending (cd_have_sticky db) (cd_sticky db) (cd_now db) (cd_jobs db), db)"
  have db: "cn_db s' = cn_db s" using FindEarliestPending_db(1) [OF assms(3)] assms(2) by (simp add: claim_inv_def)
  have exec: "db_try ?f s = (Inr (fst (?f (cn_db s))), s')"
  proof -
    have "db_try ?f s = (Inr (fst (?f (cn_db s))), snd (db_try ?f s))"
      using assms(2) by (simp add: db_try_def Let_def claim_inv_def)
    moreover have "snd (FindEarliestPending cx s) = snd (db_try ?f s)"
      by (simp add: FindEarliestPending_def case_prod_beta Let_def split: sum.splits option.splits)
    ultimately show ?thesis using assms(3) by simp
  qed
  show ?thesis
  proof (cases "fst (?f (cn_db s))")
    case None
    then show ?thesis using no_candidate_no_pending [of "cn_db s"] db by simp
  next
    case (Some d)
    let ?t = "epoch_out (ce_pg (cx_cron cx)) d"
    note min = pending_rows_min [OF Some [unfolded fst_conv]]
    have digits: "snd (strtoul 10 ?t) \<noteq> ?t" by (rule pg_text.epoch_out_digits [OF assms(1)])
    obtain v where v: "v = fst (strtoul 10 ?t)" by simp
    have delta: "x = Some delta" "0 < delta" "delta = min (if v < 2 ^ 63 then int v else int v - 2 ^ 64) 86400"
      using assms(3,4) exec Some digits v
      by (auto simp: FindEarliestPending_def case_prod_beta Let_def)
    have "v < 2 ^ 63" "v \<noteq> 0"
    proof -
      have "v \<le> ULONG_MAX" using strtoul_le_max v by simp
      then have "int v - 2 ^ 64 < 0" by simp
      then show "v < 2 ^ 63" using delta(2,3) by (auto split: if_splits)
      then show "v \<noteq> 0" using delta(2,3) by (auto split: if_splits)
    qed
    obtain y where y: "Some (At y) \<in> cj_next_run ` set (cd_jobs (cn_db s))" "d = y - cd_now (cn_db s)"
      using min(2) by blast
    then have low: "- (2 ^ 63) \<le> d div ns"
      using assms(2) by (auto simp: claim_inv_def times_ok_def)
    have "0 < d"
    proof (rule ccontr)
      assume "\<not> 0 < d"
      then consider "d < 0" | "d = 0" by linarith
      then show False
      proof cases
        case 1
        from pg_text.epoch_out_strtoul_negative [OF assms(1) this low] show False
          using \<open>v < 2 ^ 63\<close> \<open>v \<noteq> 0\<close> by (simp add: v)
      next
        case 2
        then show False using pg_text.epoch_out_strtoul [OF assms(1), of d] \<open>v \<noteq> 0\<close> by (simp add: v)
      qed
    qed
    then show ?thesis using min(1) db by simp
  qed
qed

text \<open>Statements of a connected node do what they say when none is going to fail.\<close>

definition db_up :: "cron_node \<Rightarrow> bool" where
  "db_up s \<longleftrightarrow> cd_faults (cn_db s) = [] \<and> cq_db_ready (cn_queue s)"

lemma db_try_up: "db_up s \<Longrightarrow> db_try f s = (Inr (fst (f (cn_db s))), s\<lparr>cn_db := snd (f (cn_db s))\<rparr>)"
proof -
  assume up: "db_up s"
  then have eq: "(cn_db s)\<lparr>cd_faults := []\<rparr> = cn_db s" by (cases "cn_db s") (simp add: db_up_def)
  from up show ?thesis by (simp add: db_try_def Let_def db_up_def case_prod_beta) (simp only: eq)
qed

lemma db_up_frame [simp]:
  "db_up (act a s) = db_up s" "db_up (on_queue CronQueue_ScheduleCheckNotify s) = db_up s"
  "db_up (s\<lparr>cn_workplace := w\<rparr>) = db_up s" "cd_faults db = cd_faults (cn_db s) \<Longrightarrow> db_up (s\<lparr>cn_db := db\<rparr>) = db_up s"
  "db_up (CronQueue_DisableFull s) = db_up s"
  by (simp_all add: db_up_def CronQueue_ScheduleCheckNotify_def CronQueue_DisableFull_def)

lemma on_jobs_simps [simp]: "fst (on_jobs f db) = fst (f (cd_jobs db))" "snd (on_jobs f db) = db\<lparr>cd_jobs := snd (f (cd_jobs db))\<rparr>"
  by (simp_all add: on_jobs_def case_prod_beta Let_def)

lemma CronQueue_Claim_up:
  "db_up s \<Longrightarrow> CronQueue_Claim cx job s =
     (let t = sql_cron_claim_job (cd_now (cn_db s)) (jb_id job) (cq_node_name (cn_queue s)) (300 * ns) (cd_jobs (cn_db s))
      in (fst t \<noteq> 0, s\<lparr>cn_db := (cn_db s)\<lparr>cd_jobs := snd t\<rparr>\<rparr>))"
  by (simp add: CronQueue_Claim_def db_try_up Let_def)

lemma CronQueue_GetNow_up:
  "db_up s \<Longrightarrow> CronQueue_GetNow cx s = (Inr (timestamp_out (ce_pg (cx_cron cx)) (cd_now (cn_db s))), on_queue CronQueue_ScheduleCheckNotify s)"
  by (simp add: CronQueue_GetNow_def db_try_up)

lemma claim_next_run [simp]:
  "cj_next_run ` set (snd (sql_cron_claim_job now jid n d t)) = cj_next_run ` set t"
proof -
  have "map cj_next_run (snd (sql_cron_claim_job now jid n d t)) = map cj_next_run t"
    by (simp add: sql_cron_claim_job_def sql_update_def)
  then show ?thesis by (metis set_map)
qed

lemma CronPartition_StartJob_inv:
  assumes "claim_inv s"
  shows "claim_inv (CronPartition_StartJob cx job s)"
proof -
  have "db_up s" using assms by (simp add: claim_inv_def db_up_def)
  then show ?thesis using assms
    by (simp add: CronPartition_StartJob_def CronQueue_Claim_up CronWorkplace_Start_def CronQueue_GetNow_up Let_def
        claim_inv_def times_ok_def CronQueue_DisableFull_def CronQueue_ScheduleCheckNotify_def)
qed

lemma CronPartition_OnJob_inv:
  assumes "claim_inv s" "r \<in> set (pending_rows (cn_db s))" "cd_have_sticky (cn_db t) = cd_have_sticky (cn_db s)"
  shows "claim_inv (CronPartition_OnJob cx (cron_job_of t r) s)"
proof (cases "cn_sticky s = None \<or> jb_sticky_id (cron_job_of t r) = []")
  case True
  then show ?thesis using CronPartition_StartJob_inv [OF assms(1)]
    by (auto simp: CronPartition_OnJob_def simp del: cron_job_of_simps(2) split: option.splits)
next
  case False
  then have "cd_have_sticky (cn_db s)" "cj_sticky_id r = Some (jb_sticky_id (cron_job_of t r))"
    using assms(3) by (auto simp: cron_job_of_def Let_def split: option.splits if_splits)
  then have new: "jb_sticky_id (cron_job_of t r) \<notin> cd_sticky (cn_db s)"
    using assms(2) by (auto simp: pending_rows_def cron_pending_def cron_sticky_check_def)
  have up: "db_up s" "cq_db_ready (cn_queue s)" using assms(1) by (simp_all add: claim_inv_def db_up_def)
  have "claim_inv (CronQueue_InsertStickyNonLocal cx (jb_sticky_id (cron_job_of t r)) s)"
    using assms(1) new up(2)
    by (simp add: CronQueue_InsertStickyNonLocal_def db_try_up [OF up(1)] StickyTable_InsertNonLocal_def claim_inv_def times_ok_def)
  then show ?thesis using CronPartition_StartJob_inv [OF assms(1)]
    by (auto simp: CronPartition_OnJob_def simp del: cron_job_of_simps(2) split: option.splits)
qed

text \<open>One check for pending jobs in a connected node.\<close>

lemma CheckPending_up:
  assumes "claim_inv s" "CronQueue_CheckPending cx s = (x, s')"
  obtains "x = Inr True" "claim_inv s'"
  | "x = Inr False" "pending_rows (cn_db s') = [] \<or> \<not> CronQueue_IsEnabled (cn_queue s')"
proof -
  let ?rows = "sql_check_pending (cd_have_sticky (cn_db s)) (cd_sticky (cn_db s)) (cd_now (cn_db s)) (cd_jobs (cn_db s))"
  have up: "db_up s" using assms(1) by (simp add: claim_inv_def db_up_def)
  have eq: "CronQueue_CheckPending cx s = (if \<not> CronQueue_IsEnabled (cn_queue s) then (Inr False, s)
      else if ?rows = [] then (Inr False, s) else (let (b, s'') = CheckPendingRows cx (map (cron_job_of s) ?rows) s in (Inr b, s'')))"
    by (simp add: CronQueue_CheckPending_def db_try_up [OF up])
  show thesis
  proof (rule sql_check_pending_cases [of "cd_have_sticky (cn_db s)" "cd_sticky (cn_db s)" "cd_now (cn_db s)" "cd_jobs (cn_db s)"])
    fix r
    assume r: "?rows = [r]" "r \<in> set (filter (cron_pending (cd_have_sticky (cn_db s)) (cd_sticky (cn_db s)) (cd_now (cn_db s))) (cd_jobs (cn_db s)))"
    then have "claim_inv (CronPartition_OnJob cx (cron_job_of s r) s)"
      by (intro CronPartition_OnJob_inv assms(1)) (simp_all add: pending_rows_def)
    then show thesis using that assms(2) r(1) by (auto simp: eq Let_def split: if_splits)
  qed (use that assms(2) in \<open>auto simp: eq pending_rows_def split: if_splits\<close>)
qed

lemma RunClaimLoop_drains:
  assumes "pg_text (ce_pg (cx_cron cx))"
  shows "claim_inv s \<Longrightarrow> RunClaimLoop cx s = Some s' \<Longrightarrow> pending_rows (cn_db s') = [] \<or> \<not> CronQueue_IsEnabled (cn_queue s')"
proof (induction "claim_measure s" arbitrary: s rule: less_induct)
  case less
  obtain x s1 where f: "FindEarliestPending cx s = (Inr x, s1)"
  proof -
    have "db_up s" using less.prems(1) by (simp add: claim_inv_def db_up_def)
    then have "\<exists>x. fst (FindEarliestPending cx s) = Inr x"
      by (simp add: FindEarliestPending_def db_try_up case_prod_beta Let_def split: option.splits)
    then show thesis using that by (metis prod.collapse)
  qed
  note none = FindEarliestPending_none [OF assms less.prems(1) f]
  have inv1: "claim_inv s1" using FindEarliestPending_db [OF f] less.prems(1) by (simp add: claim_inv_def times_ok_def)
  show ?case
  proof (cases "x = None \<or> (\<exists>delta. x = Some delta \<and> 0 < delta)")
    case True
    then show ?thesis using less.prems(2) none f by (subst (asm) RunClaimLoop.simps) (auto simp: RunClaimPass_def)
  next
    case False
    then obtain delta where x: "x = Some delta" "\<not> 0 < delta" by auto
    obtain y s2 where c: "CronQueue_CheckPending cx s1 = (y, s2)" by fastforce
    from inv1 c show ?thesis
    proof (cases rule: CheckPending_up)
      case 1
      then have again: "RunClaimPass cx s = ClaimAgain s2" using f x c by (simp add: RunClaimPass_def)
      then have "RunClaimLoop cx s2 = Some s'" using less.prems(2) by (subst (asm) RunClaimLoop.simps) simp
      with less.hyps [OF RunClaimPass_measure [OF again] 1(2)] show ?thesis .
    next
      case 2
      then show ?thesis using less.prems(2) f x c
        by (subst (asm) RunClaimLoop.simps) (auto simp: RunClaimPass_def CronQueue_IsEnabled_def
            CronQueue_ScheduleCheckNotify_def CronQueue_ScheduleClaim_def)
    qed
  qed
qed

text \<open>
  C17: When a connected, enabled queue claims jobs and no statement fails, no job is pending
  afterwards, or the workplace has become full.
\<close>

theorem RunClaim_drains:
  assumes "pg_text (ce_pg (cx_cron cx))" "cd_faults (cn_db s) = []" "cq_db_ready (cn_queue s)" "times_ok (cn_db s)"
    and "CronQueue_IsEnabled (cn_queue s)"
  shows "\<exists>s'. CronQueue_RunClaim cx s = Some s' \<and> (pending_rows (cn_db s') = [] \<or> \<not> CronQueue_IsEnabled (cn_queue s'))"
proof -
  obtain s' where s': "RunClaimLoop cx s = Some s'"
    using RunClaimLoop_returns by blast
  with RunClaimLoop_drains [OF assms(1), of s s'] assms(2-) show ?thesis
    by (simp add: CronQueue_RunClaim_def claim_inv_def)
qed

definition sample_ctx :: cron_ctx where
  "sample_ctx = \<lparr>cx_cron = sample_env, cx_score = (\<lambda>a t i. int (length a)), cx_check_error = (\<lambda>e. None),
     cx_tag_contains = (\<lambda>tags tag. tags = tag), cx_random = 4, cx_steady = 0, cx_server_version = 130000,
     cx_sticky_column = True\<rparr>"

definition sample_node :: "nat \<Rightarrow> cronjobs \<Rightarrow> cron_node" where
  "sample_node m jobs =
     \<lparr>cn_name = ''cron'', cn_tag = None, cn_sticky = None,
      cn_queue = \<lparr>cq_node_name = ''a'', cq_sticky = False, cq_enabled_state = True, cq_enabled_admin = True,
        cq_disabled_full = False, cq_db_defined = True, cq_db_ready = True, cq_check_notify = False,
        cq_scheduler_timer = None, cq_claim_timer = None, cq_next_expire_check = None\<rparr>,
      cn_workplace = \<lparr>wp_running = [], wp_next_key = 0, wp_max_operators = m, wp_use_qrelay = False,
        wp_shutting_down = False, wp_pond = False\<rparr>,
      cn_default_timeout = 0,
      cn_db = \<lparr>cd_jobs = jobs, cd_results = [], cd_sticky = {}, cd_have_sticky = False, cd_now = 5 * ns, cd_faults = []\<rparr>,
      cn_actions = []\<rparr>"

definition sample_pending :: cron_row where
  "sample_pending = (sample_cron ''1'' ''@hourly'')\<lparr>cj_next_run := Some (At (3 * ns))\<rparr>"

theorem RunClaim_drains_witness:
  "\<exists>s'. CronQueue_RunClaim sample_ctx (sample_node 2 [sample_pending]) = Some s' \<and>
     (pending_rows (cn_db s') = [] \<or> \<not> CronQueue_IsEnabled (cn_queue s'))"
proof (rule RunClaim_drains)
  show "pg_text (ce_pg (cx_cron sample_ctx))" using sample_env_ok(1) by (simp add: sample_ctx_def)
  show "times_ok (cn_db (sample_node 2 [sample_pending]))"
    by (simp add: times_ok_def sample_node_def sample_pending_def sample_cron_def)
qed (simp_all add: sample_node_def CronQueue_IsEnabled_def)

section \<open>Events\<close>

text \<open>
  Everything that happens to a partition: the timers, the database connection, the ends of
  processes, sticky changes, and the commands of the instance. The connection reports
  \<open>OnConnect()\<close> when it is ready.
\<close>

datatype cron_event = EvClaimTimer | EvSchedulerTimer | EvConnected | EvDisconnected | EvNotified | EvExited | EvStickyChanged
  | EvSetStateEnabled | EvDisableQueue | EvEnableQueue | EvShutdown | EvOtherNodes

inductive cron_step :: "cron_ctx \<Rightarrow> cron_event \<Rightarrow> cron_node \<Rightarrow> cron_node \<Rightarrow> bool" for cx where
  ClaimTimer: "CronQueue_RunClaim cx s = Some s' \<Longrightarrow> cron_step cx EvClaimTimer s s'"
| SchedulerTimer: "CronQueue_RunScheduler cx s = Some s' \<Longrightarrow> cron_step cx EvSchedulerTimer s s'"
| Connected: "CronQueue_OnConnect cx (on_queue (\<lambda>q. q\<lparr>cq_db_defined := True, cq_db_ready := True\<rparr>) s) = (x, s')
    \<Longrightarrow> cron_step cx EvConnected s s'"
| Disconnected: "cron_step cx EvDisconnected s
    (on_queue (\<lambda>q. (CronQueue_OnDisconnect q)\<lparr>cq_db_defined := d, cq_db_ready := False\<rparr>) s)"
| Notified: "cron_step cx EvNotified s (on_queue (CronQueue_OnNotify cx name) s)"
| Exited: "cron_step cx EvExited s (cron_exit_run cx k s)"
| StickyChanged: "cron_step cx EvStickyChanged s (CronPartition_OnStickyChanged cx s)"
| SetStateEnabled: "cron_step cx EvSetStateEnabled s (CronPartition_SetStateEnabled b s)"
| DisableQueue: "cron_step cx EvDisableQueue s (CronPartition_DisableQueue s)"
| EnableQueue: "cron_step cx EvEnableQueue s (CronPartition_EnableQueue s)"
| Shutdown: "cron_step cx EvShutdown s (CronPartition_BeginShutdown cx s)"
| OtherNodes: "cron_step cx EvOtherNodes s (s\<lparr>cn_db := db\<rparr>)"

abbreviation "cron_gate_ok cx \<equiv> gate_ok (cron_gate_ops cx)"

lemma gate_ok_cron: "cron_gate_ok cx s \<longleftrightarrow> slots_used s \<le> slots_max s \<and> (disabled_full s \<longleftrightarrow> slots_used s = slots_max s)"
  by (simp add: gate_ok_def cron_gate_ops_def)

lemma gate_ok_cong:
  "cn_workplace s' = cn_workplace s \<Longrightarrow> cq_disabled_full (cn_queue s') = cq_disabled_full (cn_queue s) \<Longrightarrow> cron_gate_ok cx s \<Longrightarrow> cron_gate_ok cx s'"
  by (simp add: gate_ok_cron slots_used_def slots_max_def disabled_full_def)

lemma cron_gate_start: "CronQueue_IsEnabled (cn_queue s) \<Longrightarrow> cron_gate_ok cx s \<Longrightarrow> cron_gate_ok cx (CronPartition_OnJob cx job s)"
  using cron_gate.gate_ok_step [OF gate_step.StartOne, of cx s job]
  by (simp add: cron_gate_ops_def CronQueue_IsEnabled_def disabled_full_def)

lemma cron_gate_exit: "cron_gate_ok cx s \<Longrightarrow> cron_gate_ok cx (cron_exit_run cx k s)"
  using cron_gate.gate_ok_step [OF gate_step.FinishSome, of cx s k] by (simp add: cron_gate_ops_def)

lemma CheckPendingRows_gate:
  "CronQueue_IsEnabled (cn_queue s) \<Longrightarrow> cron_gate_ok cx s \<Longrightarrow> cron_gate_ok cx (snd (CheckPendingRows cx jobs s))"
  by (induction jobs arbitrary: s) (simp_all add: Let_def cron_gate_start)

lemma CheckError_gate: "cron_gate_ok cx s \<Longrightarrow> cron_gate_ok cx (CheckError cx e s)"
  using CheckError_frame(5) [of cx e s] by (rule_tac gate_ok_cong [of _ s]) (simp_all add: cq_flags_def)

lemma db_try_gate: "cron_gate_ok cx s \<Longrightarrow> cron_gate_ok cx (snd (db_try f s))"
  by (rule gate_ok_cong [of _ s]) simp_all

lemma CronQueue_CheckPending_gate: "cron_gate_ok cx s \<Longrightarrow> cron_gate_ok cx (snd (CronQueue_CheckPending cx s))"
proof -
  let ?t = "db_try (\<lambda>db. (sql_check_pending (cd_have_sticky db) (cd_sticky db) (cd_now db) (cd_jobs db), db)) s"
  assume "cron_gate_ok cx s"
  moreover from db_try_gate [OF this] have "cron_gate_ok cx (snd ?t)" .
  moreover have "cn_queue (snd ?t) = cn_queue s" by simp
  ultimately show ?thesis
    by (simp add: CronQueue_CheckPending_def case_prod_beta Let_def CheckPendingRows_gate split: sum.splits)
qed

lemma FindEarliestPending_gate: "cron_gate_ok cx s \<Longrightarrow> cron_gate_ok cx (snd (FindEarliestPending cx s))"
proof -
  let ?f = "\<lambda>db. (sql_find_earliest_pending (cd_have_sticky db) (cd_sticky db) (cd_now db) (cd_jobs db), db)"
  have "snd (FindEarliestPending cx s) = snd (db_try ?f s)"
    by (simp add: FindEarliestPending_def case_prod_beta Let_def split: sum.splits option.splits)
  then show "cron_gate_ok cx s \<Longrightarrow> ?thesis" by (simp add: db_try_gate)
qed

fun claim_pass_state :: "claim_pass \<Rightarrow> cron_node" where
  "claim_pass_state (ClaimReturn s) = s"
| "claim_pass_state (ClaimBreak s) = s"
| "claim_pass_state (ClaimAgain s) = s"

lemma RunClaimPass_gate:
  assumes "cron_gate_ok cx s"
  shows "cron_gate_ok cx (claim_pass_state (RunClaimPass cx s))"
proof -
  let ?s1 = "snd (FindEarliestPending cx s)"
  have s1: "cron_gate_ok cx ?s1" by (rule FindEarliestPending_gate [OF assms])
  have s2: "cron_gate_ok cx (snd (CronQueue_CheckPending cx ?s1))" by (rule CronQueue_CheckPending_gate [OF s1])
  have t: "cron_gate_ok cx (on_queue (\<lambda>q. q\<lparr>cq_claim_timer := t\<rparr>) ?s1)" for t
    by (rule gate_ok_cong [OF _ _ s1]) simp_all
  show ?thesis
    using s1 s2 t by (simp add: RunClaimPass_def case_prod_beta CheckError_gate split: sum.splits option.splits)
qed

lemma RunClaimLoop_gate: "cron_gate_ok cx s \<Longrightarrow> RunClaimLoop cx s = Some s' \<Longrightarrow> cron_gate_ok cx s'"
proof (induction "claim_measure s" arbitrary: s rule: less_induct)
  case less
  note pass = RunClaimPass_gate [OF less.prems(1)]
  show ?case
  proof (cases "RunClaimPass cx s")
    case (ClaimBreak t)
    then have "s' = on_queue (\<lambda>q. CronQueue_ScheduleCheckNotify (CronQueue_ScheduleClaim q)) t"
      using less.prems(2) by (subst (asm) RunClaimLoop.simps) simp
    then show ?thesis using pass ClaimBreak
      by (auto intro: gate_ok_cong [of _ t] simp: CronQueue_ScheduleCheckNotify_def CronQueue_ScheduleClaim_def)
  next
    case (ClaimAgain t)
    then show ?thesis using less.hyps [OF RunClaimPass_measure [OF ClaimAgain]] pass less.prems(2)
      by (subst (asm) (2) RunClaimLoop.simps) simp
  next
    case (ClaimReturn t)
    then show ?thesis using pass less.prems(2) by (subst (asm) RunClaimLoop.simps) simp
  qed
qed

text \<open>Handlers that neither start nor end processes leave the capacity alone.\<close>

lemma timer_flags [simp]:
  "cq_flags (on_queue (CronQueue_ScheduleScheduler cx b) s) = cq_flags s" "cq_flags (on_queue CronQueue_ScheduleClaim s) = cq_flags s"
  by (simp_all add: cq_flags_def CronQueue_ScheduleScheduler_def CronQueue_ScheduleClaim_def)

lemma CronQueue_RunScheduler_gate:
  assumes "CronQueue_RunScheduler cx s = Some s'"
  shows "cn_workplace s' = cn_workplace s \<and> cq_flags s' = cq_flags s"
proof -
  define due where "due = (case cq_next_expire_check (cn_queue s) of None \<Rightarrow> True | Some t \<Rightarrow> t \<le> cx_steady cx)"
  obtain r s1 where p: "(if due then CronQueue_Expire (on_queue (\<lambda>q. q\<lparr>cq_next_expire_check := Some (cx_steady cx + 60 * ns)\<rparr>) s)
      else (Inr 0, s)) = (r, s1)" by fastforce
  obtain x s2 where d: "db_try (\<lambda>db. (CalculateNextRun (cx_cron cx) (cd_now db) (cd_jobs db), db)) s1 = (x, s2)" by fastforce
  have s1: "cn_workplace s1 = cn_workplace s \<and> cq_flags s1 = cq_flags s"
    using arg_cong [OF p, of snd] by (auto simp: CronQueue_Expire_def cq_flags_def split: if_splits)
  then have s2: "cn_workplace s2 = cn_workplace s \<and> cq_flags s2 = cq_flags s"
    using arg_cong [OF d, of snd] by auto
  have "CronQueue_RunScheduler cx s =
      (case r of Inl e \<Rightarrow> Some (CheckError cx e s1)
       | Inr _ \<Rightarrow> (case x of Inl e \<Rightarrow> Some (CheckError cx e s2) | Inr None \<Rightarrow> None
          | Inr (Some (done, t)) \<Rightarrow>
              (let s3 = s2\<lparr>cn_db := (cn_db s2)\<lparr>cd_jobs := t\<rparr>\<rparr>;
                   s4 = (if done then s3 else on_queue (CronQueue_ScheduleScheduler cx False) s3)
               in Some (on_queue CronQueue_ScheduleCheckNotify s4))))"
    unfolding CronQueue_RunScheduler_def Let_def due_def [symmetric] p d prod.case by (rule refl)
  with assms s1 s2 show ?thesis
    by (cases r; cases x) (auto simp: Let_def split: option.splits if_splits)
qed

lemma db_listen_gate: "cn_workplace (snd (db_listen c s)) = cn_workplace s \<and> cq_flags (snd (db_listen c s)) = cq_flags s"
  by (simp add: db_listen_def case_prod_beta split: sum.splits)

lemma CronQueue_OnConnect_gate:
  "cn_workplace (snd (CronQueue_OnConnect cx s)) = cn_workplace s \<and> cq_flags (snd (CronQueue_OnConnect cx s)) = cq_flags s"
proof -
  obtain x1 s1 where 1: "CronQueue_Prepare cx s = (x1, s1)" by fastforce
  obtain x2 s2 where 2: "db_listen ''cronjobs_modified'' s1 = (x2, s2)" by fastforce
  obtain x3 s3 where 3: "db_listen ''cronjobs_scheduled'' s2 = (x3, s3)" by fastforce
  obtain x4 s4 where 4: "CronQueue_ReleaseStale (snd (db_try (\<lambda>db. ((), db)) s3)) = (x4, s4)" by fastforce
  have frame: "cn_workplace s1 = cn_workplace s \<and> cq_flags s1 = cq_flags s" "cn_workplace s2 = cn_workplace s1 \<and> cq_flags s2 = cq_flags s1"
    "cn_workplace s3 = cn_workplace s2 \<and> cq_flags s3 = cq_flags s2" "cn_workplace s4 = cn_workplace s3 \<and> cq_flags s4 = cq_flags s3"
    using arg_cong [OF 1, of snd] arg_cong [OF 2, of snd] arg_cong [OF 3, of snd] arg_cong [OF 4, of snd]
      db_listen_gate [of "''cronjobs_modified''" s1] db_listen_gate [of "''cronjobs_scheduled''" s2]
    by (auto simp: CronQueue_Prepare_def CronQueue_ReleaseStale_def)
  have "snd (CronQueue_OnConnect cx s) \<in> {s, s1, s2, s3, s4, on_queue (\<lambda>q. CronQueue_ScheduleCheckNotify
       (CronQueue_ScheduleClaim (CronQueue_ScheduleScheduler cx True q))) s4}"
    by (simp add: CronQueue_OnConnect_def 1 2 3 4 split: sum.splits)
  moreover have "cq_flags (on_queue (\<lambda>q. CronQueue_ScheduleCheckNotify (CronQueue_ScheduleClaim (CronQueue_ScheduleScheduler cx True q))) s4) = cq_flags s4"
    by (simp add: cq_flags_def CronQueue_ScheduleCheckNotify_def CronQueue_ScheduleClaim_def CronQueue_ScheduleScheduler_def)
  ultimately show ?thesis using frame by auto
qed

lemma sticky_switch_frame [simp]:
  "cn_workplace (CronPartition_EnableDisableSticky s) = cn_workplace s" "cn_queue (CronPartition_EnableDisableSticky s) = cn_queue s"
  "cn_db (CronPartition_EnableDisableSticky s) = cn_db s"
  by (simp_all add: CronPartition_EnableDisableSticky_def split: option.splits)

lemma CronQueue_FlushSticky_frame [simp]:
  "cn_workplace (CronQueue_FlushSticky cx s) = cn_workplace s" "cq_flags (CronQueue_FlushSticky cx s) = cq_flags s"
  by (simp_all only: CronQueue_FlushSticky_def case_prod_beta) (simp_all split: sum.splits)

text \<open>The switches after the commands of the instance.\<close>

lemma switch_frame:
  "cn_workplace (CronPartition_SetStateEnabled b s) = cn_workplace s"
  "cq_flags (CronPartition_SetStateEnabled b s) = (b, cq_enabled_admin (cn_queue s), cq_disabled_full (cn_queue s))"
  "cn_workplace (CronPartition_DisableQueue s) = cn_workplace s"
  "cq_flags (CronPartition_DisableQueue s) = (cq_enabled_state (cn_queue s), False, cq_disabled_full (cn_queue s))"
  "cn_workplace (CronPartition_EnableQueue s) = cn_workplace s"
  "cq_flags (CronPartition_EnableQueue s) = (cq_enabled_state (cn_queue s), True, cq_disabled_full (cn_queue s))"
proof -
  have eq: "cq_flags (CronPartition_EnableDisableSticky t) = cq_flags t" for t by (simp add: cq_flags_def)
  show "cq_flags (CronPartition_SetStateEnabled b s) = (b, cq_enabled_admin (cn_queue s), cq_disabled_full (cn_queue s))"
    by (simp add: CronPartition_SetStateEnabled_def eq CronQueue_SetStateEnabled_def) (simp add: cq_flags_def)
  show "cq_flags (CronPartition_DisableQueue s) = (cq_enabled_state (cn_queue s), False, cq_disabled_full (cn_queue s))"
    by (simp add: CronPartition_DisableQueue_def eq CronQueue_DisableAdmin_def) (simp add: cq_flags_def)
  show "cq_flags (CronPartition_EnableQueue s) = (cq_enabled_state (cn_queue s), True, cq_disabled_full (cn_queue s))"
    by (simp add: CronPartition_EnableQueue_def eq CronQueue_EnableAdmin_def) (simp add: cq_flags_def)
qed (simp_all add: CronPartition_SetStateEnabled_def CronQueue_SetStateEnabled_def CronPartition_DisableQueue_def
    CronQueue_DisableAdmin_def CronPartition_EnableQueue_def CronQueue_EnableAdmin_def)

lemma gate_ok_flags:
  "cn_workplace s' = cn_workplace s \<Longrightarrow> snd (snd (cq_flags s')) = snd (snd (cq_flags s)) \<Longrightarrow> cron_gate_ok cx s \<Longrightarrow> cron_gate_ok cx s'"
  by (rule gate_ok_cong [of s' s]) (simp_all add: cq_flags_def)

lemma gate_ok_act: "cron_gate_ok cx (act a s) = cron_gate_ok cx s"
  by (simp add: gate_ok_cron slots_used_def slots_max_def disabled_full_def)

lemma BeginShutdown_eq:
  "CronPartition_BeginShutdown cx s = act EmailCancelAll (cron_exit_run cx ExitCancelAll
     ((CronQueue_DisableAdmin (s\<lparr>cn_sticky := map_option Sticky_BeginShutdown (cn_sticky s)\<rparr>))
        \<lparr>cn_workplace := (cn_workplace s)\<lparr>wp_shutting_down := True\<rparr>\<rparr>))"
  by (simp add: CronPartition_BeginShutdown_def CronWorkplace_BeginShutdown_def CronQueue_DisableAdmin_def on_queue_def)

lemma cron_step_gate: "cron_step cx ev s s' \<Longrightarrow> cron_gate_ok cx s \<Longrightarrow> cron_gate_ok cx s'"
proof (induction rule: cron_step.induct)
  case (ClaimTimer s s')
  then show ?case by (auto simp: CronQueue_RunClaim_def split: if_splits intro: RunClaimLoop_gate)
next
  case (SchedulerTimer s s')
  then show ?case using CronQueue_RunScheduler_gate [of cx s s'] by (auto elim: gate_ok_flags [rotated 2])
next
  case (Connected s x s')
  let ?s0 = "on_queue (\<lambda>q. q\<lparr>cq_db_defined := True, cq_db_ready := True\<rparr>) s"
  have "cn_workplace s' = cn_workplace s" "cq_flags s' = cq_flags s"
    using CronQueue_OnConnect_gate [of cx ?s0] Connected(1) by (simp_all add: cq_flags_def)
  with Connected(2) show ?case by (auto elim: gate_ok_flags [rotated 2])
next
  case (Disconnected s d)
  then show ?case by (elim gate_ok_flags [rotated 2]) (simp_all add: cq_flags_def CronQueue_OnDisconnect_def)
next
  case (Notified s name)
  then show ?case by (elim gate_ok_flags [rotated 2])
    (simp_all add: cq_flags_def CronQueue_OnNotify_def CronQueue_ScheduleScheduler_def CronQueue_ScheduleClaim_def)
next
  case (Exited s k)
  then show ?case by (rule cron_gate_exit)
next
  case (StickyChanged s)
  then show ?case by (elim gate_ok_flags [rotated 2]) (simp_all add: CronPartition_OnStickyChanged_def)
next
  case (Shutdown s)
  then show ?case unfolding BeginShutdown_eq gate_ok_act
    by (intro cron_gate_exit) (simp add: gate_ok_cron slots_used_def slots_max_def disabled_full_def CronQueue_DisableAdmin_def)
next
  case (OtherNodes s db)
  then show ?case by (elim gate_ok_flags [rotated 2]) simp_all
qed (elim gate_ok_flags [rotated 2]; simp add: switch_frame; simp add: cq_flags_def)+

text \<open>
  C18: After its construction, no sequence of events makes a partition run more processes than
  the configured number, and the queue is closed exactly while the workplace is full.
\<close>

theorem cron_capacity:
  assumes "(\<lambda>s s'. \<exists>ev. cron_step cx ev s s')\<^sup>*\<^sup>* (CronPartition_init c db) s'"
    and "0 < cp_concurrency c"
  shows "length (wp_running (cn_workplace s')) \<le> wp_max_operators (cn_workplace s')
    \<and> (cq_disabled_full (cn_queue s') \<longleftrightarrow> CronWorkplace_IsFull (cn_workplace s'))"
proof -
  have "cron_gate_ok cx (CronPartition_init c db)"
    using assms(2) by (simp add: gate_ok_cron slots_used_def slots_max_def disabled_full_def CronPartition_init_def
        CronWorkplace_init_def CronQueue_init_def)
  with assms(1) have "cron_gate_ok cx s'"
    by (induction rule: rtranclp_induct) (auto intro: cron_step_gate)
  then show ?thesis
    by (auto simp: gate_ok_cron slots_used_def slots_max_def disabled_full_def CronWorkplace_IsFull_def)
qed

text \<open>A partition with one slot that is enabled and then claims.\<close>

definition sample_setup :: cron_partition_setup where
  "sample_setup = \<lparr>cp_name = ''cron'', cp_tag = [], cp_sticky = False, cp_use_qrelay = False, cp_pond = False,
     cp_default_timeout = 0, cp_node_name = ''a'', cp_concurrency = 1\<rparr>"

theorem cron_capacity_witness:
  "\<exists>s'. CronQueue_RunClaim sample_ctx (CronPartition_SetStateEnabled True (CronPartition_init sample_setup (cn_db (sample_node 1 [sample_pending])))) = Some s' \<and>
     length (wp_running (cn_workplace s')) \<le> wp_max_operators (cn_workplace s')
     \<and> (cq_disabled_full (cn_queue s') \<longleftrightarrow> CronWorkplace_IsFull (cn_workplace s'))"
proof -
  let ?s = "CronPartition_init sample_setup (cn_db (sample_node 1 [sample_pending]))"
  let ?t = "CronPartition_SetStateEnabled True ?s"
  obtain s' where s': "CronQueue_RunClaim sample_ctx ?t = Some s'"
    using RunClaimLoop_returns [of sample_ctx ?t] unfolding CronQueue_RunClaim_def by (cases "CronQueue_IsEnabled (cn_queue ?t)") auto
  have "(\<lambda>s s'. \<exists>ev. cron_step sample_ctx ev s s')\<^sup>*\<^sup>* ?s ?t" by (auto intro: cron_step.SetStateEnabled)
  also have "(\<lambda>s s'. \<exists>ev. cron_step sample_ctx ev s s')\<^sup>*\<^sup>* ?t s'" using s' by (auto intro: cron_step.ClaimTimer)
  finally show ?thesis using cron_capacity [of sample_ctx sample_setup] s' by (simp add: sample_setup_def)
qed

section \<open>Results\<close>

lemma CronQueue_Finish_up:
  "db_up s \<Longrightarrow> CronQueue_Finish cx job s = (on_queue CronQueue_ScheduleCheckNotify s)\<lparr>cn_db := (cn_db s)\<lparr>cd_jobs :=
     snd (sql_finish_job (cd_now (cn_db s)) (jb_id job) (cq_node_name (cn_queue s)) (cd_jobs (cn_db s)))\<rparr>\<rparr>"
  by (simp add: CronQueue_Finish_def db_try_up)

definition result_of :: "cron_running \<Rightarrow> cron_result \<Rightarrow> cron_node \<Rightarrow> result_row" where
  "result_of r res s = \<lparr>rr_cronjob_id = jb_id (rn_job r), rr_node_name = cq_node_name (cn_queue s),
     rr_start_time = rn_start_time r, rr_exit_status = res_exit_status res, rr_log = res_log res\<rparr>"

lemma Running_SetResult_up:
  assumes "db_up s"
  shows "cn_db (Running_SetResult cx r res s) = (cn_db s)\<lparr>cd_jobs :=
       snd (sql_finish_job (cd_now (cn_db s)) (jb_id (rn_job r)) (cq_node_name (cn_queue s)) (cd_jobs (cn_db s))),
       cd_results := cd_results (cn_db s) @ [result_of r res s]\<rparr>"
    and "db_up (Running_SetResult cx r res s)" "cq_node_name (cn_queue (Running_SetResult cx r res s)) = cq_node_name (cn_queue s)"
  using assms
  by (simp_all add: Running_SetResult_def CronQueue_InsertResult_def Let_def CronQueue_Finish_up db_try_up result_of_def
      CronQueue_ScheduleCheckNotify_def)

lemma OnChildProcessExit_frame [simp]:
  "cn_db (CronPartition_OnChildProcessExit s) = cn_db s" "cn_workplace (CronPartition_OnChildProcessExit s) = cn_workplace s"
  by (simp_all add: CronPartition_OnChildProcessExit_def Let_def)

text \<open>
  C19: When a process ends while the database works, exactly one row of results is written for it,
  with the exit status and the log (-1 and the message when the operator failed or timed out), its
  job is given back and marked for rescheduling if this node still holds it, no other row is
  touched, and the process leaves the workplace.
\<close>

theorem Running_end_reported:
  assumes "cd_faults (cn_db s) = []" "cq_db_ready (cn_queue s)"
    and "res = (case outcome of Inl e \<Rightarrow> \<lparr>res_log = e, res_exit_status = -1\<rparr> | Inr x \<Rightarrow> x)"
    and "s' = Running_OnCompletion cx r outcome s \<or> s' = Running_OnTimeout cx r s \<and> res = \<lparr>res_log = ''Timeout'', res_exit_status = -1\<rparr>"
  shows "cd_results (cn_db s') = cd_results (cn_db s) @ [\<lparr>rr_cronjob_id = jb_id (rn_job r), rr_node_name = cq_node_name (cn_queue s),
            rr_start_time = rn_start_time r, rr_exit_status = res_exit_status res, rr_log = res_log res\<rparr>]
    \<and> cd_jobs (cn_db s') = map (\<lambda>x. if cj_id x = jb_id (rn_job r) \<and> cj_node_name x = Some (cq_node_name (cn_queue s))
          then x\<lparr>cj_node_name := None, cj_node_timeout := None, cj_last_run := Some (cd_now (cn_db s)), cj_next_run := None\<rparr>
          else x) (cd_jobs (cn_db s))
    \<and> wp_running (cn_workplace s') = filter (\<lambda>x. rn_key x \<noteq> rn_key r) (wp_running (cn_workplace s))"
proof -
  have "s' = CronWorkplace_OnCompletion r (Running_SetResult cx r res s)"
    using assms(3,4) by (auto simp: Running_OnCompletion_def Running_OnTimeout_def CronResult_Error_def split: sum.splits)
  moreover have "db_up s" using assms(1,2) by (simp add: db_up_def)
  ultimately show ?thesis
    by (simp add: CronWorkplace_OnCompletion_def Running_SetResult_up result_of_def sql_finish_job_def sql_update_def remove_running_def)
qed

definition sample_running :: cron_running where
  "sample_running = \<lparr>rn_key = 0, rn_job = \<lparr>jb_id = ''1'', jb_account_id = ''acc'', jb_command = ''true'', jb_translate_param = [],
     jb_notification = [], jb_sticky_id = [], jb_timeout = 0\<rparr>, rn_start_time = ''3'', rn_start_time2 = 0, rn_timeout = None,
     rn_site = ''acc'', rn_tag = []\<rparr>"

definition sample_busy_node :: cron_node where
  "sample_busy_node = (let s = sample_node 1 [sample_pending\<lparr>cj_node_name := Some ''a''\<rparr>]
     in s\<lparr>cn_workplace := (cn_workplace s)\<lparr>wp_running := [sample_running]\<rparr>\<rparr>)"

lemma sample_busy_node_simps [simp]:
  "cd_faults (cn_db sample_busy_node) = []" "cq_db_ready (cn_queue sample_busy_node)" "cd_results (cn_db sample_busy_node) = []"
  "cd_jobs (cn_db sample_busy_node) = [sample_pending\<lparr>cj_node_name := Some ''a''\<rparr>]" "cq_node_name (cn_queue sample_busy_node) = ''a''"
  "wp_running (cn_workplace sample_busy_node) = [sample_running]" "cd_now (cn_db sample_busy_node) = 5 * ns"
  "jb_id (rn_job sample_running) = ''1''" "rn_start_time sample_running = ''3''" "cj_id sample_pending = ''1''"
  by (simp_all add: sample_busy_node_def sample_node_def Let_def sample_running_def sample_pending_def sample_cron_def)

theorem Running_end_reported_witness:
  "let s' = Running_OnCompletion sample_ctx sample_running (Inr \<lparr>res_log = ''ok'', res_exit_status = 0\<rparr>) sample_busy_node
   in cd_results (cn_db s') = [\<lparr>rr_cronjob_id = ''1'', rr_node_name = ''a'', rr_start_time = ''3'', rr_exit_status = 0, rr_log = ''ok''\<rparr>]
    \<and> cd_jobs (cn_db s') = [sample_pending\<lparr>cj_node_name := None, cj_node_timeout := None, cj_last_run := Some (5 * ns), cj_next_run := None\<rparr>]
    \<and> wp_running (cn_workplace s') = []"
  unfolding Let_def
  using Running_end_reported [of sample_busy_node "\<lparr>res_log = ''ok'', res_exit_status = 0\<rparr>" "Inr \<lparr>res_log = ''ok'', res_exit_status = 0\<rparr>"
      _ sample_ctx sample_running] by simp

section \<open>Shutdown\<close>

definition admin :: "cron_node \<Rightarrow> bool" where
  "admin s = fst (snd (cq_flags s))"

lemma admin_frame [simp]: "admin (act a s) = admin s" "admin (CronPartition_OnChildProcessExit s) = admin s" "admin (remove_running k s) = admin s"
  "admin (Running_SetResult cx r res s) = admin s"
  by (simp_all add: admin_def CronPartition_OnChildProcessExit_def Let_def remove_running_def) (simp_all add: cq_flags_def)

lemma admin_cancel [simp]: "admin (cancel_running cx rs s) = admin s"
  by (induction rs arbitrary: s) (simp_all add: Running_Cancel_def)

lemma admin_exit [simp]: "admin (cron_exit_run cx k s) = admin s"
  by (cases k) (simp_all add: Running_OnCompletion_def Running_OnTimeout_def CronWorkplace_OnCompletion_def
      CronWorkplace_CancelAll_def CronWorkplace_CancelTag_def Let_def split: sum.splits)

lemma exit_running: "wp_running (cn_workplace s) = [] \<Longrightarrow> wp_running (cn_workplace (cron_exit_run cx k s)) = []"
  by (rule cron_exit_run_cases [of cx k s]) (auto simp: slots_used_def)

lemma cancel_running_all: "set rs \<supseteq> set (wp_running (cn_workplace s)) \<Longrightarrow> wp_running (cn_workplace (cancel_running cx rs s)) = []"
proof (induction rs arbitrary: s)
  case (Cons r rs)
  then have "set (wp_running (cn_workplace (Running_Cancel cx r (remove_running (rn_key r) s)))) \<subseteq> set rs"
    by (auto simp: Running_Cancel_def remove_running_def)
  then show ?case by (simp add: Cons.IH)
qed simp


lemma BeginShutdown_admin: "\<not> admin (CronPartition_BeginShutdown cx s)"
  unfolding BeginShutdown_eq admin_frame(1) admin_exit by (simp add: admin_def cq_flags_def CronQueue_DisableAdmin_def)

lemma CancelAll_running: "wp_running (cn_workplace (CronWorkplace_CancelAll cx s)) = []"
  by (simp add: CronWorkplace_CancelAll_def Let_def cancel_running_all)

lemma BeginShutdown_running: "wp_running (cn_workplace (CronPartition_BeginShutdown cx s)) = []"
  unfolding BeginShutdown_eq by (simp add: CancelAll_running)

definition stopped :: "cron_node \<Rightarrow> bool" where
  "stopped s \<longleftrightarrow> \<not> admin s \<and> wp_running (cn_workplace s) = []"

lemma stopped_cong: "cn_workplace s' = cn_workplace s \<Longrightarrow> admin s' = admin s \<Longrightarrow> stopped s \<Longrightarrow> stopped s'"
  by (simp add: stopped_def)

lemma stopped_step: "cron_step cx ev s s' \<Longrightarrow> ev \<noteq> EvEnableQueue \<Longrightarrow> stopped s \<Longrightarrow> stopped s'"
proof (induction rule: cron_step.induct)
  case (ClaimTimer s s')
  then show ?case by (auto simp: CronQueue_RunClaim_def CronQueue_IsEnabled_def stopped_def admin_def cq_flags_def split: if_splits)
next
  case (SchedulerTimer s s')
  then show ?case using CronQueue_RunScheduler_gate [of cx s s'] by (simp add: stopped_def admin_def)
next
  case (Connected s x s')
  let ?s0 = "on_queue (\<lambda>q. q\<lparr>cq_db_defined := True, cq_db_ready := True\<rparr>) s"
  have "cn_workplace s' = cn_workplace s" "cq_flags s' = cq_flags s"
    using CronQueue_OnConnect_gate [of cx ?s0] Connected(1) by (simp_all add: cq_flags_def)
  with Connected(3) show ?case by (simp add: stopped_def admin_def)
next
  case (Exited s k)
  then show ?case by (simp add: stopped_def exit_running)
next
  case (Shutdown s)
  then show ?case by (simp add: stopped_def BeginShutdown_admin BeginShutdown_running)
next
  case (Notified s name)
  then show ?case by (simp add: stopped_def admin_def cq_flags_def CronQueue_OnNotify_def CronQueue_ScheduleScheduler_def CronQueue_ScheduleClaim_def)
next
  case (Disconnected s d)
  then show ?case by (simp add: stopped_def admin_def cq_flags_def CronQueue_OnDisconnect_def)
next
  case (StickyChanged s)
  then show ?case by (simp add: stopped_def admin_def CronPartition_OnStickyChanged_def)
next
  case (OtherNodes s db)
  then show ?case by (simp add: stopped_def admin_def)
qed (simp_all add: stopped_def admin_def switch_frame, simp_all add: cq_flags_def)

lemma remove_running_up [simp]: "db_up (remove_running k s) = db_up s" "cn_queue (remove_running k s) = cn_queue s"
  by (simp_all add: remove_running_def)

lemma cancel_running_up:
  "db_up s \<Longrightarrow> cd_results (cn_db (cancel_running cx rs s)) =
     cd_results (cn_db s) @ map (\<lambda>r. result_of r (CronResult_Error ''Canceled'') s) rs"
proof (induction rs arbitrary: s)
  case (Cons r rs)
  let ?s = "Running_Cancel cx r (remove_running (rn_key r) s)"
  have s: "db_up ?s" "cq_node_name (cn_queue ?s) = cq_node_name (cn_queue s)"
    "cd_results (cn_db ?s) = cd_results (cn_db s) @ [result_of r (CronResult_Error ''Canceled'') s]"
    using Cons.prems by (simp_all add: Running_Cancel_def Running_SetResult_up result_of_def)
  then have "result_of x (CronResult_Error ''Canceled'') ?s = result_of x (CronResult_Error ''Canceled'') s" for x
    by (simp add: result_of_def)
  with Cons.IH [OF s(1)] s show ?case by simp
qed simp

text \<open>
  C20: Shutting down a partition while the database works writes a result "Canceled" with status -1
  for every running process, and from then on no event but an explicit re-enabling of the queue
  makes a process run.
\<close>

theorem BeginShutdown_final:
  assumes "cd_faults (cn_db s) = []" "cq_db_ready (cn_queue s)"
    and "(\<lambda>t t'. \<exists>ev. ev \<noteq> EvEnableQueue \<and> cron_step cx ev t t')\<^sup>*\<^sup>* (CronPartition_BeginShutdown cx s) s'"
  shows "cd_results (cn_db (CronPartition_BeginShutdown cx s)) = cd_results (cn_db s) @
      map (\<lambda>r. \<lparr>rr_cronjob_id = jb_id (rn_job r), rr_node_name = cq_node_name (cn_queue s), rr_start_time = rn_start_time r,
                rr_exit_status = -1, rr_log = ''Canceled''\<rparr>) (wp_running (cn_workplace s))
    \<and> CronWorkplace_IsEmpty (cn_workplace s')"
proof
  let ?t = "(CronQueue_DisableAdmin (s\<lparr>cn_sticky := map_option Sticky_BeginShutdown (cn_sticky s)\<rparr>))
        \<lparr>cn_workplace := (cn_workplace s)\<lparr>wp_shutting_down := True\<rparr>\<rparr>"
  have t: "db_up ?t" "cn_db ?t = cn_db s" "cq_node_name (cn_queue ?t) = cq_node_name (cn_queue s)"
    "wp_running (cn_workplace ?t) = wp_running (cn_workplace s)"
    using assms(1,2) by (simp_all add: db_up_def CronQueue_DisableAdmin_def)
  show "cd_results (cn_db (CronPartition_BeginShutdown cx s)) = cd_results (cn_db s) @
      map (\<lambda>r. \<lparr>rr_cronjob_id = jb_id (rn_job r), rr_node_name = cq_node_name (cn_queue s), rr_start_time = rn_start_time r,
                rr_exit_status = -1, rr_log = ''Canceled''\<rparr>) (wp_running (cn_workplace s))"
    unfolding BeginShutdown_eq cron_exit_run.simps CronWorkplace_CancelAll_def Let_def
    using cancel_running_up [OF t(1)] t(2-) by (simp add: result_of_def CronResult_Error_def)
  have "stopped (CronPartition_BeginShutdown cx s)"
    by (simp add: stopped_def BeginShutdown_admin BeginShutdown_running)
  with assms(3) have "stopped s'" by (induction rule: rtranclp_induct) (auto intro: stopped_step)
  then show "CronWorkplace_IsEmpty (cn_workplace s')" by (simp add: stopped_def CronWorkplace_IsEmpty_def)
qed

theorem BeginShutdown_final_witness:
  "cd_results (cn_db (CronPartition_BeginShutdown sample_ctx sample_busy_node)) =
     [\<lparr>rr_cronjob_id = ''1'', rr_node_name = ''a'', rr_start_time = ''3'', rr_exit_status = -1, rr_log = ''Canceled''\<rparr>]
   \<and> CronWorkplace_IsEmpty (cn_workplace (CronPartition_BeginShutdown sample_ctx sample_busy_node))"
  using BeginShutdown_final [of sample_busy_node sample_ctx "CronPartition_BeginShutdown sample_ctx sample_busy_node"] by simp

section \<open>Operators\<close>

lemma append_args_result: "append_args args as = Inr x \<Longrightarrow> x = args @ as"
  by (induction args as rule: append_args.induct) (auto split: if_splits)

lemma append_args_ok: "append_args args as = (if length args + length as \<le> 4096 \<or> as = [] then Inr (args @ as) else Inl TooManyAppend)"
  by (induction args as rule: append_args.induct) (auto split: if_splits)


definition sample_response :: "execute_options \<Rightarrow> translate_response" where
  "sample_response opts = \<lparr>tr_status = 0, tr_message = None, tr_execute_options = Some opts, tr_site = Some ''site'', tr_timeout = 60\<rparr>"

definition sample_options :: execute_options where
  "sample_options = \<lparr>eo_uid_gid_empty = False, eo_execute = Some ''/bin/backup'', eo_args = [''-v''], eo_process_name = None,
     eo_cgroup_name = Some ''cron'', eo_tag = ''t''\<rparr>"


section \<open>Claims are not renewed\<close>

text \<open>
  The claim of a cron job ends five minutes after it was made, even while its process is
  running: the next expiry run of any other node releases the job, and that node's claim then succeeds
  although the first node has not finished.
\<close>

theorem cron_claim_expires:
  assumes "keys_unique cj_id t" and "row_of cj_id j t = Some r" "cj_enabled r" "cj_node_name r = None"
    and "a \<noteq> b" and "t0 + 300 * ns < now"
  shows "0 < fst (sql_cron_claim_job t0 j a (300 * ns) t)
    \<and> 0 < fst (sql_cron_claim_job now j b (300 * ns) (snd (sql_cron_expire_jobs now b (snd (sql_cron_claim_job t0 j a (300 * ns) t)))))"
proof -
  let ?t1 = "snd (sql_cron_claim_job t0 j a (300 * ns) t)"
  let ?t2 = "snd (sql_cron_expire_jobs now b ?t1)"
  have r: "cj_id r = j" using assms(2) by (auto dest: row_of_SomeD)
  have k: "keys_unique cj_id ?t1" "keys_unique cj_id ?t2"
    using assms(1) by (simp_all add: sql_cron_claim_job_def sql_cron_expire_jobs_def)
  have "row_of cj_id j ?t1 = Some (r\<lparr>cj_node_name := Some a, cj_node_timeout := Some (t0 + 300 * ns)\<rparr>)"
    using assms(2-4) r by (simp add: sql_cron_claim_job_def row_of_update)
  then have "row_of cj_id j ?t2 = Some (cron_release_row (r\<lparr>cj_node_name := Some a, cj_node_timeout := Some (t0 + 300 * ns)\<rparr>))"
    using assms(5,6) by (simp add: sql_cron_expire_jobs_def row_of_update cron_row_expired_def)
  with affected_key_pos [OF k(2), of j] have "0 < fst (sql_cron_claim_job now j b (300 * ns) ?t2)"
    using assms(3) by (simp add: sql_cron_claim_job_def cron_release_row_def)
  moreover have "0 < fst (sql_cron_claim_job t0 j a (300 * ns) t)"
    using affected_key_pos [OF assms(1), of j] assms(2-4) by (simp add: sql_cron_claim_job_def)
  ultimately show ?thesis by simp
qed

theorem cron_claim_expires_witness:
  "let t = [sample_cron ''1'' ''@hourly'']; t1 = snd (sql_cron_claim_job 0 ''1'' ''a'' (300 * ns) t)
   in 0 < fst (sql_cron_claim_job 0 ''1'' ''a'' (300 * ns) t)
     \<and> 0 < fst (sql_cron_claim_job (301 * ns) ''1'' ''b'' (300 * ns) (snd (sql_cron_expire_jobs (301 * ns) ''b'' t1)))"
  unfolding Let_def
  by (rule cron_claim_expires [of "[sample_cron ''1'' ''@hourly'']" "''1''" "sample_cron ''1'' ''@hourly''" "''a''" "''b''" 0 "301 * ns"])
    (simp_all add: sample_cron_ok, simp_all add: sample_cron_def)

end
