(* ===== verification/Plan_Loader.thy ===== *)
theory Plan_Loader
  imports Sql_Table
begin

text \<open>
  Plans (\<open>src/workshop/Plan.hxx\<close>), rate limits (\<open>RateLimit.hxx\<close>, \<open>RateLimit.cxx\<close>) and
  the parser of plan files (\<open>PlanLoader.cxx\<close>). The tokenizer of a line
  (\<open>FileLineParser\<close>), the reader of a file (\<open>ParseConfigFile\<close> with
  \<open>CommentConfigParser\<close>), \<open>ResourceLimits::Parse\<close> and \<open>Pg::ParseIntervalS\<close> belong to
  \<open>libcommon\<close>, the user database and the file system to the operating system: they are arguments.
\<close>

section \<open>Plans and rate limits\<close>

record rate_limit =
  rl_duration :: int
  rl_max_count :: nat

definition RateLimit_IsDefined :: "rate_limit \<Rightarrow> bool" where
  "RateLimit_IsDefined r \<longleftrightarrow> rl_duration r > 0"

datatype plan_type = TypeExec | TypeTranslate

record plan =
  p_args :: "string list"
  p_timeout :: string
  p_chroot :: string
  p_reap_finished :: string
  p_parsed_timeout :: int
  p_rate_limits :: "rate_limit list"
  p_uid :: nat
  p_gid :: nat
  p_groups :: "nat list"
  p_umask :: int
  p_rlimits :: "string list"
  p_priority :: int
  p_concurrency :: nat
  p_sched_idle :: bool
  p_ioprio_idle :: bool
  p_private_network :: bool
  p_private_tmp :: bool
  p_control_channel :: bool
  p_allow_spawn :: bool
  p_translate :: bool
  p_notify_progress :: bool

definition plan_init :: plan where
  "plan_init = \<lparr>p_args = [], p_timeout = [], p_chroot = [], p_reap_finished = [], p_parsed_timeout = 0, p_rate_limits = [],
     p_uid = 65534, p_gid = 65534, p_groups = [], p_umask = -1, p_rlimits = [], p_priority = 10, p_concurrency = 0,
     p_sched_idle = False, p_ioprio_idle = False, p_private_network = False, p_private_tmp = False, p_control_channel = False,
     p_allow_spawn = False, p_translate = False, p_notify_progress = False\<rparr>"

definition GetType :: "plan \<Rightarrow> plan_type" where
  "GetType p = (if p_translate p then TypeTranslate else TypeExec)"

text \<open>\<open>None\<close> is the failed assertion.\<close>

definition GetExecutablePath :: "plan \<Rightarrow> string option" where
  "GetExecutablePath p = (case p_args p of [] \<Rightarrow> None | x # _ \<Rightarrow> Some x)"

section \<open>Errors and the environment\<close>

datatype plan_error = LineSyntax | ExecAlreadySpecified | EmptyExecutable | AllowSpawnRequiresControlChannel | IntervalSyntax
  | NotPositiveDuration string | StatFailed string | NotADirectory string | NoSuchUser string | RootUserForbidden
  | RootGroupForbidden | GetgrouplistFailed | UmaskNotOctal | UmaskSyntax | UmaskTooLarge | RlimitsSyntax | UnknownOption string
  | TranslateWithExec | TranslateWithSpawn | NoExec | RateNumberExpected | RateSlashExpected | FileUnreadable

datatype file_kind = DirectoryFile | RegularFile | OtherFile

text \<open>
  The tokenizer. \<open>RelaxedValues\<close> lists what successive calls of \<open>NextRelaxedValue()\<close> return
  until \<open>nullptr\<close>; the others return the value and the rest of the line, or throw.
\<close>

record line_lib =
  ExpectWord :: "string \<Rightarrow> (string \<times> string) option"
  IsEnd :: "string \<Rightarrow> bool"
  RelaxedValues :: "string \<Rightarrow> string list"
  NextBool :: "string \<Rightarrow> (bool \<times> string) option"
  ExpectValueAndEnd :: "string \<Rightarrow> string option"
  NextPositiveInteger :: "string \<Rightarrow> (nat \<times> string) option"

record plan_sys =
  ps_pg :: pg_lib
  ps_str :: string_lib
  ps_line :: line_lib
  ps_stat :: "string \<Rightarrow> file_kind option"
  ps_getpwnam :: "string \<Rightarrow> (nat \<times> nat) option"
  ps_getgrouplist :: "string \<Rightarrow> nat \<Rightarrow> nat list"
  ps_rlimits_ok :: "string \<Rightarrow> bool"

definition require :: "'e \<Rightarrow> 'a option \<Rightarrow> 'e + 'a" where
  "require e x = (case x of None \<Rightarrow> Inl e | Some v \<Rightarrow> Inr v)"

lemma require_simps [simp]: "require e (Some v) = Inr v" "require e None = Inl e"
  by (simp_all add: require_def)

lemma require_eq_Inr [simp]: "require e x = Inr v \<longleftrightarrow> x = Some v"
  by (simp add: require_def split: option.splits)

definition ExpectEnd :: "line_lib \<Rightarrow> string \<Rightarrow> plan_error + unit" where
  "ExpectEnd lib rest = (if IsEnd lib rest then Inr () else Inl LineSyntax)"

lemma ExpectEnd_eq_Inr [simp]: "ExpectEnd lib rest = Inr u \<longleftrightarrow> IsEnd lib rest"
  by (simp add: ExpectEnd_def)

text \<open>\<open>const unsigned max_count = strtoul(...)\<close> keeps the low 32 bits.\<close>

definition RateLimit_Parse :: "plan_sys \<Rightarrow> string \<Rightarrow> plan_error + rate_limit" where
  "RateLimit_Parse sys s0 =
     (let s = StripLeft (ps_str sys) s0; (v, endptr) = strtoul 10 s
      in if endptr = s then Inl RateNumberExpected
         else (let s2 = StripLeft (ps_str sys) endptr
               in if cderef s2 \<noteq> CHR ''/'' then Inl RateSlashExpected
                  else then_do (require IntervalSyntax (ParseIntervalS (ps_pg sys) (StripLeft (ps_str sys) (tl s2))))
                         (\<lambda>d. Inr \<lparr>rl_duration = d, rl_max_count = v mod 2 ^ 32\<rparr>)))"

text \<open>\<open>atoi()\<close>: \<open>strtol()\<close> with base 10, converted to \<open>int\<close>.\<close>

definition atoi :: "string \<Rightarrow> int" where
  "atoi s =
     (let t = dropWhile is_space s; n = int (digits_value 10 (takeWhile (is_digit 10) (skip_sign t)));
          v = (if cderef t = CHR ''-'' then max (- (2 ^ 63)) (- n) else min (2 ^ 63 - 1) n)
      in (v + 2 ^ 31) mod 2 ^ 32 - 2 ^ 31)"

section \<open>The parser\<close>

record plan_loader =
  ld_plan :: plan
  ld_seen_exec_option :: bool

definition plan_loader_init :: plan_loader where
  "plan_loader_init = \<lparr>ld_plan = plan_init, ld_seen_exec_option = False\<rparr>"

definition upd_plan :: "(plan \<Rightarrow> plan) \<Rightarrow> plan_loader \<Rightarrow> plan_loader" where
  "upd_plan f l = l\<lparr>ld_plan := f (ld_plan l)\<rparr>"

definition upd_exec :: "(plan \<Rightarrow> plan) \<Rightarrow> plan_loader \<Rightarrow> plan_loader" where
  "upd_exec f l = (upd_plan f l)\<lparr>ld_seen_exec_option := True\<rparr>"

text \<open>\<open>getgrouplist()\<close> fails when the buffer of 64 entries is too small.\<close>

definition get_user_groups :: "plan_sys \<Rightarrow> string \<Rightarrow> nat \<Rightarrow> plan_error + nat list" where
  "get_user_groups sys user gid =
     (let gs = ps_getgrouplist sys user gid in if 64 < length gs then Inl GetgrouplistFailed else Inr gs)"

definition parse_exec :: "plan_sys \<Rightarrow> string \<Rightarrow> plan_loader \<Rightarrow> plan_error + plan_loader" where
  "parse_exec sys rest l =
     (if p_args (ld_plan l) \<noteq> [] then Inl ExecAlreadySpecified
      else (case RelaxedValues (ps_line sys) rest of
              [] \<Rightarrow> Inl EmptyExecutable
            | v # vs \<Rightarrow> if v = [] then Inl EmptyExecutable else Inr (upd_exec (\<lambda>p. p\<lparr>p_args := p_args p @ v # vs\<rparr>) l)))"

definition parse_chroot :: "plan_sys \<Rightarrow> string \<Rightarrow> plan_loader \<Rightarrow> plan_error + plan_loader" where
  "parse_chroot sys rest l =
     then_do (require LineSyntax (ExpectValueAndEnd (ps_line sys) rest))
       (\<lambda>value. case ps_stat sys value of
          None \<Rightarrow> Inl (StatFailed value)
        | Some k \<Rightarrow> if k \<noteq> DirectoryFile then Inl (NotADirectory value) else Inr (upd_exec (\<lambda>p. p\<lparr>p_chroot := value\<rparr>) l))"

definition parse_user :: "plan_sys \<Rightarrow> string \<Rightarrow> plan_loader \<Rightarrow> plan_error + plan_loader" where
  "parse_user sys rest l =
     then_do (require LineSyntax (ExpectValueAndEnd (ps_line sys) rest))
       (\<lambda>value. case ps_getpwnam sys value of
          None \<Rightarrow> Inl (NoSuchUser value)
        | Some (uid, gid) \<Rightarrow>
            if uid = 0 then Inl RootUserForbidden
            else if gid = 0 then Inl RootGroupForbidden
            else then_do (get_user_groups sys value gid)
                   (\<lambda>gs. Inr (upd_exec (\<lambda>p. p\<lparr>p_uid := uid, p_gid := gid, p_groups := gs\<rparr>) l)))"

definition parse_umask :: "plan_sys \<Rightarrow> string \<Rightarrow> plan_loader \<Rightarrow> plan_error + plan_loader" where
  "parse_umask sys rest l =
     then_do (require LineSyntax (ExpectValueAndEnd (ps_line sys) rest))
       (\<lambda>s. if cderef s \<noteq> CHR ''0'' then Inl UmaskNotOctal
            else (let (value, endptr) = strtoul 8 s
                  in if endptr = s \<or> cderef endptr \<noteq> NUL then Inl UmaskSyntax
                     else if 511 < value then Inl UmaskTooLarge
                     else Inr (upd_exec (\<lambda>p. p\<lparr>p_umask := int value\<rparr>) l)))"

definition parse_reap_finished :: "plan_sys \<Rightarrow> string \<Rightarrow> plan_loader \<Rightarrow> plan_error + plan_loader" where
  "parse_reap_finished sys rest l =
     then_do (require LineSyntax (ExpectValueAndEnd (ps_line sys) rest))
       (\<lambda>value. then_do (require IntervalSyntax (ParseIntervalS (ps_pg sys) value))
          (\<lambda>d. if d \<le> 0 then Inl (NotPositiveDuration value) else Inr (upd_plan (\<lambda>p. p\<lparr>p_reap_finished := value\<rparr>) l)))"

text \<open>An option without argument.\<close>

definition flag_option :: "plan_sys \<Rightarrow> string \<Rightarrow> (plan \<Rightarrow> plan) \<Rightarrow> plan_loader \<Rightarrow> plan_error + plan_loader" where
  "flag_option sys rest f l = then_do (ExpectEnd (ps_line sys) rest) (\<lambda>_. Inr (upd_exec f l))"

definition PlanLoader_ParseLine :: "plan_sys \<Rightarrow> string \<Rightarrow> plan_loader \<Rightarrow> plan_error + plan_loader" where
  "PlanLoader_ParseLine sys line l =
     then_do (require LineSyntax (ExpectWord (ps_line sys) line)) (\<lambda>(key, rest).
       let value = require LineSyntax (ExpectValueAndEnd (ps_line sys) rest); end = ExpectEnd (ps_line sys) rest
       in if key = ''exec'' then parse_exec sys rest l
          else if key = ''translate'' then Inr (upd_plan (\<lambda>p. p\<lparr>p_translate := True\<rparr>) l)
          else if key = ''notify_progress'' then Inr (upd_plan (\<lambda>p. p\<lparr>p_notify_progress := True\<rparr>) l)
          else if key = ''control_channel'' then
            (if IsEnd (ps_line sys) rest then Inr (upd_plan (\<lambda>p. p\<lparr>p_control_channel := True\<rparr>) l)
             else then_do (require LineSyntax (NextBool (ps_line sys) rest)) (\<lambda>(b, rest').
                    then_do (ExpectEnd (ps_line sys) rest') (\<lambda>_. Inr (upd_plan (\<lambda>p. p\<lparr>p_control_channel := b\<rparr>) l))))
          else if key = ''allow_spawn'' then
            (if \<not> p_control_channel (ld_plan l) then Inl AllowSpawnRequiresControlChannel
             else then_do end (\<lambda>_. Inr (upd_plan (\<lambda>p. p\<lparr>p_allow_spawn := True\<rparr>) l)))
          else if key = ''timeout'' then
            then_do value (\<lambda>v. then_do (require IntervalSyntax (ParseIntervalS (ps_pg sys) v))
              (\<lambda>d. Inr (upd_plan (\<lambda>p. p\<lparr>p_timeout := v, p_parsed_timeout := d\<rparr>) l)))
          else if key = ''reap_finished'' then parse_reap_finished sys rest l
          else if key = ''chroot'' then parse_chroot sys rest l
          else if key = ''user'' then parse_user sys rest l
          else if key = ''umask'' then parse_umask sys rest l
          else if key = ''nice'' then then_do value (\<lambda>v. Inr (upd_exec (\<lambda>p. p\<lparr>p_priority := atoi v\<rparr>) l))
          else if key = ''sched_idle'' then flag_option sys rest (\<lambda>p. p\<lparr>p_sched_idle := True\<rparr>) l
          else if key = ''ioprio_idle'' then flag_option sys rest (\<lambda>p. p\<lparr>p_ioprio_idle := True\<rparr>) l
          else if key = ''idle'' then flag_option sys rest (\<lambda>p. p\<lparr>p_sched_idle := True, p_ioprio_idle := True\<rparr>) l
          else if key = ''private_network'' then flag_option sys rest (\<lambda>p. p\<lparr>p_private_network := True\<rparr>) l
          else if key = ''private_tmp'' then flag_option sys rest (\<lambda>p. p\<lparr>p_private_tmp := True\<rparr>) l
          else if key = ''rlimits'' then
            then_do value (\<lambda>v. if \<not> ps_rlimits_ok sys v then Inl RlimitsSyntax
                               else Inr (upd_exec (\<lambda>p. p\<lparr>p_rlimits := p_rlimits p @ [v]\<rparr>) l))
          else if key = ''concurrency'' then
            then_do (require LineSyntax (NextPositiveInteger (ps_line sys) rest)) (\<lambda>(n, rest').
              then_do (ExpectEnd (ps_line sys) rest') (\<lambda>_. Inr (upd_plan (\<lambda>p. p\<lparr>p_concurrency := n\<rparr>) l)))
          else if key = ''rate_limit'' then
            then_do value (\<lambda>v. then_do (RateLimit_Parse sys v)
              (\<lambda>r. Inr (upd_plan (\<lambda>p. p\<lparr>p_rate_limits := p_rate_limits p @ [r]\<rparr>) l)))
          else Inl (UnknownOption key))"

definition PlanLoader_Finish :: "plan_loader \<Rightarrow> plan_error + plan_loader" where
  "PlanLoader_Finish l =
     (let p = ld_plan l; l' = (if p_timeout p = [] then upd_plan (\<lambda>p. p\<lparr>p_timeout := ''10 minutes''\<rparr>) l else l)
      in if p_translate p
         then (if ld_seen_exec_option l then Inl TranslateWithExec
               else if p_allow_spawn p then Inl TranslateWithSpawn else Inr l')
         else if p_args p = [] then Inl NoExec else Inr l')"

fun parse_plan_lines :: "plan_sys \<Rightarrow> string list \<Rightarrow> plan_loader \<Rightarrow> plan_error + plan_loader" where
  "parse_plan_lines sys [] l = Inr l"
| "parse_plan_lines sys (x # xs) l = then_do (PlanLoader_ParseLine sys x l) (\<lambda>l'. parse_plan_lines sys xs l')"

text \<open>The lines of the file without comments, \<open>None\<close> when it cannot be read.\<close>

definition LoadPlanFile :: "plan_sys \<Rightarrow> string list option \<Rightarrow> plan_error + plan" where
  "LoadPlanFile sys file =
     then_do (require FileUnreadable file) (\<lambda>lines.
     then_do (parse_plan_lines sys lines plan_loader_init) (\<lambda>l.
     then_do (PlanLoader_Finish l) (\<lambda>l'. Inr (ld_plan l'))))"

section \<open>Well-formed plans\<close>

text \<open>What holds of every plan under construction, and of one without any execute option.\<close>

definition core_ok :: "plan \<Rightarrow> bool" where
  "core_ok p \<longleftrightarrow> (p_args p = [] \<or> hd (p_args p) \<noteq> []) \<and> p_uid p \<noteq> 0 \<and> p_gid p \<noteq> 0 \<and> length (p_groups p) \<le> 64
     \<and> -1 \<le> p_umask p \<and> p_umask p \<le> 511"

definition exec_default :: "plan \<Rightarrow> bool" where
  "exec_default p \<longleftrightarrow> p_args p = [] \<and> p_chroot p = [] \<and> p_uid p = 65534 \<and> p_gid p = 65534 \<and> p_groups p = [] \<and> p_umask p = -1
     \<and> p_rlimits p = [] \<and> p_priority p = 10 \<and> \<not> p_sched_idle p \<and> \<not> p_ioprio_idle p \<and> \<not> p_private_network p \<and> \<not> p_private_tmp p"

definition loader_ok :: "plan_loader \<Rightarrow> bool" where
  "loader_ok l \<longleftrightarrow> core_ok (ld_plan l) \<and> (\<not> ld_seen_exec_option l \<longrightarrow> exec_default (ld_plan l))"

lemma loader_ok_init [wf_intros]: "loader_ok plan_loader_init"
  by (simp add: loader_ok_def plan_loader_init_def plan_init_def core_ok_def exec_default_def)

lemma upd_exec_ok: "core_ok (f (ld_plan l)) \<Longrightarrow> loader_ok (upd_exec f l)"
  by (simp add: loader_ok_def upd_exec_def upd_plan_def)

lemma upd_plan_ok:
  "loader_ok l \<Longrightarrow> (core_ok (ld_plan l) \<Longrightarrow> core_ok (f (ld_plan l))) \<Longrightarrow> (exec_default (ld_plan l) \<Longrightarrow> exec_default (f (ld_plan l)))
   \<Longrightarrow> loader_ok (upd_plan f l)"
  by (simp add: loader_ok_def upd_plan_def)

lemma parse_option_ok:
  assumes "loader_ok l"
  shows "parse_exec sys rest l = Inr l' \<Longrightarrow> loader_ok l'" "parse_chroot sys rest l = Inr l' \<Longrightarrow> loader_ok l'"
    "parse_user sys rest l = Inr l' \<Longrightarrow> loader_ok l'" "parse_umask sys rest l = Inr l' \<Longrightarrow> loader_ok l'"
    "parse_reap_finished sys rest l = Inr l' \<Longrightarrow> loader_ok l'"
    "flag_option sys rest f l = Inr l' \<Longrightarrow> (core_ok (ld_plan l) \<Longrightarrow> core_ok (f (ld_plan l))) \<Longrightarrow> loader_ok l'"
proof -
  have core: "core_ok (ld_plan l)" using assms by (simp add: loader_ok_def)
  show "parse_exec sys rest l = Inr l' \<Longrightarrow> loader_ok l'"
    using core by (auto simp: parse_exec_def core_ok_def intro!: upd_exec_ok split: list.splits if_splits)
  show "parse_chroot sys rest l = Inr l' \<Longrightarrow> loader_ok l'"
    using core by (auto simp: parse_chroot_def then_do_eq_Inr core_ok_def intro!: upd_exec_ok split: option.splits if_splits)
  show "loader_ok l'" if u: "parse_user sys rest l = Inr l'"
  proof -
    obtain v where v: "ExpectValueAndEnd (ps_line sys) rest = Some v" using u by (auto simp: parse_user_def then_do_eq_Inr)
    obtain uid gid where "ps_getpwnam sys v = Some (uid, gid)" using u v by (cases "ps_getpwnam sys v") (auto simp: parse_user_def)
    then show ?thesis
      using u v core by (auto simp: parse_user_def get_user_groups_def Let_def core_ok_def intro!: upd_exec_ok split: if_splits)
  qed
  show "parse_umask sys rest l = Inr l' \<Longrightarrow> loader_ok l'"
    using core by (auto simp: parse_umask_def Let_def case_prod_beta then_do_eq_Inr core_ok_def intro!: upd_exec_ok split: if_splits)
  show "parse_reap_finished sys rest l = Inr l' \<Longrightarrow> loader_ok l'"
    using assms by (auto simp: parse_reap_finished_def then_do_eq_Inr core_ok_def exec_default_def intro!: upd_plan_ok split: if_splits)
  show "flag_option sys rest f l = Inr l' \<Longrightarrow> (core_ok (ld_plan l) \<Longrightarrow> core_ok (f (ld_plan l))) \<Longrightarrow> loader_ok l'"
    using core by (auto simp: flag_option_def then_do_eq_Inr intro!: upd_exec_ok)
qed

lemma PlanLoader_ParseLine_ok:
  assumes "PlanLoader_ParseLine sys line l = Inr l'" "loader_ok l"
  shows "loader_ok l'"
proof -
  obtain key rest where k: "ExpectWord (ps_line sys) line = Some (key, rest)"
    using assms(1) by (auto simp: PlanLoader_ParseLine_def then_do_eq_Inr)
  have core: "core_ok (ld_plan l)" using assms(2) by (simp add: loader_ok_def)
  have cores: "core_ok ((ld_plan l)\<lparr>p_sched_idle := b\<rparr>)" "core_ok ((ld_plan l)\<lparr>p_ioprio_idle := b\<rparr>)"
    "core_ok ((ld_plan l)\<lparr>p_sched_idle := b, p_ioprio_idle := b\<rparr>)" "core_ok ((ld_plan l)\<lparr>p_private_network := b\<rparr>)"
    "core_ok ((ld_plan l)\<lparr>p_private_tmp := b\<rparr>)" "core_ok ((ld_plan l)\<lparr>p_priority := i\<rparr>)" "core_ok ((ld_plan l)\<lparr>p_rlimits := r\<rparr>)"
    for b i r using core by (simp_all add: core_ok_def)
  have "key \<in> {''exec'', ''chroot'', ''user'', ''umask'', ''reap_finished'', ''sched_idle'', ''ioprio_idle'', ''idle'', ''private_network'', ''private_tmp''}
      \<or> key \<in> {''nice'', ''rlimits''}
      \<or> key \<in> {''translate'', ''notify_progress'', ''control_channel'', ''allow_spawn'', ''timeout'', ''concurrency'', ''rate_limit''}"
    using assms(1) k by (simp add: PlanLoader_ParseLine_def Let_def split: if_splits)
  then show ?thesis
  proof (elim disjE)
    assume "key \<in> {''exec'', ''chroot'', ''user'', ''umask'', ''reap_finished'', ''sched_idle'', ''ioprio_idle'', ''idle'', ''private_network'', ''private_tmp''}"
    then show ?thesis using assms(1) k parse_option_ok [OF assms(2)] cores
      by (simp only: PlanLoader_ParseLine_def insert_iff empty_iff) (auto simp: Let_def)
  next
    assume "key \<in> {''nice'', ''rlimits''}"
    then show ?thesis using assms(1) k cores
      by (auto simp: PlanLoader_ParseLine_def Let_def then_do_eq_Inr intro!: upd_exec_ok split: if_splits)
  next
    assume "key \<in> {''translate'', ''notify_progress'', ''control_channel'', ''allow_spawn'', ''timeout'', ''concurrency'', ''rate_limit''}"
    then show ?thesis using assms k
      by (auto simp: PlanLoader_ParseLine_def Let_def then_do_eq_Inr core_ok_def exec_default_def intro!: upd_plan_ok split: if_splits)
  qed
qed

lemma parse_plan_lines_ok: "parse_plan_lines sys lines l = Inr l' \<Longrightarrow> loader_ok l \<Longrightarrow> loader_ok l'"
  by (induction lines arbitrary: l) (auto simp: then_do_eq_Inr dest: PlanLoader_ParseLine_ok)


lemma LoadPlanFile_not_root:
  assumes "LoadPlanFile sys file = Inr p"
  shows "p_uid p \<noteq> 0 \<and> p_gid p \<noteq> 0 \<and> length (p_groups p) \<le> 64"
proof -
  obtain lines l l' where l: "parse_plan_lines sys lines plan_loader_init = Inr l" "PlanLoader_Finish l = Inr l'" "p = ld_plan l'"
    using assms by (auto simp: LoadPlanFile_def then_do_eq_Inr)
  have "loader_ok l" by (rule parse_plan_lines_ok [OF l(1) loader_ok_init])
  then show ?thesis using l(2,3)
    by (auto simp: PlanLoader_Finish_def upd_plan_def Let_def loader_ok_def core_ok_def split: if_splits)
qed

text \<open>
  C22: A plan file that loads has a timeout and runs neither as root nor with the group root, with
  a umask within 0777 and at most 64 supplementary groups. A plan that executes has a non-empty
  program path; a plan that asks the translation server has no program, all execute options at their
  defaults and is not allowed to spawn.
\<close>

theorem LoadPlanFile_ok:
  assumes "LoadPlanFile sys file = Inr p"
  shows "p_timeout p \<noteq> [] \<and> p_uid p \<noteq> 0 \<and> p_gid p \<noteq> 0 \<and> length (p_groups p) \<le> 64 \<and> -1 \<le> p_umask p \<and> p_umask p \<le> 511
    \<and> (case GetType p of
         TypeExec \<Rightarrow> (\<exists>path. GetExecutablePath p = Some path \<and> path \<noteq> [])
       | TypeTranslate \<Rightarrow> exec_default p \<and> \<not> p_allow_spawn p)"
proof -
  obtain lines l l' where l: "parse_plan_lines sys lines plan_loader_init = Inr l" "PlanLoader_Finish l = Inr l'" "p = ld_plan l'"
    using assms by (auto simp: LoadPlanFile_def then_do_eq_Inr)
  have ok: "loader_ok l" by (rule parse_plan_lines_ok [OF l(1) loader_ok_init])
  have p: "p = (if p_timeout (ld_plan l) = [] then (ld_plan l)\<lparr>p_timeout := ''10 minutes''\<rparr> else ld_plan l)"
    using l(2,3) by (auto simp: PlanLoader_Finish_def upd_plan_def Let_def split: if_splits)
  have "GetType p = TypeTranslate \<Longrightarrow> exec_default p \<and> \<not> p_allow_spawn p"
    using l(2) ok by (auto simp: p PlanLoader_Finish_def GetType_def loader_ok_def exec_default_def Let_def split: if_splits)
  moreover have "GetType p = TypeExec \<Longrightarrow> \<exists>path. GetExecutablePath p = Some path \<and> path \<noteq> []"
    using l(2) ok by (auto simp: p PlanLoader_Finish_def GetType_def GetExecutablePath_def loader_ok_def core_ok_def Let_def
        split: if_splits list.splits)
  ultimately show ?thesis
    using ok by (auto simp: p loader_ok_def core_ok_def split: plan_type.splits)
qed

text \<open>A tokenizer that splits a line at spaces.\<close>

fun space_words :: "string \<Rightarrow> string \<Rightarrow> string list" where
  "space_words a [] = (if a = [] then [] else [rev a])"
| "space_words a (c # s) = (if c = CHR '' '' then (if a = [] then [] else [rev a]) @ space_words [] s else space_words (c # a) s)"

definition after_word :: "string \<Rightarrow> string" where
  "after_word s = dropWhile (\<lambda>c. c = CHR '' '') (dropWhile (\<lambda>c. c \<noteq> CHR '' '') s)"

definition space_lib :: line_lib where
  "space_lib = \<lparr>ExpectWord = (\<lambda>s. case space_words [] s of [] \<Rightarrow> None | w # _ \<Rightarrow> Some (w, after_word s)),
     IsEnd = (\<lambda>s. s = []), RelaxedValues = space_words [],
     NextBool = (\<lambda>s. case space_words [] s of [] \<Rightarrow> None | w # _ \<Rightarrow> if w = ''yes'' then Some (True, after_word s)
        else if w = ''no'' then Some (False, after_word s) else None),
     ExpectValueAndEnd = (\<lambda>s. if s = [] then None else Some s),
     NextPositiveInteger = (\<lambda>s. let (n, r) = strtoul 10 s in if r = s \<or> n = 0 then None else Some (n, r))\<rparr>"

definition sample_sys :: plan_sys where
  "sample_sys = \<lparr>ps_pg = plain_pg, ps_str = ascii_lib, ps_line = space_lib, ps_stat = (\<lambda>s. Some RegularFile),
     ps_getpwnam = (\<lambda>u. Some (1000, 1000)), ps_getgrouplist = (\<lambda>u g. [g]), ps_rlimits_ok = (\<lambda>s. True)\<rparr>"

lemma sample_plan_loads:
  "\<exists>p. LoadPlanFile sample_sys (Some [''exec /bin/true -x'', ''user nobody'']) = Inr p \<and> p_args p = [''/bin/true'', ''-x''] \<and> p_uid p = 1000
     \<and> \<not> p_translate p"
  by (simp add: LoadPlanFile_def PlanLoader_ParseLine_def sample_sys_def space_lib_def Let_def plan_loader_init_def plan_init_def
      after_word_def parse_exec_def parse_user_def get_user_groups_def upd_exec_def upd_plan_def PlanLoader_Finish_def)

theorem LoadPlanFile_ok_witness:
  "\<exists>p. LoadPlanFile sample_sys (Some [''exec /bin/true -x'', ''user nobody'']) = Inr p \<and> p_timeout p \<noteq> [] \<and> p_uid p \<noteq> 0
     \<and> (\<exists>path. GetExecutablePath p = Some path \<and> path \<noteq> [])"
proof -
  obtain p where p: "LoadPlanFile sample_sys (Some [''exec /bin/true -x'', ''user nobody'']) = Inr p" "\<not> p_translate p"
    using sample_plan_loads by blast
  from LoadPlanFile_ok [OF p(1)] p show ?thesis by (auto simp: GetType_def)
qed

text \<open>
  A later \<open>control_channel no\<close> undoes the condition that \<open>allow_spawn\<close> has checked.
\<close>

theorem allow_spawn_without_channel:
  "\<exists>p. LoadPlanFile sample_sys (Some [''control_channel'', ''allow_spawn'', ''control_channel no'', ''exec /bin/true'']) = Inr p
     \<and> p_allow_spawn p \<and> \<not> p_control_channel p"
  by (simp add: LoadPlanFile_def PlanLoader_ParseLine_def sample_sys_def space_lib_def Let_def plan_loader_init_def plan_init_def
      after_word_def parse_exec_def upd_exec_def upd_plan_def PlanLoader_Finish_def ExpectEnd_def)

end
