(* ===== verification/Plan_Library.thy ===== *)
theory Plan_Library
  imports Plan_Loader
begin

text \<open>
  The library of plans: \<open>src/workshop/Library.hxx\<close>, \<open>PlanLibrary.cxx\<close>, \<open>PlanUpdate.cxx\<close>,
  \<open>StatxTimestamp.hxx\<close> and \<open>MultiLibrary.cxx\<close>. A \<open>std::map\<close> is the association list in the
  order of its keys. What the file system shows at one moment is an argument. Time stamps of the
  steady clock are integers, \<open>None\<close> being \<open>time_point::min()\<close>. The theorems show that the cache
  of plans is coherent with the files, and where an entry counts as available although it has no plan.
\<close>

section \<open>Entries\<close>

type_synonym mtime = "int \<times> nat"

record plan_entry =
  pe_plan :: "plan option"
  pe_deinstalled :: bool
  pe_mtime :: mtime
  pe_disabled_until :: "int option"

definition plan_entry_init :: plan_entry where
  "plan_entry_init = \<lparr>pe_plan = None, pe_deinstalled = False, pe_mtime = (0, 0), pe_disabled_until = None\<rparr>"

definition Entry_Clear :: "plan_entry \<Rightarrow> plan_entry" where
  "Entry_Clear e = e\<lparr>pe_plan := None, pe_mtime := (0, 0)\<rparr>"

definition Entry_IsDisabled :: "int \<Rightarrow> plan_entry \<Rightarrow> bool" where
  "Entry_IsDisabled now e = (case pe_disabled_until e of None \<Rightarrow> False | Some t \<Rightarrow> now < t)"

definition Entry_IsAvailable :: "int \<Rightarrow> plan_entry \<Rightarrow> bool" where
  "Entry_IsAvailable now e \<longleftrightarrow> \<not> pe_deinstalled e \<and> \<not> Entry_IsDisabled now e"

definition Entry_Disable :: "int \<Rightarrow> int \<Rightarrow> plan_entry \<Rightarrow> plan_entry" where
  "Entry_Disable now duration e = e\<lparr>pe_disabled_until := Some (now + duration)\<rparr>"

definition Entry_Enable :: "plan_entry \<Rightarrow> plan_entry" where
  "Entry_Enable e = e\<lparr>pe_disabled_until := None\<rparr>"

definition statx_timestamp_eq :: "mtime \<Rightarrow> mtime \<Rightarrow> bool" where
  "statx_timestamp_eq a b \<longleftrightarrow> fst a = fst b \<and> snd a = snd b"

lemma statx_timestamp_eq_iff [simp]: "statx_timestamp_eq a b \<longleftrightarrow> a = b"
  by (simp add: statx_timestamp_eq_def prod_eq_iff)

section \<open>Updating one plan\<close>

datatype exec_stat = ExecOk | ExecMissing | ExecError

record lib_fs =
  fs_directory :: "(file_kind \<times> mtime) option"
  fs_names :: "string list option"
  fs_statx :: "string \<Rightarrow> (file_kind \<times> mtime) option"
  fs_file :: "string \<Rightarrow> string list option"
  fs_exec :: "string \<Rightarrow> exec_stat"

definition DisablePlan :: "plan_entry \<Rightarrow> int \<Rightarrow> int \<Rightarrow> plan_entry" where
  "DisablePlan e now duration = Entry_Disable now duration e"

definition CheckPlanModified :: "lib_fs \<Rightarrow> string \<Rightarrow> int \<Rightarrow> plan_entry \<Rightarrow> bool \<times> plan_entry" where
  "CheckPlanModified fs name now e =
     (case fs_statx fs name of
        None \<Rightarrow> (False, Entry_Clear e)
      | Some (kind, new_mtime) \<Rightarrow>
          if kind \<noteq> RegularFile then (False, DisablePlan (Entry_Clear e) now 60)
          else (let e' = (if \<not> statx_timestamp_eq new_mtime (pe_mtime e)
                          then (Entry_Enable e)\<lparr>pe_plan := None, pe_mtime := new_mtime\<rparr> else e)
                in (\<not> Entry_IsDisabled now e', e')))"

definition ValidatePlan :: "lib_fs \<Rightarrow> plan \<Rightarrow> int \<Rightarrow> plan_entry \<Rightarrow> bool \<times> plan_entry" where
  "ValidatePlan fs p now e =
     (if \<not> p_translate p
      then (case fs_exec fs (the (GetExecutablePath p)) of
              ExecOk \<Rightarrow> (True, e\<lparr>pe_deinstalled := False\<rparr>)
            | ExecMissing \<Rightarrow> (False, e\<lparr>pe_deinstalled := True\<rparr>)
            | ExecError \<Rightarrow> (False, DisablePlan e now 60))
      else (True, e\<lparr>pe_deinstalled := False\<rparr>))"

definition LoadPlan :: "plan_sys \<Rightarrow> lib_fs \<Rightarrow> string \<Rightarrow> int \<Rightarrow> plan_entry \<Rightarrow> bool \<times> plan_entry" where
  "LoadPlan sys fs name now e =
     (case LoadPlanFile sys (fs_file fs name) of
        Inl _ \<Rightarrow> (False, DisablePlan e now 600)
      | Inr p \<Rightarrow> (True, e\<lparr>pe_plan := Some p\<rparr>))"

definition UpdatePlan :: "plan_sys \<Rightarrow> lib_fs \<Rightarrow> string \<Rightarrow> int \<Rightarrow> plan_entry \<Rightarrow> bool \<times> plan_entry" where
  "UpdatePlan sys fs name now e =
     (let was_available = Entry_IsAvailable now e; (m, e1) = CheckPlanModified fs name now e
      in if \<not> m then (Entry_IsAvailable now e1 \<noteq> was_available, e1)
         else (let (loaded, e2) = (if pe_plan e1 = None then LoadPlan sys fs name now e1 else (True, e1))
               in if \<not> loaded then (False, e2)
                  else (let (v, e3) = ValidatePlan fs (the (pe_plan e2)) now e2 in (v \<noteq> was_available, e3))))"

section \<open>The library\<close>

definition is_alnum :: "char \<Rightarrow> bool" where
  "is_alnum c \<longleftrightarrow> is_digit 10 c \<or> (65 \<le> code c \<and> code c \<le> 90) \<or> (97 \<le> code c \<and> code c \<le> 122)"

definition is_valid_plan_name_char :: "char \<Rightarrow> bool" where
  "is_valid_plan_name_char c \<longleftrightarrow> is_alnum c \<or> c = CHR ''_'' \<or> c = CHR ''-''"

text \<open>The loop looks at the first character before it looks for the terminator.\<close>

fun is_valid_plan_name :: "string \<Rightarrow> bool" where
  "is_valid_plan_name [] = is_valid_plan_name_char NUL"
| "is_valid_plan_name [c] = is_valid_plan_name_char c"
| "is_valid_plan_name (c # d # s) = (is_valid_plan_name_char c \<and> is_valid_plan_name (d # s))"

definition IsSpecialFilename :: "string \<Rightarrow> bool" where
  "IsSpecialFilename s \<longleftrightarrow> s = ''.'' \<or> s = ''..''"

text \<open>\<open>std::map\<close>: insertion keeps an element that is already there; removal; update of an element.\<close>

fun assoc_emplace :: "string \<Rightarrow> 'a \<Rightarrow> (string \<times> 'a) list \<Rightarrow> (string \<times> 'a) list" where
  "assoc_emplace k v [] = [(k, v)]"
| "assoc_emplace k v ((k', v') # xs) =
     (if k = k' then (k', v') # xs else if k < k' then (k, v) # (k', v') # xs else (k', v') # assoc_emplace k v xs)"

definition assoc_erase :: "string \<Rightarrow> (string \<times> 'a) list \<Rightarrow> (string \<times> 'a) list" where
  "assoc_erase k xs = filter (\<lambda>(k', _). k' \<noteq> k) xs"

definition assoc_update :: "string \<Rightarrow> 'a \<Rightarrow> (string \<times> 'a) list \<Rightarrow> (string \<times> 'a) list" where
  "assoc_update k v xs = map (\<lambda>(k', v'). (k', if k' = k then v else v')) xs"

record library =
  lb_plans :: "(string \<times> plan_entry) list"
  lb_next_plans_check :: "int option"
  lb_mtime :: mtime

definition library_init :: library where
  "library_init = \<lparr>lb_plans = [], lb_next_plans_check = None, lb_mtime = (0, 0)\<rparr>"

text \<open>One file of the directory: the old entry is moved over or a new one is created, then updated.\<close>

definition update_file ::
  "plan_sys \<Rightarrow> lib_fs \<Rightarrow> int \<Rightarrow> string \<Rightarrow> (string \<times> plan_entry) list \<Rightarrow> (string \<times> plan_entry) list \<Rightarrow> bool
   \<Rightarrow> (string \<times> plan_entry) list \<times> (string \<times> plan_entry) list \<times> bool" where
  "update_file sys fs now name old new modified =
     (let (new1, old1, modified1) =
        (case map_of old name of
           Some e \<Rightarrow> (assoc_emplace name e new, assoc_erase name old, modified)
         | None \<Rightarrow> (assoc_emplace name plan_entry_init new, old, True));
        (u, e) = UpdatePlan sys fs name now (the (map_of new1 name))
      in (old1, assoc_update name e new1, modified1 \<or> u))"

fun update_files ::
  "plan_sys \<Rightarrow> lib_fs \<Rightarrow> int \<Rightarrow> string list \<Rightarrow> (string \<times> plan_entry) list \<Rightarrow> (string \<times> plan_entry) list \<Rightarrow> bool
   \<Rightarrow> (string \<times> plan_entry) list \<times> (string \<times> plan_entry) list \<times> bool" where
  "update_files sys fs now [] old new modified = (old, new, modified)"
| "update_files sys fs now (name # names) old new modified =
     (if IsSpecialFilename name \<or> \<not> is_valid_plan_name name then update_files sys fs now names old new modified
      else (let (old', new', m') = update_file sys fs now name old new modified in update_files sys fs now names old' new' m'))"

text \<open>\<open>None\<close> when the directory cannot be read: the list of plans has been cleared by then.\<close>

definition UpdatePlans :: "plan_sys \<Rightarrow> lib_fs \<Rightarrow> int \<Rightarrow> library \<Rightarrow> bool option \<times> library" where
  "UpdatePlans sys fs now lib =
     (case fs_names fs of
        None \<Rightarrow> (None, lib\<lparr>lb_plans := []\<rparr>)
      | Some names \<Rightarrow> (let (old, new, m) = update_files sys fs now names (lb_plans lib) [] False
                     in (Some (m \<or> old \<noteq> []), lib\<lparr>lb_plans := new\<rparr>)))"

definition Library_Update :: "plan_sys \<Rightarrow> lib_fs \<Rightarrow> int \<Rightarrow> bool \<Rightarrow> library \<Rightarrow> bool \<times> library" where
  "Library_Update sys fs now force lib =
     (case fs_directory fs of
        None \<Rightarrow> (False, lib)
      | Some (kind, new_mtime) \<Rightarrow>
          if kind \<noteq> DirectoryFile then (False, lib)
          else if \<not> force \<and> statx_timestamp_eq new_mtime (lb_mtime lib)
                  \<and> (case lb_next_plans_check lib of None \<Rightarrow> False | Some t \<Rightarrow> now < t)
          then (False, lib)
          else (case UpdatePlans sys fs now lib of
                  (None, lib') \<Rightarrow> (False, lib')
                | (Some m, lib') \<Rightarrow> (m, lib'\<lparr>lb_mtime := new_mtime, lb_next_plans_check := Some (now + 60)\<rparr>)))"

text \<open>The visited names with what \<open>*entry.plan\<close> refers to: \<open>None\<close> is a null pointer.\<close>

definition Library_VisitAvailable :: "int \<Rightarrow> library \<Rightarrow> (string \<times> plan option) list" where
  "Library_VisitAvailable now lib = map (\<lambda>(n, e). (n, pe_plan e)) (filter (\<lambda>(n, e). Entry_IsAvailable now e) (lb_plans lib))"

definition Library_Get :: "plan_sys \<Rightarrow> lib_fs \<Rightarrow> int \<Rightarrow> string \<Rightarrow> library \<Rightarrow> plan option \<times> library" where
  "Library_Get sys fs now name lib =
     (case map_of (lb_plans lib) name of
        None \<Rightarrow> (None, lib)
      | Some e \<Rightarrow>
          (let e' = snd (UpdatePlan sys fs name now e); lib' = lib\<lparr>lb_plans := assoc_update name e' (lb_plans lib)\<rparr>
           in if \<not> Entry_IsAvailable now e' then (None, lib') else (pe_plan e', lib')))"

section \<open>Several libraries\<close>

type_synonym multi_library = "library list"

definition MultiLibrary_InsertPath :: "multi_library \<Rightarrow> multi_library" where
  "MultiLibrary_InsertPath libs = library_init # libs"

fun MultiLibrary_Update :: "plan_sys \<Rightarrow> lib_fs list \<Rightarrow> int \<Rightarrow> bool \<Rightarrow> multi_library \<Rightarrow> bool \<times> multi_library" where
  "MultiLibrary_Update sys (fs # fss) now force (l # ls) =
     (let (m, l') = Library_Update sys fs now force l; (m', ls') = MultiLibrary_Update sys fss now force ls in (m \<or> m', l' # ls'))"
| "MultiLibrary_Update sys _ now force ls = (False, ls)"

definition MultiLibrary_VisitAvailable :: "int \<Rightarrow> multi_library \<Rightarrow> (string \<times> plan option) list" where
  "MultiLibrary_VisitAvailable now libs = concat (map (Library_VisitAvailable now) libs)"

fun MultiLibrary_Get :: "plan_sys \<Rightarrow> lib_fs list \<Rightarrow> int \<Rightarrow> string \<Rightarrow> multi_library \<Rightarrow> plan option \<times> multi_library" where
  "MultiLibrary_Get sys (fs # fss) now name (l # ls) =
     (case Library_Get sys fs now name l of
        (Some p, l') \<Rightarrow> (Some p, l' # ls)
      | (None, l') \<Rightarrow> (let (r, ls') = MultiLibrary_Get sys fss now name ls in (r, l' # ls')))"
| "MultiLibrary_Get sys _ now name ls = (None, ls)"

section \<open>Coherence of the cache\<close>

text \<open>
  A file keeps its content as long as it keeps its modification time: \<open>contents name m\<close> are the
  lines of the file at modification time \<open>m\<close>.
\<close>

definition fs_ok :: "(string \<Rightarrow> mtime \<Rightarrow> string list option) \<Rightarrow> lib_fs \<Rightarrow> bool" where
  "fs_ok contents fs \<longleftrightarrow> (\<forall>name m. fs_statx fs name = Some (RegularFile, m) \<longrightarrow> fs_file fs name = contents name m)"

definition entry_ok :: "plan_sys \<Rightarrow> (string \<Rightarrow> mtime \<Rightarrow> string list option) \<Rightarrow> string \<Rightarrow> plan_entry \<Rightarrow> bool" where
  "entry_ok sys contents name e \<longleftrightarrow> (\<forall>p. pe_plan e = Some p \<longrightarrow> LoadPlanFile sys (contents name (pe_mtime e)) = Inr p)"

lemmas entry_defs = Entry_Clear_def Entry_IsDisabled_def Entry_IsAvailable_def Entry_Disable_def Entry_Enable_def DisablePlan_def

lemma ValidatePlan_facts:
  "pe_plan (snd (ValidatePlan fs p now e)) = pe_plan e" "pe_mtime (snd (ValidatePlan fs p now e)) = pe_mtime e"
  by (simp_all add: ValidatePlan_def entry_defs split: exec_stat.splits)

lemma ValidatePlan_available:
  "Entry_IsAvailable now (snd (ValidatePlan fs p now e)) \<Longrightarrow> p_translate p \<or> fs_exec fs (the (GetExecutablePath p)) = ExecOk"
  by (auto simp: ValidatePlan_def entry_defs split: exec_stat.splits if_splits)

text \<open>The states of an entry after an update.\<close>

lemma UpdatePlan_cases:
  obtains (cleared) "pe_plan (snd (UpdatePlan sys fs name now e)) = None"
  | (disabled) m where "fs_statx fs name = Some (RegularFile, m)" "\<not> Entry_IsAvailable now (snd (UpdatePlan sys fs name now e))"
      "pe_mtime (snd (UpdatePlan sys fs name now e)) = m" "pe_mtime e = m" "pe_plan (snd (UpdatePlan sys fs name now e)) = pe_plan e"
  | (checked) m p where "fs_statx fs name = Some (RegularFile, m)" "pe_mtime (snd (UpdatePlan sys fs name now e)) = m"
      "pe_plan (snd (UpdatePlan sys fs name now e)) = Some p"
      "pe_plan e = Some p \<and> pe_mtime e = m \<or> LoadPlanFile sys (fs_file fs name) = Inr p"
      "Entry_IsAvailable now (snd (UpdatePlan sys fs name now e)) \<Longrightarrow> p_translate p \<or> fs_exec fs (the (GetExecutablePath p)) = ExecOk"
proof (cases "fs_statx fs name")
  case None
  then show ?thesis using cleared by (simp add: UpdatePlan_def CheckPlanModified_def entry_defs)
next
  case (Some km)
  obtain kind m where km: "km = (kind, m)" by (cases km)
  show ?thesis
  proof (cases "kind = RegularFile")
    case False
    then show ?thesis using cleared Some km by (simp add: UpdatePlan_def CheckPlanModified_def entry_defs)
  next
    case True
    define e1 where "e1 = (if m \<noteq> pe_mtime e then (Entry_Enable e)\<lparr>pe_plan := None, pe_mtime := m\<rparr> else e)"
    have c: "CheckPlanModified fs name now e = (\<not> Entry_IsDisabled now e1, e1)"
      using Some km True by (simp add: CheckPlanModified_def e1_def Let_def)
    have m1: "pe_mtime e1 = m" by (simp add: e1_def)
    show ?thesis
    proof (cases "Entry_IsDisabled now e1")
      case dis: True
      then have "e1 = e" by (auto simp: e1_def entry_defs split: if_splits)
      with c dis have u: "snd (UpdatePlan sys fs name now e) = e" by (simp add: UpdatePlan_def)
      show ?thesis
      proof (rule disabled [of m])
        show "fs_statx fs name = Some (RegularFile, m)" using Some km True by simp
        show "\<not> Entry_IsAvailable now (snd (UpdatePlan sys fs name now e))"
          using dis \<open>e1 = e\<close> by (simp add: u Entry_IsAvailable_def)
        show "pe_mtime (snd (UpdatePlan sys fs name now e)) = m" "pe_mtime e = m" using m1 by (simp_all add: u \<open>e1 = e\<close>)
      qed (simp add: u)
    next
      case en: False
      show ?thesis
      proof (cases "pe_plan e1")
        case None
        show ?thesis
        proof (cases "LoadPlanFile sys (fs_file fs name)")
          case (Inl err)
          then show ?thesis using cleared en c None by (simp add: UpdatePlan_def LoadPlan_def DisablePlan_def Entry_Disable_def)
        next
          case (Inr p)
          then have u: "snd (UpdatePlan sys fs name now e) = snd (ValidatePlan fs p now (e1\<lparr>pe_plan := Some p\<rparr>))"
            using en c None by (simp add: UpdatePlan_def LoadPlan_def case_prod_beta Let_def)
          show ?thesis using Inr Some km True m1 unfolding u [symmetric]
            by (intro checked [of m p]) (auto simp: u ValidatePlan_facts dest: ValidatePlan_available)
        qed
      next
        case plan: (Some p)
        then have "e1 = e" by (auto simp: e1_def split: if_splits)
        then have u: "snd (UpdatePlan sys fs name now e) = snd (ValidatePlan fs p now e)"
          using en c plan by (simp add: UpdatePlan_def case_prod_beta Let_def)
        show ?thesis using plan \<open>e1 = e\<close> Some km True m1 unfolding u [symmetric]
          by (intro checked [of m p]) (auto simp: u ValidatePlan_facts dest: ValidatePlan_available)
      qed
    qed
  qed
qed

lemma UpdatePlan_ok: "fs_ok contents fs \<Longrightarrow> entry_ok sys contents name e \<Longrightarrow> entry_ok sys contents name (snd (UpdatePlan sys fs name now e))"
  by (rule UpdatePlan_cases [of sys fs name now e]) (auto simp: fs_ok_def entry_ok_def)

lemma entry_ok_init: "entry_ok sys contents name plan_entry_init"
  by (simp add: entry_ok_def plan_entry_init_def)

section \<open>Properties of all entries\<close>

text \<open>
  A property of the entries that a new entry has and that \<open>UpdatePlan()\<close> keeps, on the file
  systems under consideration, holds for all entries of a library at all times, and only valid
  names get an entry.
\<close>

definition lib_all :: "(string \<Rightarrow> plan_entry \<Rightarrow> bool) \<Rightarrow> (string \<times> plan_entry) list \<Rightarrow> bool" where
  "lib_all R ps \<longleftrightarrow> (\<forall>(n, e)\<in>set ps. R n e)"

lemma assoc_emplace_set: "set (assoc_emplace k v xs) \<subseteq> insert (k, v) (set xs)"
  by (induction xs) (auto split: if_splits)

lemma lib_all_emplace: "lib_all R ps \<Longrightarrow> R k e \<Longrightarrow> lib_all R (assoc_emplace k e ps)"
  using assoc_emplace_set [of k e ps] by (auto simp: lib_all_def)

lemma lib_all_erase: "lib_all R ps \<Longrightarrow> lib_all R (assoc_erase k ps)"
  by (auto simp: lib_all_def assoc_erase_def)

lemma lib_all_update: "lib_all R ps \<Longrightarrow> R k e \<Longrightarrow> lib_all R (assoc_update k e ps)"
  by (auto simp: lib_all_def assoc_update_def)

lemma lib_all_lookup: "lib_all R ps \<Longrightarrow> map_of ps k = Some e \<Longrightarrow> R k e"
  by (auto simp: lib_all_def dest: map_of_SomeD)

lemma lib_all_Nil [simp]: "lib_all R []"
  by (simp add: lib_all_def)

lemma map_of_emplace: "\<exists>e. map_of (assoc_emplace k v xs) k = Some e"
  by (induction xs) auto

locale entry_property =
  fixes sys :: plan_sys and admits :: "lib_fs \<Rightarrow> bool" and R :: "string \<Rightarrow> plan_entry \<Rightarrow> bool"
  assumes R_init: "is_valid_plan_name n \<Longrightarrow> R n plan_entry_init"
    and R_update: "admits fs \<Longrightarrow> R n e \<Longrightarrow> R n (snd (UpdatePlan sys fs n now e))"
begin

lemma update_file_all:
  assumes "update_file sys fs now name old new m = (old', new', m')" "is_valid_plan_name name" "admits fs" "lib_all R old" "lib_all R new"
  shows "lib_all R old' \<and> lib_all R new'"
proof -
  define e0 where "e0 = (case map_of old name of Some e \<Rightarrow> e | None \<Rightarrow> plan_entry_init)"
  have e0: "R name e0"
    using lib_all_lookup [OF assms(4)] R_init [OF assms(2)] by (auto simp: e0_def split: option.splits)
  let ?new1 = "assoc_emplace name e0 new"
  obtain e1 where e1: "map_of ?new1 name = Some e1" using map_of_emplace [of name e0 new] by blast
  have new1: "lib_all R ?new1" by (rule lib_all_emplace [where R = R, OF assms(5) e0])
  have "old' = old \<or> old' = assoc_erase name old" "new' = assoc_update name (snd (UpdatePlan sys fs name now e1)) ?new1"
    using assms(1) e1 by (auto simp: update_file_def e0_def case_prod_beta Let_def split: option.splits)
  moreover have "R name (snd (UpdatePlan sys fs name now e1))"
    by (rule R_update [OF assms(3) lib_all_lookup [where R = R, OF new1 e1]])
  ultimately show ?thesis using lib_all_erase [OF assms(4)] lib_all_update [where R = R, OF new1] assms(4) by auto
qed

lemma update_files_all:
  "update_files sys fs now names old new m = (old', new', m') \<Longrightarrow> admits fs \<Longrightarrow> lib_all R old \<Longrightarrow> lib_all R new \<Longrightarrow> lib_all R new'"
proof (induction names arbitrary: old new m)
  case (Cons name names)
  obtain o1 n1 m1 where u: "update_file sys fs now name old new m = (o1, n1, m1)" by (cases "update_file sys fs now name old new m")
  show ?case using Cons update_file_all [OF u _ Cons.prems(2-)] u by (auto split: if_splits)
qed simp

lemma Library_Update_all:
  assumes "admits fs" "lib_all R (lb_plans lib)"
  shows "lib_all R (lb_plans (snd (Library_Update sys fs now force lib)))"
proof -
  have "lib_all R (lb_plans (snd (UpdatePlans sys fs now lib)))"
  proof (cases "fs_names fs")
    case (Some names)
    obtain o1 n1 m1 where u: "update_files sys fs now names (lb_plans lib) [] False = (o1, n1, m1)"
      by (cases "update_files sys fs now names (lb_plans lib) [] False")
    from update_files_all [OF u assms lib_all_Nil] show ?thesis by (simp add: UpdatePlans_def Some u)
  qed (simp add: UpdatePlans_def)
  then show ?thesis using assms(2) by (auto simp: Library_Update_def case_prod_beta split: option.splits)
qed

lemma Library_Get_all:
  assumes "admits fs" "lib_all R (lb_plans lib)"
  shows "lib_all R (lb_plans (snd (Library_Get sys fs now name lib)))"
  using assms R_update [OF assms(1)]
  by (auto simp: Library_Get_def Let_def intro!: lib_all_update [where R = R] dest: lib_all_lookup split: option.splits)

lemma Library_Get_entry:
  assumes "admits fs" "lib_all R (lb_plans lib)" "Library_Get sys fs now name lib = (Some p, lib')"
  obtains e where "R name e" "pe_plan e = Some p"
proof -
  obtain e where e: "map_of (lb_plans lib) name = Some e" "pe_plan (snd (UpdatePlan sys fs name now e)) = Some p"
    using assms(3) by (auto simp: Library_Get_def Let_def split: option.splits if_splits)
  show ?thesis using that [OF R_update [OF assms(1) lib_all_lookup [where R = R, OF assms(2) e(1)]] e(2)] .
qed

lemma MultiLibrary_Update_all:
  "(\<And>fs. fs \<in> set fss \<Longrightarrow> admits fs) \<Longrightarrow> (\<And>l. l \<in> set libs \<Longrightarrow> lib_all R (lb_plans l)) \<Longrightarrow>
   l \<in> set (snd (MultiLibrary_Update sys fss now force libs)) \<Longrightarrow> lib_all R (lb_plans l)"
proof (induction fss arbitrary: libs l)
  case (Cons fs fss)
  show ?case
  proof (cases libs)
    case libs: (Cons x xs)
    have "admits fs" "lib_all R (lb_plans x)" using Cons.prems(1,2) libs by simp_all
    note x = Library_Update_all [OF this, of now force]
    have "l = snd (Library_Update sys fs now force x) \<or> l \<in> set (snd (MultiLibrary_Update sys fss now force xs))"
      using Cons.prems(3) libs by (auto simp: case_prod_beta Let_def)
    then show ?thesis
    proof
      assume "l \<in> set (snd (MultiLibrary_Update sys fss now force xs))"
      from Cons.IH [OF _ _ this] Cons.prems(1,2) libs show ?thesis by simp
    qed (use x in simp)
  qed (use Cons.prems in simp)
qed simp

lemma MultiLibrary_Get_all:
  assumes "\<And>fs. fs \<in> set fss \<Longrightarrow> admits fs" "\<And>l. l \<in> set libs \<Longrightarrow> lib_all R (lb_plans l)"
    "MultiLibrary_Get sys fss now name libs = (r, libs')"
  shows "l \<in> set libs' \<Longrightarrow> lib_all R (lb_plans l)" and "r = Some p \<Longrightarrow> \<exists>e. R name e \<and> pe_plan e = Some p"
proof -
  have "(\<forall>l\<in>set libs'. lib_all R (lb_plans l)) \<and> (\<forall>p. r = Some p \<longrightarrow> (\<exists>e. R name e \<and> pe_plan e = Some p))"
    using assms
  proof (induction fss arbitrary: libs r libs')
    case (Cons fs fss)
    show ?case
    proof (cases libs)
      case libs: (Cons l ls)
      obtain r0 l' where g: "Library_Get sys fs now name l = (r0, l')" by (cases "Library_Get sys fs now name l")
      have l': "lib_all R (lb_plans l')" using Library_Get_all [of fs l now name] Cons.prems g libs by simp
      show ?thesis
      proof (cases r0)
        case None
        obtain r1 ls' where m: "MultiLibrary_Get sys fss now name ls = (r1, ls')" by (cases "MultiLibrary_Get sys fss now name ls")
        have "(\<forall>l\<in>set ls'. lib_all R (lb_plans l)) \<and> (\<forall>p. r1 = Some p \<longrightarrow> (\<exists>e. R name e \<and> pe_plan e = Some p))"
          using Cons.IH [OF _ _ m] Cons.prems libs by simp
        then show ?thesis using Cons.prems(3) libs g None m l' by auto
      next
        case (Some q)
        then have r: "r = Some q" "libs' = l' # ls" using Cons.prems(3) libs g by auto
        have "admits fs" "lib_all R (lb_plans l)" using Cons.prems(1,2) libs by simp_all
        then obtain e where "R name e" "pe_plan e = Some q" using Library_Get_entry g Some by metis
        then show ?thesis using r l' Cons.prems(2) libs by auto
      qed
    qed (use Cons.prems in auto)
  qed auto
  then show "l \<in> set libs' \<Longrightarrow> lib_all R (lb_plans l)" "r = Some p \<Longrightarrow> \<exists>e. R name e \<and> pe_plan e = Some p" by auto
qed

end

interpretation coherent: entry_property sys "fs_ok contents" "entry_ok sys contents" for sys contents
  by unfold_locales (simp_all add: entry_ok_init UpdatePlan_ok)

text \<open>What holds for every plan that loads holds for every plan of a library.\<close>

definition files_load :: "plan_sys \<Rightarrow> (string \<Rightarrow> plan \<Rightarrow> bool) \<Rightarrow> lib_fs \<Rightarrow> bool" where
  "files_load sys Q fs \<longleftrightarrow> (\<forall>n p. LoadPlanFile sys (fs_file fs n) = Inr p \<longrightarrow> Q n p)"

definition plan_holds :: "(string \<Rightarrow> plan \<Rightarrow> bool) \<Rightarrow> string \<Rightarrow> plan_entry \<Rightarrow> bool" where
  "plan_holds Q n e \<longleftrightarrow> is_valid_plan_name n \<and> (\<forall>p. pe_plan e = Some p \<longrightarrow> Q n p)"

lemma UpdatePlan_holds: "files_load sys Q fs \<Longrightarrow> plan_holds Q n e \<Longrightarrow> plan_holds Q n (snd (UpdatePlan sys fs n now e))"
  by (rule UpdatePlan_cases [of sys fs n now e]) (auto simp: files_load_def plan_holds_def)

interpretation loaded: entry_property sys "files_load sys Q" "plan_holds Q" for sys Q
  by unfold_locales (simp_all add: UpdatePlan_holds, simp add: plan_holds_def plan_entry_init_def)

text \<open>The libraries that updates and lookups lead to.\<close>

inductive lib_reach :: "plan_sys \<Rightarrow> (string \<Rightarrow> mtime \<Rightarrow> string list option) \<Rightarrow> library \<Rightarrow> bool" for sys contents where
  Init: "lib_reach sys contents library_init"
| Update: "lib_reach sys contents lib \<Longrightarrow> fs_ok contents fs \<Longrightarrow> lib_reach sys contents (snd (Library_Update sys fs now force lib))"
| Get: "lib_reach sys contents lib \<Longrightarrow> fs_ok contents fs \<Longrightarrow> lib_reach sys contents (snd (Library_Get sys fs now name lib))"

lemma lib_reach_ok: "lib_reach sys contents lib \<Longrightarrow> lib_all (entry_ok sys contents) (lb_plans lib)"
  by (induction rule: lib_reach.induct) (simp_all add: coherent.Library_Update_all coherent.Library_Get_all, simp add: library_init_def)

text \<open>
  C23: A plan that the library returns is what its file says now: the file exists, is regular, its
  present content loads to exactly this plan, and the program of the plan exists.
\<close>

theorem Library_Get_current:
  assumes "lib_reach sys contents lib" "fs_ok contents fs" and "Library_Get sys fs now name lib = (Some p, lib')"
  shows "\<exists>m. fs_statx fs name = Some (RegularFile, m) \<and> LoadPlanFile sys (fs_file fs name) = Inr p
    \<and> (p_translate p \<or> fs_exec fs (the (GetExecutablePath p)) = ExecOk)"
proof -
  obtain e where e: "map_of (lb_plans lib) name = Some e" using assms(3) by (auto simp: Library_Get_def split: option.splits)
  have ok: "entry_ok sys contents name e" by (rule lib_all_lookup [OF lib_reach_ok [OF assms(1)] e])
  let ?e = "snd (UpdatePlan sys fs name now e)"
  have av: "Entry_IsAvailable now ?e" "pe_plan ?e = Some p"
    using assms(3) e by (auto simp: Library_Get_def Let_def split: if_splits)
  show ?thesis
    using ok assms(2) av by (rule_tac UpdatePlan_cases [of sys fs name now e]) (auto simp: fs_ok_def entry_ok_def)
qed


definition sample_fs :: "string \<Rightarrow> string list \<Rightarrow> lib_fs" where
  "sample_fs name lines = \<lparr>fs_directory = Some (DirectoryFile, (1, 0)), fs_names = Some [''.'', name],
     fs_statx = (\<lambda>n. if n = name then Some (RegularFile, (1, 0)) else None),
     fs_file = (\<lambda>n. if n = name then Some lines else None), fs_exec = (\<lambda>p. ExecOk)\<rparr>"

definition sample_contents :: "string \<Rightarrow> string list \<Rightarrow> string \<Rightarrow> mtime \<Rightarrow> string list option" where
  "sample_contents name lines n m = (if n = name then Some lines else None)"

lemma sample_fs_ok: "fs_ok (sample_contents name lines) (sample_fs name lines)"
  by (simp add: fs_ok_def sample_fs_def sample_contents_def)

lemma sample_file_loads: "\<exists>p. LoadPlanFile sample_sys (Some [''translate'']) = Inr p \<and> p_translate p"
  by (simp add: LoadPlanFile_def PlanLoader_ParseLine_def sample_sys_def space_lib_def Let_def plan_loader_init_def plan_init_def
      after_word_def upd_plan_def PlanLoader_Finish_def)

theorem Library_Get_current_witness:
  "\<exists>p lib'. Library_Get sample_sys (sample_fs ''ab'' [''translate'']) 5 ''ab''
       (snd (Library_Update sample_sys (sample_fs ''ab'' [''translate'']) 0 True library_init)) = (Some p, lib')
     \<and> LoadPlanFile sample_sys (fs_file (sample_fs ''ab'' [''translate'']) ''ab'') = Inr p"
proof -
  let ?fs = "sample_fs ''ab'' [''translate'']"
  let ?lib = "snd (Library_Update sample_sys ?fs 0 True library_init)"
  obtain p where p: "LoadPlanFile sample_sys (Some [''translate'']) = Inr p" "p_translate p" using sample_file_loads by blast
  have reach: "lib_reach sample_sys (sample_contents ''ab'' [''translate'']) ?lib"
    by (intro lib_reach.Update lib_reach.Init sample_fs_ok)
  have valid: "is_valid_plan_name ''ab''" "\<not> IsSpecialFilename ''ab''" "IsSpecialFilename ''.''"
    by (simp_all add: is_valid_plan_name_char_def is_alnum_def IsSpecialFilename_def)
  have plans: "lb_plans ?lib = [(''ab'', \<lparr>pe_plan = Some p, pe_deinstalled = False, pe_mtime = (1, 0), pe_disabled_until = None\<rparr>)]"
    using p valid by (simp add: Library_Update_def UpdatePlans_def sample_fs_def update_file_def UpdatePlan_def CheckPlanModified_def
        LoadPlan_def ValidatePlan_def plan_entry_init_def entry_defs library_init_def assoc_update_def Let_def)
  have "fst (Library_Get sample_sys ?fs 5 ''ab'' ?lib) = Some p"
    unfolding Library_Get_def plans using p
    by (simp add: UpdatePlan_def CheckPlanModified_def ValidatePlan_def sample_fs_def entry_defs Let_def)
  then obtain lib' where get: "Library_Get sample_sys ?fs 5 ''ab'' ?lib = (Some p, lib')" by (metis prod.collapse)
  from Library_Get_current [OF reach sample_fs_ok get] get show ?thesis by blast
qed

text \<open>
  A plan file that fails to load disables its entry for ten minutes. When they have passed
  and no update of the library has run yet, the entry counts as available although it has no plan:
  \<open>VisitAvailable()\<close> dereferences a null pointer.
\<close>

theorem VisitAvailable_null_plan:
  assumes "fs_directory fs = Some (DirectoryFile, d)" "fs_names fs = Some [name]" "is_valid_plan_name name" "\<not> IsSpecialFilename name"
    and "fs_statx fs name = Some (RegularFile, m)" "LoadPlanFile sys (fs_file fs name) = Inl err"
  shows "Library_VisitAvailable now (snd (Library_Update sys fs now True library_init)) = []
    \<and> Library_VisitAvailable (now + 600) (snd (Library_Update sys fs now True library_init)) = [(name, None)]"
proof -
  have "lb_plans (snd (Library_Update sys fs now True library_init)) =
      [(name, \<lparr>pe_plan = None, pe_deinstalled = False, pe_mtime = m, pe_disabled_until = Some (now + 600)\<rparr>)]"
    using assms by (simp add: Library_Update_def UpdatePlans_def update_file_def UpdatePlan_def CheckPlanModified_def
        LoadPlan_def plan_entry_init_def entry_defs library_init_def assoc_update_def Let_def)
  then show ?thesis by (simp add: Library_VisitAvailable_def entry_defs)
qed

theorem VisitAvailable_null_plan_witness:
  "let fs = (sample_fs ''ab'' [''bogus''])\<lparr>fs_names := Some [''ab'']\<rparr>
   in Library_VisitAvailable 0 (snd (Library_Update sample_sys fs 0 True library_init)) = []
    \<and> Library_VisitAvailable (0 + 600) (snd (Library_Update sample_sys fs 0 True library_init)) = [(''ab'', None)]"
  unfolding Let_def
proof (rule VisitAvailable_null_plan)
  show "LoadPlanFile sample_sys (fs_file ((sample_fs ''ab'' [''bogus''])\<lparr>fs_names := Some [''ab'']\<rparr>) ''ab'') = Inl (UnknownOption ''bogus'')"
    by (simp add: sample_fs_def LoadPlanFile_def PlanLoader_ParseLine_def sample_sys_def space_lib_def Let_def)
qed (simp_all add: sample_fs_def is_valid_plan_name_char_def is_alnum_def is_digit_def IsSpecialFilename_def)

text \<open>
  The result of \<open>UpdatePlan()\<close> is documented as "whether the plan was modified", but it tells
  whether the availability has changed: a plan file with new content is not reported.
\<close>

theorem UpdatePlan_change_unreported:
  assumes "fs_statx fs name = Some (RegularFile, m')" "m \<noteq> m'" "LoadPlanFile sys (fs_file fs name) = Inr p'"
    and "p_translate p'" "p \<noteq> p'"
  shows "let e = \<lparr>pe_plan = Some p, pe_deinstalled = False, pe_mtime = m, pe_disabled_until = None\<rparr>;
      (modified, e') = UpdatePlan sys fs name now e in pe_plan e' = Some p' \<and> \<not> modified"
  using assms by (simp add: UpdatePlan_def CheckPlanModified_def LoadPlan_def ValidatePlan_def entry_defs)

end
