(* ===== verification/Job_Channels.thy ===== *)
theory Job_Channels
  imports Workshop_Prelude
begin

text \<open>
  The channels between a job process and the daemon: the progress numbers on its standard output
  (\<open>src/workshop/ProgressReader.cxx\<close>), its log (\<open>LogBridge.cxx\<close>) and the control channel
  (\<open>ControlChannelServer.cxx\<close>). What the handlers do with a command is part of the
  operator; here a command becomes a value. Reading from the pipe or socket is the argument.
\<close>

section \<open>Progress numbers\<close>

record progress_reader =
  pr_buffer :: string
  pr_last_progress :: nat
  pr_closed :: bool

definition progress_reader_init :: progress_reader where
  "progress_reader_init = \<lparr>pr_buffer = [], pr_last_progress = 0, pr_closed = False\<rparr>"

text \<open>
  One character: a digit is collected while there is room (63 of 64 characters), anything else
  ends the number. The number is converted to 32 bits before it is compared.
\<close>

definition progress_char :: "char \<Rightarrow> string \<times> nat \<Rightarrow> string \<times> nat" where
  "progress_char ch = (\<lambda>(buf, new).
     if is_digit 10 ch \<and> length buf < 63 then (buf @ [ch], new)
     else if buf \<noteq> [] then (let p = fst (strtoul 10 buf) mod 2 ^ 32 in ([], if p \<le> 100 then p else new))
     else ([], new))"

text \<open>\<open>PipeReady()\<close>: the bytes read (at most 512; none at the end of the pipe) and the reported value.\<close>

definition PipeReady :: "string \<Rightarrow> progress_reader \<Rightarrow> nat option \<times> progress_reader" where
  "PipeReady bytes r =
     (if bytes = [] then (None, r\<lparr>pr_closed := True\<rparr>)
      else (let (buf, new_progress) = fold progress_char bytes (pr_buffer r, 0); r' = r\<lparr>pr_buffer := buf\<rparr>
            in if new_progress > 0 \<and> new_progress \<noteq> pr_last_progress r'
               then (Some new_progress, r'\<lparr>pr_last_progress := new_progress\<rparr>) else (None, r')))"

fun progress_run :: "string list \<Rightarrow> progress_reader \<Rightarrow> nat list \<times> progress_reader" where
  "progress_run [] r = ([], r)"
| "progress_run (b # bs) r = (let (p, r') = PipeReady b r; (ps, r'') = progress_run bs r' in ((case p of None \<Rightarrow> [] | Some x \<Rightarrow> [x]) @ ps, r''))"

definition reader_ok :: "progress_reader \<Rightarrow> bool" where
  "reader_ok r \<longleftrightarrow> list_all (is_digit 10) (pr_buffer r) \<and> length (pr_buffer r) \<le> 63 \<and> pr_last_progress r \<le> 100"

lemma progress_char_ok:
  "list_all (is_digit 10) (fst s) \<and> length (fst s) \<le> 63 \<and> snd s \<le> 100 \<Longrightarrow>
   list_all (is_digit 10) (fst (progress_char ch s)) \<and> length (fst (progress_char ch s)) \<le> 63 \<and> snd (progress_char ch s) \<le> 100"
  by (cases s) (simp add: progress_char_def Let_def)

lemma progress_fold_ok:
  "list_all (is_digit 10) (fst s) \<and> length (fst s) \<le> 63 \<and> snd s \<le> 100 \<Longrightarrow>
   list_all (is_digit 10) (fst (fold progress_char bytes s)) \<and> length (fst (fold progress_char bytes s)) \<le> 63
   \<and> snd (fold progress_char bytes s) \<le> 100"
proof (induction bytes arbitrary: s)
  case (Cons ch bytes)
  from Cons.IH [OF progress_char_ok [OF Cons.prems]] show ?case by simp
qed simp

lemma PipeReady_ok:
  assumes "reader_ok r"
  shows "reader_ok (snd (PipeReady bytes r))"
    and "fst (PipeReady bytes r) = Some p \<Longrightarrow> 0 < p \<and> p \<le> 100 \<and> p \<noteq> pr_last_progress r \<and> pr_last_progress (snd (PipeReady bytes r)) = p"
    and "fst (PipeReady bytes r) = None \<Longrightarrow> pr_last_progress (snd (PipeReady bytes r)) = pr_last_progress r"
proof -
  have "list_all (is_digit 10) (fst (fold progress_char bytes (pr_buffer r, 0))) \<and> length (fst (fold progress_char bytes (pr_buffer r, 0))) \<le> 63
      \<and> snd (fold progress_char bytes (pr_buffer r, 0)) \<le> 100"
    using assms by (intro progress_fold_ok) (simp add: reader_ok_def)
  with assms show "reader_ok (snd (PipeReady bytes r))"
    "fst (PipeReady bytes r) = Some p \<Longrightarrow> 0 < p \<and> p \<le> 100 \<and> p \<noteq> pr_last_progress r \<and> pr_last_progress (snd (PipeReady bytes r)) = p"
    "fst (PipeReady bytes r) = None \<Longrightarrow> pr_last_progress (snd (PipeReady bytes r)) = pr_last_progress r"
    by (auto simp: PipeReady_def reader_ok_def case_prod_beta Let_def split: if_splits)
qed

text \<open>
  C24: Whatever a job writes to its standard output, in whatever pieces, every reported progress
  lies between 1 and 100 and differs from the one reported before it.
\<close>

theorem progress_reports: "list_all (\<lambda>p. 0 < p \<and> p \<le> 100) (fst (progress_run chunks progress_reader_init))
    \<and> distinct_adj (fst (progress_run chunks progress_reader_init))"
proof -
  have "reader_ok r \<Longrightarrow> list_all (\<lambda>p. 0 < p \<and> p \<le> 100) (fst (progress_run chunks r))
      \<and> distinct_adj (fst (progress_run chunks r)) \<and>
      (fst (progress_run chunks r) \<noteq> [] \<longrightarrow> hd (fst (progress_run chunks r)) \<noteq> pr_last_progress r)" for r
  proof (induction chunks arbitrary: r)
    case (Cons b bs)
    note ok = PipeReady_ok [OF Cons.prems, of b]
    from Cons.IH [OF ok(1)] ok(2,3) show ?case
      by (cases "fst (PipeReady b r)") (auto simp: case_prod_beta Let_def distinct_adj_Cons)
  qed simp
  from this [of progress_reader_init] show ?thesis by (simp add: reader_ok_def progress_reader_init_def)
qed

text \<open>A number of more than 32 bits is reduced before it is compared with 100.\<close>

theorem progress_wraps: "fst (progress_run [''4294967346 ''] progress_reader_init) = [50]"
  by (simp add: progress_reader_init_def PipeReady_def progress_char_def is_digit_def Let_def strtoul_def strtoul_digits_def
      is_space_def skip_sign_def digits_value_def)

section \<open>The log\<close>

text \<open>What goes to the journal and to the daemon's own standard error is listed.\<close>

record log_bridge =
  lg_plan_name :: string
  lg_job_id :: string
  lg_enable_journal :: bool
  lg_buffer :: string
  lg_max_buffer_size :: nat
  lg_journal :: "string list"
  lg_stderr :: "string list"

definition log_bridge_init :: "string \<Rightarrow> string \<Rightarrow> log_bridge" where
  "log_bridge_init plan job = \<lparr>lg_plan_name = plan, lg_job_id = job, lg_enable_journal = False, lg_buffer = [], lg_max_buffer_size = 0,
     lg_journal = [], lg_stderr = []\<rparr>"

definition Log_EnableBuffer :: "nat \<Rightarrow> log_bridge \<Rightarrow> log_bridge" where
  "Log_EnableBuffer n l = l\<lparr>lg_max_buffer_size := n\<rparr>"

definition Log_EnableJournal :: "log_bridge \<Rightarrow> log_bridge" where
  "Log_EnableJournal l = l\<lparr>lg_enable_journal := True\<rparr>"

text \<open>\<open>None\<close> is \<open>nullptr\<close>.\<close>

definition Log_GetBuffer :: "log_bridge \<Rightarrow> string option" where
  "Log_GetBuffer l = (if lg_max_buffer_size l > 0 then Some (lg_buffer l) else None)"

definition Log_OnPipeLine :: "string \<Rightarrow> log_bridge \<Rightarrow> log_bridge" where
  "Log_OnPipeLine line l =
     (let l1 = (if lg_max_buffer_size l > 0 \<and> length (lg_buffer l) < lg_max_buffer_size l - 1
                then l\<lparr>lg_buffer := lg_buffer l @ take (min (length line) (lg_max_buffer_size l - 1 - length (lg_buffer l))) line @ [CHR 0x0A]\<rparr>
                else l);
          l2 = (if lg_enable_journal l1 then l1\<lparr>lg_journal := lg_journal l1 @ [line]\<rparr> else l1)
      in if lg_max_buffer_size l2 = 0 \<and> \<not> lg_enable_journal l2
         then l2\<lparr>lg_stderr := lg_stderr l2 @ [CHR ''['' # lg_plan_name l2 @ '':'' @ lg_job_id l2 @ ''] '' @ line @ [CHR 0x0A]]\<rparr>
         else l2)"

lemma Log_OnPipeLine_fields [simp]:
  "lg_max_buffer_size (Log_OnPipeLine line l) = lg_max_buffer_size l"
  "lg_enable_journal (Log_OnPipeLine line l) = lg_enable_journal l"
  "lg_journal (Log_OnPipeLine line l) = lg_journal l @ (if lg_enable_journal l then [line] else [])"
  "lg_buffer (Log_OnPipeLine line l) = (if length (lg_buffer l) < lg_max_buffer_size l - 1
     then lg_buffer l @ take (lg_max_buffer_size l - 1 - length (lg_buffer l)) line @ [CHR 0x0A] else lg_buffer l)"
  by (auto simp: Log_OnPipeLine_def Let_def min_def)

lemma log_fold_fields: "lg_max_buffer_size (fold Log_OnPipeLine lines l) = lg_max_buffer_size l"
  "lg_enable_journal (fold Log_OnPipeLine lines l) = lg_enable_journal l"
  "lg_journal (fold Log_OnPipeLine lines l) = lg_journal l @ (if lg_enable_journal l then lines else [])"
  by (induction lines arbitrary: l) auto

lemma log_bounded: "length (lg_buffer l) \<le> lg_max_buffer_size l \<Longrightarrow> length (lg_buffer (fold Log_OnPipeLine lines l)) \<le> lg_max_buffer_size l"
proof (induction lines arbitrary: l)
  case (Cons line lines)
  have "length (lg_buffer (Log_OnPipeLine line l)) \<le> lg_max_buffer_size (Log_OnPipeLine line l)"
    using Cons.prems by auto
  from Cons.IH [OF this] show ?case by simp
qed simp

lemma log_complete:
  "length (lg_buffer l) + length (concat (map (\<lambda>x. x @ [CHR 0x0A]) lines)) < lg_max_buffer_size l \<Longrightarrow>
   lg_buffer (fold Log_OnPipeLine lines l) = lg_buffer l @ concat (map (\<lambda>x. x @ [CHR 0x0A]) lines)"
proof (induction lines arbitrary: l)
  case (Cons line lines)
  have eq: "lg_buffer (Log_OnPipeLine line l) = lg_buffer l @ line @ [CHR 0x0A]"
    using Cons.prems by auto
  then have "length (lg_buffer (Log_OnPipeLine line l)) + length (concat (map (\<lambda>x. x @ [CHR 0x0A]) lines))
      < lg_max_buffer_size (Log_OnPipeLine line l)" using Cons.prems by simp
  from Cons.IH [OF this] eq show ?case by simp
qed simp

text \<open>
  The log buffer of a job never exceeds its configured size, whatever the job writes, and
  holds every line completely as long as they fit; the journal gets every line in full.
\<close>

theorem log_buffer_bounded:
  assumes "l = (if journal then Log_EnableJournal else id) (Log_EnableBuffer n (log_bridge_init plan job))"
    and "l' = fold Log_OnPipeLine lines l"
  shows "length (lg_buffer l') \<le> n
    \<and> (length (concat (map (\<lambda>x. x @ [CHR 0x0A]) lines)) < n \<longrightarrow> Log_GetBuffer l' = Some (concat (map (\<lambda>x. x @ [CHR 0x0A]) lines)))
    \<and> (journal \<longrightarrow> lg_journal l' = lines)"
proof -
  have l: "lg_buffer l = []" "lg_max_buffer_size l = n" "lg_journal l = []" "lg_enable_journal l = journal"
    by (simp_all add: assms(1) Log_EnableJournal_def Log_EnableBuffer_def log_bridge_init_def)
  show ?thesis
    using log_bounded [of l lines] log_complete [of l lines] log_fold_fields [of lines l]
    by (simp add: assms(2) l Log_GetBuffer_def)
qed

theorem log_buffer_bounded_witness:
  "length (lg_buffer (fold Log_OnPipeLine [''hello'', ''world''] (Log_EnableBuffer 8 (log_bridge_init ''p'' ''1'')))) \<le> 8"
  using log_buffer_bounded [of "Log_EnableBuffer 8 (log_bridge_init ''p'' ''1'')" False 8 "''p''" "''1''" _ "[''hello'', ''world'']"] by simp

section \<open>The control channel\<close>

datatype control_outcome = CtlError string | CtlProgress nat | CtlSetEnv string | CtlAgain nat | CtlVersion
  | CtlSpawn string "string option"

text \<open>\<open>std::string::c_str()\<close>, as its readers see it: up to the first null byte.\<close>

definition c_str :: "string \<Rightarrow> string" where
  "c_str s = takeWhile (\<lambda>c. c \<noteq> NUL) s"

lemma c_str_plain [simp]: "NUL \<notin> set s \<Longrightarrow> c_str s = s"
  by (auto simp: c_str_def)

lemma c_str_no_nul [simp]: "NUL \<notin> set (c_str s)"
  using set_takeWhileD [of NUL "\<lambda>c. c \<noteq> NUL" s] by (auto simp: c_str_def)

definition Control_OnSpawn :: "string list \<Rightarrow> control_outcome" where
  "Control_OnSpawn args =
     (if length args < 2 \<or> 3 < length args then CtlError ''malformed 'spawn' command on control channel''
      else CtlSpawn (c_str (args ! 1)) (if 3 \<le> length args then Some (c_str (args ! 2)) else None))"

definition OnControl :: "string list \<Rightarrow> control_outcome" where
  "OnControl args =
     (let cmd = hd args
      in if cmd = ''progress'' then
           (if length args \<noteq> 2 then CtlError ''malformed progress command on control channel''
            else (let (progress, endptr) = strtoul 10 (c_str (args ! 1))
                  in if cderef endptr \<noteq> NUL \<or> 100 < progress then CtlError ''malformed progress command on control channel''
                     else CtlProgress progress))
         else if cmd = ''setenv'' then
           (if length args \<noteq> 2 then CtlError ''malformed 'setenv' command on control channel'' else CtlSetEnv (c_str (args ! 1)))
         else if cmd = ''again'' then
           (if 2 < length args then CtlError ''malformed 'again' command on control channel''
            else if length args < 2 then CtlAgain 0
            else (let s = c_str (args ! 1); (value, endptr) = strtoul 10 s
                  in if endptr = s \<or> cderef endptr \<noteq> NUL \<or> 3600 * 24 < value
                     then CtlError ''malformed 'again' parameter on control channel'' else CtlAgain value))
         else if cmd = ''version'' then CtlVersion
         else if cmd = ''spawn'' then Control_OnSpawn args
         else CtlError ''unknown command on control channel'')"

definition FirstLine :: "string \<Rightarrow> string" where
  "FirstLine s = takeWhile (\<lambda>c. c \<noteq> CHR 0x0A) s"

text \<open>
  A datagram: \<open>None\<close> is the end of the connection. \<open>split\<close> is \<open>IterableSplitString\<close> of
  \<open>libcommon\<close>, the pieces between separators.
\<close>

definition OnUdpDatagram :: "(char \<Rightarrow> string \<Rightarrow> string list) \<Rightarrow> string \<Rightarrow> control_outcome option" where
  "OnUdpDatagram split payload = (if payload = [] then None else Some (OnControl (split (CHR '' '') (FirstLine payload))))"

lemma show_nat_no_nul: "NUL \<notin> set (show_nat n)"
  using show_nat_digits [of n] by (auto simp: list_all_iff is_digit_def)

text \<open>The commands as the protocol documents them.\<close>

fun print_control :: "control_outcome \<Rightarrow> string list" where
  "print_control (CtlProgress p) = [''progress'', show_nat p]"
| "print_control (CtlSetEnv s) = [''setenv'', s]"
| "print_control (CtlAgain d) = [''again'', show_nat d]"
| "print_control CtlVersion = [''version'']"
| "print_control (CtlSpawn t p) = [''spawn'', t] @ (case p of None \<Rightarrow> [] | Some x \<Rightarrow> [x])"
| "print_control (CtlError m) = []"

fun control_valid :: "control_outcome \<Rightarrow> bool" where
  "control_valid (CtlProgress p) = (p \<le> 100)"
| "control_valid (CtlAgain d) = (d \<le> 86400)"
| "control_valid (CtlError m) = False"
| "control_valid (CtlSetEnv s) = (NUL \<notin> set s)"
| "control_valid (CtlSpawn t p) = (NUL \<notin> set t \<and> (case p of None \<Rightarrow> True | Some x \<Rightarrow> NUL \<notin> set x))"
| "control_valid _ = True"



text \<open>An empty parameter is accepted as progress 0: only the end of the number is checked.\<close>

theorem OnControl_empty_progress: "OnControl [''progress'', []] = CtlProgress 0"
  by (simp add: OnControl_def strtoul_def strtoul_digits_def skip_sign_def)

end
