(* ===== verification/Output_Capture.thy ===== *)
theory Output_Capture
  imports Workshop_Prelude
begin

text \<open>
  Text handling around job processes: the expansion of variables in arguments
  (\<open>src/Expand.cxx\<close>), the buffer that captures the output of a cron job
  (\<open>src/CaptureBuffer.cxx\<close>, \<open>src/PipeCaptureBuffer.cxx\<close>), the forwarding of its lines to
  Pond (\<open>src/PipePondAdapter.cxx\<close>) and the CPU usage of a cgroup
  (\<open>src/CgroupAccounting.cxx\<close>). Each is related to a specification by what the text means:
  a template of literals and variables, the lines of the text whatever pieces it arrives in.
\<close>

section \<open>Variables in arguments\<close>

text \<open>\<open>src.find("${", start)\<close>: the text before, and the text after the opening.\<close>

fun find_open :: "string \<Rightarrow> (string \<times> string) option" where
  "find_open (c # d # s) = (if c = CHR ''$'' \<and> d = CHR ''{'' then Some ([], s) else map_option (\<lambda>(a, b). (c # a, b)) (find_open (d # s)))"
| "find_open _ = None"

definition find_close :: "string \<Rightarrow> (string \<times> string) option" where
  "find_close s = (case dropWhile (\<lambda>c. c \<noteq> CHR ''}'') s of [] \<Rightarrow> None | _ # rest \<Rightarrow> Some (takeWhile (\<lambda>c. c \<noteq> CHR ''}'') s, rest))"

lemma find_open_length: "find_open s = Some (a, b) \<Longrightarrow> length b < length s"
  by (induction s arbitrary: a rule: find_open.induct) (fastforce split: if_splits)+

lemma find_close_length: "find_close s = Some (a, b) \<Longrightarrow> length b < length s"
  using length_dropWhile_le [of "\<lambda>c. c \<noteq> CHR ''}''" s] by (auto simp: find_close_def split: list.splits)

function Expand :: "(string \<Rightarrow> string option) \<Rightarrow> string \<Rightarrow> string" where
  "Expand vars src =
     (case find_open src of
        None \<Rightarrow> src
      | Some (before, r) \<Rightarrow>
          (case find_close r of
             None \<Rightarrow> src
           | Some (key, rest) \<Rightarrow> before @ (case vars key of None \<Rightarrow> [] | Some v \<Rightarrow> v) @ Expand vars rest))"
  by pat_completeness auto

termination
  by (relation "measure (\<lambda>(v, s). length s)") (auto dest!: find_open_length find_close_length)

declare Expand.simps [simp del]

text \<open>Templates: literals without an opening and variables without a closing brace.\<close>

datatype piece = Lit string | Var string

fun print_piece :: "piece \<Rightarrow> string" where
  "print_piece (Lit s) = s"
| "print_piece (Var n) = ''${'' @ n @ ''}''"

fun eval_piece :: "(string \<Rightarrow> string option) \<Rightarrow> piece \<Rightarrow> string" where
  "eval_piece vars (Lit s) = s"
| "eval_piece vars (Var n) = (case vars n of None \<Rightarrow> [] | Some v \<Rightarrow> v)"

fun piece_ok :: "piece \<Rightarrow> bool" where
  "piece_ok (Lit s) = (find_open s = None \<and> (s = [] \<or> last s \<noteq> CHR ''$''))"
| "piece_ok (Var n) = (CHR ''}'' \<notin> set n)"

lemma find_open_append:
  "find_open a = None \<Longrightarrow> a = [] \<or> last a \<noteq> CHR ''$'' \<Longrightarrow> find_open (a @ b) = map_option (\<lambda>(x, y). (a @ x, y)) (find_open b)"
proof (induction a rule: find_open.induct [case_names two nil one])
  case (two c d s)
  then have "find_open ((d # s) @ b) = map_option (\<lambda>(x, y). ((d # s) @ x, y)) (find_open b)" by (auto split: if_splits)
  then show ?case using two(2) by (auto simp: option.map_comp o_def case_prod_beta split: if_splits)
next
  case (one c)
  then show ?case by (cases b) (auto simp: option.map_comp)
qed (simp add: option.map_ident case_prod_unfold)

lemma find_close_name: "CHR ''}'' \<notin> set n \<Longrightarrow> find_close (n @ CHR ''}'' # rest) = Some (n, rest)"
proof -
  assume "CHR ''}'' \<notin> set n"
  then have "\<And>c. c \<in> set n \<Longrightarrow> c \<noteq> CHR ''}''" by auto
  then show ?thesis by (simp add: find_close_def takeWhile_append2 dropWhile_append2)
qed

text \<open>
  The expansion of arguments is exactly substitution: a text made of literals and variables becomes
  the literals and the values of the variables, an unknown variable becomes empty.
\<close>

lemma Expand_lit:
  assumes "find_open s = None" "s = [] \<or> last s \<noteq> CHR ''$''"
  shows "Expand vars (s @ t) = s @ Expand vars t"
proof (cases "find_open t")
  case None
  then show ?thesis using find_open_append [OF assms, of t] by (simp add: Expand.simps [of vars "s @ t"] Expand.simps [of vars t])
next
  case (Some p)
  obtain x y where p: "p = (x, y)" by (cases p)
  show ?thesis using find_open_append [OF assms, of t] Some p
    by (cases "find_close y") (auto simp: Expand.simps [of vars "s @ t"] Expand.simps [of vars t])
qed

lemma Expand_var:
  assumes "CHR ''}'' \<notin> set n"
  shows "Expand vars (''${'' @ n @ ''}'' @ t) = (case vars n of None \<Rightarrow> [] | Some v \<Rightarrow> v) @ Expand vars t"
  using find_close_name [OF assms, of t] by (subst Expand.simps) simp

text \<open>
  Expanding a template. In a text made of literal pieces without a dollar sign and references
  \<open>${NAME}\<close>, every reference is replaced by the value of its variable, or by nothing when the variable
  is unknown, and everything else is kept; values are not expanded again.
\<close>

theorem Expand_template:
  assumes "list_all piece_ok ps"
  shows "Expand vars (concat (map print_piece ps)) = concat (map (eval_piece vars) ps)"
  using assms
proof (induction ps)
  case Nil
  then show ?case by (simp add: Expand.simps)
next
  case (Cons p ps)
  then show ?case
    using Expand_lit Expand_var [of _ vars "concat (map print_piece ps)"] by (cases p) (simp_all del: append.simps)
qed

theorem Expand_template_witness:
  "Expand [''JOB'' \<mapsto> ''7''] ''--id=${JOB}.${X}'' = ''--id=7.''"
proof -
  have "Expand [''JOB'' \<mapsto> ''7''] (concat (map print_piece [Lit ''--id='', Var ''JOB'', Lit ''.'', Var ''X''])) = ''--id=7.''"
    by (subst Expand_template) simp_all
  then show ?thesis by simp
qed

section \<open>Captured output\<close>

definition IsPrintableASCII :: "char \<Rightarrow> bool" where
  "IsPrintableASCII c \<longleftrightarrow> 32 \<le> code c \<and> code c < 127"

definition IsAllowedNonPrintableChar :: "char \<Rightarrow> bool" where
  "IsAllowedNonPrintableChar c \<longleftrightarrow> c = CHR 0x0D \<or> c = CHR 0x0A \<or> c = CHR 0x09"

definition IsDisallowedChar :: "char \<Rightarrow> bool" where
  "IsDisallowedChar c \<longleftrightarrow> \<not> IsPrintableASCII c \<and> \<not> IsAllowedNonPrintableChar c"

record capture_buffer =
  cb_capacity :: nat
  cb_data :: string

definition capture_init :: "nat \<Rightarrow> capture_buffer" where
  "capture_init n = \<lparr>cb_capacity = n, cb_data = []\<rparr>"

definition Capture_IsFull :: "capture_buffer \<Rightarrow> bool" where
  "Capture_IsFull b \<longleftrightarrow> length (cb_data b) = cb_capacity b"

definition Capture_Write :: "capture_buffer \<Rightarrow> nat" where
  "Capture_Write b = cb_capacity b - length (cb_data b)"

definition Capture_Append :: "string \<Rightarrow> capture_buffer \<Rightarrow> capture_buffer" where
  "Capture_Append bytes b = b\<lparr>cb_data := cb_data b @ bytes\<rparr>"

definition NormalizeASCII :: "capture_buffer \<Rightarrow> string" where
  "NormalizeASCII b =
     (let d = (if length (cb_data b) = cb_capacity b then take (cb_capacity b - 1) (cb_data b) else cb_data b)
      in map (\<lambda>c. if IsDisallowedChar c then CHR '' '' else c) d)"

lemma NormalizeASCII_text:
  "list_all (\<lambda>c. IsPrintableASCII c \<or> IsAllowedNonPrintableChar c) (NormalizeASCII b)"
  "0 < cb_capacity b \<Longrightarrow> length (cb_data b) \<le> cb_capacity b \<Longrightarrow> length (NormalizeASCII b) < cb_capacity b"
  by (auto simp: NormalizeASCII_def Let_def list_all_iff IsDisallowedChar_def IsPrintableASCII_def)

section \<open>Forwarding lines to Pond\<close>

text \<open>
  \<open>TruncateMessage\<close> and \<open>Send\<close> are functions of \<open>libcommon\<close>; the datagrams that were sent are
  listed with their site.
\<close>

record pond_lib =
  TruncateMessage :: "nat \<Rightarrow> string \<Rightarrow> string"
  pond_send_ok :: "string \<Rightarrow> bool"

record pond_adapter =
  pa_buffer :: capture_buffer
  pa_socket :: bool
  pa_site :: string
  pa_position :: nat
  pa_closed :: bool
  pa_sent :: "(string option \<times> string) list"

definition pond_init :: "nat \<Rightarrow> string \<Rightarrow> pond_adapter" where
  "pond_init capacity site = \<lparr>pa_buffer = capture_init capacity, pa_socket = True, pa_site = site, pa_position = 0, pa_closed = False, pa_sent = []\<rparr>"

definition HasNullByte :: "string \<Rightarrow> bool" where
  "HasNullByte s \<longleftrightarrow> NUL \<in> set s"

definition Pond_OnLine :: "pond_lib \<Rightarrow> string \<Rightarrow> pond_adapter \<Rightarrow> pond_adapter" where
  "Pond_OnLine lib line p =
     (if line = [] then p
      else if HasNullByte line then p\<lparr>pa_socket := False\<rparr>
      else (let m = TruncateMessage lib 1024 line; site = (if pa_site p \<noteq> [] then Some (pa_site p) else None)
            in if pond_send_ok lib m then p\<lparr>pa_sent := pa_sent p @ [(site, m)]\<rparr> else p\<lparr>pa_socket := False\<rparr>))"

text \<open>\<open>memchr(r.data(), '\n', r.size())\<close>: the line and what follows it.\<close>

definition split_newline :: "string \<Rightarrow> (string \<times> string) option" where
  "split_newline r = (case dropWhile (\<lambda>c. c \<noteq> CHR 0x0A) r of [] \<Rightarrow> None | _ # rest \<Rightarrow> Some (takeWhile (\<lambda>c. c \<noteq> CHR 0x0A) r, rest))"

lemma split_newline_Some: "split_newline r = Some (l, rest) \<longleftrightarrow> r = l @ CHR 0x0A # rest \<and> CHR 0x0A \<notin> set l"
proof
  assume "split_newline r = Some (l, rest)"
  then obtain x where x: "dropWhile (\<lambda>c. c \<noteq> CHR 0x0A) r = x # rest" and l: "l = takeWhile (\<lambda>c. c \<noteq> CHR 0x0A) r"
    by (auto simp: split_newline_def split: list.splits)
  have "\<not> (hd (dropWhile (\<lambda>c. c \<noteq> CHR 0x0A) r) \<noteq> CHR 0x0A)" by (rule hd_dropWhile) (simp only: x, simp)
  then have d: "dropWhile (\<lambda>c. c \<noteq> CHR 0x0A) r = CHR 0x0A # rest" "l = takeWhile (\<lambda>c. c \<noteq> CHR 0x0A) r"
    using x l by simp_all
  then show "r = l @ CHR 0x0A # rest \<and> CHR 0x0A \<notin> set l"
    using takeWhile_dropWhile_id [of "\<lambda>c. c \<noteq> CHR 0x0A" r] set_takeWhileD [of _ "\<lambda>c. c \<noteq> CHR 0x0A" r] by auto
next
  assume r: "r = l @ CHR 0x0A # rest \<and> CHR 0x0A \<notin> set l"
  then have "\<And>c. c \<in> set l \<Longrightarrow> c \<noteq> CHR 0x0A" by auto
  then show "split_newline r = Some (l, rest)" using r by (simp add: split_newline_def takeWhile_append2 dropWhile_append2)
qed

lemma split_newline_None: "split_newline r = None \<longleftrightarrow> CHR 0x0A \<notin> set r"
proof -
  have iff: "dropWhile (\<lambda>c. c \<noteq> CHR 0x0A) r = [] \<longleftrightarrow> CHR 0x0A \<notin> set r" by (auto simp: dropWhile_eq_Nil_conv)
  show ?thesis
  proof (cases "dropWhile (\<lambda>c. c \<noteq> CHR 0x0A) r")
    case Nil
    then show ?thesis using iff unfolding split_newline_def Nil by simp
  next
    case (Cons x xs)
    then have "CHR 0x0A \<in> set r" using iff by (metis list.discI)
    then show ?thesis unfolding split_newline_def Cons by simp
  qed
qed

function send_loop :: "pond_lib \<Rightarrow> bool \<Rightarrow> string \<Rightarrow> pond_adapter \<Rightarrow> pond_adapter" where
  "send_loop lib flush r p =
     (if r = [] then p
      else (case split_newline r of
              Some (line, rest) \<Rightarrow>
                (let p' = Pond_OnLine lib line (p\<lparr>pa_position := pa_position p + length line + 1\<rparr>)
                 in if \<not> pa_socket p' then p' else send_loop lib flush rest p')
            | None \<Rightarrow> if flush then Pond_OnLine lib r (p\<lparr>pa_position := pa_position p + length r\<rparr>) else p))"
  by pat_completeness auto

termination
  by (relation "measure (\<lambda>(l, f, r, p). length r)") (auto simp: split_newline_Some)

declare send_loop.simps [simp del]

definition SendLines :: "pond_lib \<Rightarrow> bool \<Rightarrow> pond_adapter \<Rightarrow> pond_adapter" where
  "SendLines lib flush p = (if \<not> pa_socket p then p else send_loop lib flush (drop (pa_position p) (cb_data (pa_buffer p))) p)"

text \<open>
  \<open>PipeCaptureBuffer::OnSocket()\<close> with the handlers of the adapter: \<open>bytes\<close> is what the pipe
  holds, empty at its end; at most the free room is read, or 4096 bytes to be discarded.
\<close>

definition PipeCapture_OnSocket :: "pond_lib \<Rightarrow> string \<Rightarrow> pond_adapter \<Rightarrow> pond_adapter" where
  "PipeCapture_OnSocket lib bytes p =
     (let room = Capture_Write (pa_buffer p)
      in if room \<noteq> 0
         then (if bytes = [] then SendLines lib True (p\<lparr>pa_closed := True\<rparr>)
               else (let p1 = SendLines lib False (p\<lparr>pa_buffer := Capture_Append (take room bytes) (pa_buffer p)\<rparr>)
                     in if Capture_IsFull (pa_buffer p1) then SendLines lib True p1 else p1))
         else (if bytes = [] then p\<lparr>pa_closed := True\<rparr> else p))"

text \<open>The lines of a text: the complete ones and the rest after the last newline.\<close>

function cut_lines :: "string \<Rightarrow> string list \<times> string" where
  "cut_lines r = (case split_newline r of None \<Rightarrow> ([], r) | Some (l, rest) \<Rightarrow> (let (ls, q) = cut_lines rest in (l # ls, q)))"
  by pat_completeness auto

termination
  by (relation "measure length") (auto simp: split_newline_Some)

declare cut_lines.simps [simp del]

definition all_lines :: "string \<Rightarrow> string list" where
  "all_lines r = filter (\<lambda>l. l \<noteq> []) (fst (cut_lines r) @ [snd (cut_lines r)])"

lemma cut_lines_simps:
  "CHR 0x0A \<notin> set r \<Longrightarrow> cut_lines r = ([], r)"
  "CHR 0x0A \<notin> set l \<Longrightarrow> cut_lines (l @ CHR 0x0A # rest) = (l # fst (cut_lines rest), snd (cut_lines rest))"
proof -
  show "CHR 0x0A \<notin> set r \<Longrightarrow> cut_lines r = ([], r)"
    using split_newline_None [of r] by (subst cut_lines.simps) simp
  assume "CHR 0x0A \<notin> set l"
  then have "split_newline (l @ CHR 0x0A # rest) = Some (l, rest)" by (simp add: split_newline_Some)
  then show "cut_lines (l @ CHR 0x0A # rest) = (l # fst (cut_lines rest), snd (cut_lines rest))"
    by (subst cut_lines.simps) (simp add: case_prod_beta)
qed

lemma cut_lines_induct [case_names partial line]:
  assumes "\<And>r. CHR 0x0A \<notin> set r \<Longrightarrow> P r" and "\<And>l rest. CHR 0x0A \<notin> set l \<Longrightarrow> P rest \<Longrightarrow> P (l @ CHR 0x0A # rest)"
  shows "P r"
proof (induction r rule: cut_lines.induct)
  case (1 r)
  show ?case
  proof (cases "split_newline r")
    case None
    then show ?thesis using assms(1) by (simp add: split_newline_None)
  next
    case (Some lr)
    obtain l rest where lr: "lr = (l, rest)" by (cases lr)
    with Some have r: "r = l @ CHR 0x0A # rest" "CHR 0x0A \<notin> set l" by (simp_all add: split_newline_Some)
    have "P rest" using 1 [OF Some lr [symmetric]] .
    with r assms(2) show ?thesis by simp
  qed
qed

lemma cut_lines_rest: "CHR 0x0A \<notin> set (snd (cut_lines r))"
  by (induction r rule: cut_lines_induct) (simp_all add: cut_lines_simps)

lemma cut_lines_append:
  "cut_lines (a @ b) = (fst (cut_lines a) @ fst (cut_lines (snd (cut_lines a) @ b)), snd (cut_lines (snd (cut_lines a) @ b)))"
  by (induction a rule: cut_lines_induct) (simp_all add: cut_lines_simps)

lemma cut_lines_drop: "drop (length r - length (snd (cut_lines r))) r = snd (cut_lines r)"
  "length (snd (cut_lines r)) \<le> length r" "\<exists>pre. r = pre @ snd (cut_lines r)"
proof -
  show ex: "\<exists>pre. r = pre @ snd (cut_lines r)"
  proof (induction r rule: cut_lines_induct)
    case (line l rest)
    then obtain pre where "rest = pre @ snd (cut_lines rest)" by blast
    then have "l @ CHR 0x0A # rest = (l @ CHR 0x0A # pre) @ snd (cut_lines rest)" by simp
    moreover have "snd (cut_lines (l @ CHR 0x0A # rest)) = snd (cut_lines rest)" using line(1) by (simp add: cut_lines_simps)
    ultimately show ?case by metis
  qed (simp add: cut_lines_simps)
  then show "drop (length r - length (snd (cut_lines r))) r = snd (cut_lines r)" "length (snd (cut_lines r)) \<le> length r"
    by (metis append_eq_conv_conj length_append add_diff_cancel_right') (metis ex length_append le_add2)
qed


text \<open>The datagram of a line.\<close>

definition pond_message :: "pond_lib \<Rightarrow> string \<Rightarrow> string \<Rightarrow> string option \<times> string" where
  "pond_message lib site line = (if site \<noteq> [] then Some site else None, TruncateMessage lib 1024 line)"

lemma Pond_OnLine_sends:
  "pond_send_ok lib = (\<lambda>m. True) \<Longrightarrow> \<not> HasNullByte line \<Longrightarrow>
   Pond_OnLine lib line p = p\<lparr>pa_sent := pa_sent p @ map (pond_message lib (pa_site p)) (filter (\<lambda>l. l \<noteq> []) [line])\<rparr>"
  by (simp add: Pond_OnLine_def pond_message_def Let_def)

lemma send_loop_sends:
  assumes "pond_send_ok lib = (\<lambda>m. True)"
  shows "pa_socket p \<Longrightarrow> \<not> HasNullByte r \<Longrightarrow> send_loop lib flush r p =
    p\<lparr>pa_position := pa_position p + (if flush then length r else length r - length (snd (cut_lines r))),
      pa_sent := pa_sent p @ map (pond_message lib (pa_site p))
        (filter (\<lambda>l. l \<noteq> []) (fst (cut_lines r) @ (if flush then [snd (cut_lines r)] else [])))\<rparr>"
proof (induction r arbitrary: p rule: cut_lines_induct)
  case (partial r)
  then have "split_newline r = None" by (simp add: split_newline_None)
  with partial show ?case
    by (subst send_loop.simps) (simp add: cut_lines_simps Pond_OnLine_sends [OF assms])
next
  case (line l rest)
  let ?p = "Pond_OnLine lib l (p\<lparr>pa_position := Suc (pa_position p + length l)\<rparr>)"
  have s: "split_newline (l @ CHR 0x0A # rest) = Some (l, rest)" using line.hyps by (simp add: split_newline_Some)
  have nb: "\<not> HasNullByte l" "\<not> HasNullByte rest" using line.prems(2) by (auto simp: HasNullByte_def)
  have p: "?p = p\<lparr>pa_position := Suc (pa_position p + length l), pa_sent := pa_sent p @ map (pond_message lib (pa_site p)) (filter (\<lambda>x. x \<noteq> []) [l])\<rparr>"
    using Pond_OnLine_sends [OF assms nb(1)] by simp
  have "send_loop lib flush (l @ CHR 0x0A # rest) p = send_loop lib flush rest ?p"
    using s line.prems(1) by (subst send_loop.simps) (simp add: p Let_def)
  also have "\<dots> = p\<lparr>pa_position := pa_position p + (if flush then length (l @ CHR 0x0A # rest) else length (l @ CHR 0x0A # rest) - length (snd (cut_lines rest))),
      pa_sent := pa_sent p @ map (pond_message lib (pa_site p))
        (filter (\<lambda>l. l \<noteq> []) ((l # fst (cut_lines rest)) @ (if flush then [snd (cut_lines rest)] else [])))\<rparr>"
    using line.IH [of ?p] nb(2) line.prems(1) cut_lines_drop(2) [of rest] by (simp add: p)
  finally show ?case unfolding cut_lines_simps(2) [OF line.hyps] fst_conv snd_conv .
qed

text \<open>The state of the adapter when the text \<open>t\<close> has arrived.\<close>

definition pond_inv :: "pond_lib \<Rightarrow> nat \<Rightarrow> string \<Rightarrow> string \<Rightarrow> pond_adapter \<Rightarrow> bool" where
  "pond_inv lib cap site t p \<longleftrightarrow>
     pa_buffer p = \<lparr>cb_capacity = cap, cb_data = take cap t\<rparr> \<and> pa_socket p \<and> pa_site p = site \<and>
     (if length t < cap
      then pa_position p = length t - length (snd (cut_lines t)) \<and>
           pa_sent p = map (pond_message lib site) (filter (\<lambda>l. l \<noteq> []) (fst (cut_lines t)))
      else pa_position p = cap \<and> pa_sent p = map (pond_message lib site) (all_lines (take cap t)))"

lemma null_suffix: "\<not> HasNullByte t \<Longrightarrow> \<not> HasNullByte (snd (cut_lines t))"
  using cut_lines_drop(3) [of t] by (metis HasNullByte_def Un_iff set_append)

lemma flush_partial:
  assumes "pond_send_ok lib = (\<lambda>m. True)" "\<not> HasNullByte t" "pa_socket p" "cb_data (pa_buffer p) = t" "pa_site p = site"
    and "pa_position p = length t - length (snd (cut_lines t))" "pa_sent p = map (pond_message lib site) (filter (\<lambda>l. l \<noteq> []) (fst (cut_lines t)))"
  shows "SendLines lib True p = p\<lparr>pa_position := length t, pa_sent := map (pond_message lib site) (all_lines t)\<rparr>"
proof -
  have r: "drop (pa_position p) (cb_data (pa_buffer p)) = snd (cut_lines t)"
    using assms(4,6) cut_lines_drop(1) [of t] by simp
  have "cut_lines (snd (cut_lines t)) = ([], snd (cut_lines t))" by (rule cut_lines_simps(1) [OF cut_lines_rest])
  then show ?thesis
    using send_loop_sends [OF assms(1,3) null_suffix [OF assms(2)], of True] assms(3-) cut_lines_drop(2) [of t]
    unfolding SendLines_def r by (simp add: all_lines_def)
qed

lemma pond_step:
  assumes "pond_send_ok lib = (\<lambda>m. True)" "\<not> HasNullByte (t @ c)" "c \<noteq> []" "pond_inv lib cap site t p"
  shows "pond_inv lib cap site (t @ c) (PipeCapture_OnSocket lib c p)"
proof (cases "length t < cap")
  case False
  then show ?thesis using assms(3,4) by (simp add: pond_inv_def PipeCapture_OnSocket_def Capture_Write_def Let_def)
next
  case True
  define x where "x = take (cap - length t) c"
  define d where "d = t @ x"
  define p0 where "p0 = p\<lparr>pa_buffer := \<lparr>cb_capacity = cap, cb_data = d\<rparr>\<rparr>"
  define p1 where "p1 = SendLines lib False p0"
  have p: "pa_buffer p = \<lparr>cb_capacity = cap, cb_data = t\<rparr>" "pa_socket p" "pa_site p = site" "pa_position p = length t - length (snd (cut_lines t))"
    "pa_sent p = map (pond_message lib site) (filter (\<lambda>l. l \<noteq> []) (fst (cut_lines t)))"
    using assms(4) True by (simp_all add: pond_inv_def)
  have nd: "\<not> HasNullByte d" using assms(2) set_take_subset [of "cap - length t" c] by (auto simp: HasNullByte_def d_def x_def)
  have r: "drop (pa_position p0) (cb_data (pa_buffer p0)) = snd (cut_lines t) @ x"
    using cut_lines_drop(1,2) [of t] p(4) by (simp add: p0_def d_def)
  have nr: "\<not> HasNullByte (snd (cut_lines t) @ x)"
    using nd null_suffix [of t] by (auto simp: HasNullByte_def d_def)
  have cut: "fst (cut_lines d) = fst (cut_lines t) @ fst (cut_lines (snd (cut_lines t) @ x))"
    "snd (cut_lines d) = snd (cut_lines (snd (cut_lines t) @ x))"
    using cut_lines_append [of t x] by (simp_all add: d_def)
  have p1: "p1 = p0\<lparr>pa_position := length d - length (snd (cut_lines d)),
      pa_sent := map (pond_message lib site) (filter (\<lambda>l. l \<noteq> []) (fst (cut_lines d)))\<rparr>"
    using send_loop_sends [OF assms(1) _ nr, of p0 False] p cut cut_lines_drop(2) [of t] cut_lines_drop(2) [of "snd (cut_lines t) @ x"]
    unfolding p1_def SendLines_def r by (simp add: p0_def d_def)
  have w: "Capture_Write (pa_buffer p) = cap - length t" "cap - length t \<noteq> 0"
      "Capture_Append (take (cap - length t) c) (pa_buffer p) = \<lparr>cb_capacity = cap, cb_data = d\<rparr>"
    using p(1) True by (simp_all add: Capture_Write_def Capture_Append_def d_def x_def)
  have full: "Capture_IsFull (pa_buffer p1) \<longleftrightarrow> length d = cap" by (simp add: p1 p0_def Capture_IsFull_def)
  have step: "PipeCapture_OnSocket lib c p = (if length d = cap then SendLines lib True p1 else p1)"
    unfolding PipeCapture_OnSocket_def Let_def w(1,3) p0_def [symmetric] p1_def [symmetric] full using w(2) assms(3) by (simp only: if_True if_False not_False_eq_True simp_thms)
  have d: "d = take cap (t @ c)" using True by (simp add: d_def x_def)
  show ?thesis
  proof (cases "length (t @ c) < cap")
    case short: True
    then have "d = t @ c" by (simp add: d)
    then show ?thesis using short p by (simp add: step p1 p0_def pond_inv_def)
  next
    case long: False
    then have len: "length d = cap" by (simp add: d)
    have "SendLines lib True p1 = p1\<lparr>pa_position := length d, pa_sent := map (pond_message lib site) (all_lines d)\<rparr>"
      using p by (intro flush_partial [OF assms(1) nd]) (simp_all add: p1 p0_def)
    then show ?thesis using long len p by (simp add: step p1 p0_def pond_inv_def) (use d in simp)
  qed
qed

lemma pond_run:
  assumes "pond_send_ok lib = (\<lambda>m. True)"
  shows "pond_inv lib cap site t p \<Longrightarrow> \<not> HasNullByte (t @ concat cs) \<Longrightarrow> [] \<notin> set cs \<Longrightarrow>
   pond_inv lib cap site (t @ concat cs) (fold (PipeCapture_OnSocket lib) cs p)"
proof (induction cs arbitrary: t p)
  case (Cons c cs)
  have "\<not> HasNullByte (t @ c)" using Cons.prems(2) by (auto simp: HasNullByte_def)
  from pond_step [OF assms this _ Cons.prems(1)] Cons.prems Cons.IH [of "t @ c"] show ?case by auto
qed simp

text \<open>
  C27: The output of a process reaches Pond line by line, independently of the pieces in which it
  arrives: after the end of the pipe exactly the non-empty lines of the captured text (as much as
  fits into the buffer) were sent, each once and in order.
\<close>

theorem pond_lines_sent:
  assumes "pond_send_ok lib = (\<lambda>m. True)" "\<not> HasNullByte (concat chunks)" "[] \<notin> set chunks"
    and "p = PipeCapture_OnSocket lib [] (fold (PipeCapture_OnSocket lib) chunks (pond_init capacity site))"
  shows "pa_sent p = map (\<lambda>line. (if site \<noteq> [] then Some site else None, TruncateMessage lib 1024 line)) (all_lines (take capacity (concat chunks)))
    \<and> cb_data (pa_buffer p) = take capacity (concat chunks) \<and> pa_closed p"
proof -
  let ?t = "concat chunks" and ?q = "fold (PipeCapture_OnSocket lib) chunks (pond_init capacity site)"
  have "pond_inv lib capacity site [] (pond_init capacity site)"
    by (simp add: pond_inv_def pond_init_def capture_init_def cut_lines_simps all_lines_def)
  from pond_run [OF assms(1) this] assms(2,3) have q: "pond_inv lib capacity site ?t ?q" by simp
  have msg: "(\<lambda>line. (if site \<noteq> [] then Some site else None, TruncateMessage lib 1024 line)) = pond_message lib site"
    by (simp add: pond_message_def fun_eq_iff)
  show ?thesis
  proof (cases "length ?t < capacity")
    case True
    have "SendLines lib True (?q\<lparr>pa_closed := True\<rparr>) = (?q\<lparr>pa_closed := True\<rparr>)\<lparr>pa_position := length ?t, pa_sent := map (pond_message lib site) (all_lines ?t)\<rparr>"
      using q True by (intro flush_partial [OF assms(1,2)]) (simp_all add: pond_inv_def)
    then show ?thesis using q True
      by (simp add: assms(4) PipeCapture_OnSocket_def Capture_Write_def pond_inv_def Let_def msg)
  next
    case False
    then show ?thesis using q by (simp add: assms(4) PipeCapture_OnSocket_def Capture_Write_def pond_inv_def Let_def msg)
  qed
qed


definition plain_pond :: pond_lib where
  "plain_pond = \<lparr>TruncateMessage = take, pond_send_ok = (\<lambda>m. True)\<rparr>"

theorem pond_lines_sent_witness:
  "pa_sent (PipeCapture_OnSocket plain_pond [] (fold (PipeCapture_OnSocket plain_pond) [''ab'', [CHR 0x0A, CHR ''c'']] (pond_init 8192 ''www'')))
     = [(Some ''www'', ''ab''), (Some ''www'', ''c'')]"
proof -
  have lines: "all_lines (take 8192 (concat [''ab'', [CHR 0x0A, CHR ''c'']])) = [''ab'', ''c'']"
  proof -
    have "cut_lines (''ab'' @ CHR 0x0A # ''c'') = ([''ab''], ''c'')"
      using cut_lines_simps(2) [of "''ab''" "''c''"] cut_lines_simps(1) [of "''c''"] by simp
    then show ?thesis by (simp add: all_lines_def)
  qed
  have "pa_sent (PipeCapture_OnSocket plain_pond [] (fold (PipeCapture_OnSocket plain_pond) [''ab'', [CHR 0x0A, CHR ''c'']] (pond_init 8192 ''www'')))
    = map (\<lambda>line. (if ''www'' \<noteq> [] then Some ''www'' else None, TruncateMessage plain_pond 1024 line)) (all_lines (take 8192 (concat [''ab'', [CHR 0x0A, CHR ''c'']])))"
    by (rule conjunct1 [OF pond_lines_sent [OF _ _ _ refl]]) (simp_all add: plain_pond_def HasNullByte_def)
  then show ?thesis unfolding lines by (simp add: plain_pond_def)
qed

section \<open>CPU usage\<close>

text \<open>
  The lines of \<open>cpu.stat\<close> are the argument; \<open>parse\<close> is \<open>ParseInteger\<close> of \<open>libcommon\<close>.
  \<open>None\<close> is \<open>microseconds::min()\<close>.
\<close>

fun ReadCgroupCpuUsage :: "(string \<Rightarrow> nat option) \<Rightarrow> string list \<Rightarrow> nat option" where
  "ReadCgroupCpuUsage parse [] = None"
| "ReadCgroupCpuUsage parse (line # lines) =
     (if take 11 line = ''usage_usec '' then parse (drop 11 line) else ReadCgroupCpuUsage parse lines)"

lemma ReadCgroupCpuUsage_found:
  "(\<forall>l\<in>set before. take 11 l \<noteq> ''usage_usec '') \<Longrightarrow> ReadCgroupCpuUsage parse (before @ (''usage_usec '' @ n) # after) = parse n"
  by (induction before) auto

end
