(* ===== verification/Workshop_Node.thy ===== *)
theory Workshop_Node
  imports Jobs_Table Plan_Library Sticky_Manager Capacity_Gate Job_Channels
begin

text \<open>
  One workshop partition: \<open>WorkshopQueue\<close> (\<open>src/workshop/Queue.cxx\<close>), \<open>WorkshopJob\<close>
  (\<open>Job.cxx\<close>), \<open>WorkshopOperator\<close> (the part of \<open>Operator.cxx\<close> that reports to the database),
  \<open>WorkshopWorkplace\<close> (\<open>Workplace.cxx\<close>) and \<open>WorkshopPartition\<close>
  (\<open>Partition.cxx\<close>), with the database and the library of plans they work on. As in the cron
  partition, every statement may fail, timers are delays (here in milliseconds), and calls without a
  result are listed as actions. \<open>ExpiryMap\<close>, \<open>CheckError()\<close>, the rendezvous score and the clock
  are arguments; the steady clock counts seconds.
\<close>

section \<open>State\<close>

record workshop_job =
  wj_id :: string
  wj_plan_name :: string
  wj_sticky_id :: string
  wj_args :: "string list"
  wj_env :: "string list"
  wj_stdin :: "string option"

record ws_db =
  sd_jobs :: jobs
  sd_sticky :: "string set"
  sd_schema :: pg_schema
  sd_now :: time_point
  sd_faults :: "bool list"

datatype ws_action = WsConnect | WsNotify | WsNotifyProgress string | WsListen string | WsIdle | WsKill string

record ws_queue =
  wq_node_name :: string
  wq_sticky :: bool
  wq_enabled_state :: bool
  wq_enabled_admin :: bool
  wq_disabled_full :: bool
  wq_running :: bool
  wq_interrupt :: bool
  wq_db_ready :: bool
  wq_check_notify :: bool
  wq_timer :: "int option"
  wq_progress_notify_timer :: "int option"
  wq_progress_notify_plans :: "string list"
  wq_plans_include :: string
  wq_plans_exclude :: string
  wq_plans_lowprio :: string
  wq_next_expire_check :: "int option"

record workshop_operator =
  op_key :: nat
  op_job :: workshop_job
  op_plan :: plan
  op_exited :: bool
  op_again :: int
  op_cpu_usage_start :: "int option"
  op_child_tag :: string
  op_timeout :: "int option"
  op_control_channel :: bool
  op_log :: log_bridge

record ws_workplace =
  ww_operators :: "workshop_operator list"
  ww_next_key :: nat
  ww_max_operators :: nat
  ww_enable_journal :: bool

record ws_node =
  ws_name :: string
  ws_sticky :: "sticky_manager option"
  ws_library :: multi_library
  ws_rate_limited_plans :: "(string \<times> int) list"
  ws_rate_limit_timer :: "int option"
  ws_reap_timer :: "int option"
  ws_queue :: ws_queue
  ws_workplace :: ws_workplace
  ws_max_log :: nat
  ws_db :: ws_db
  ws_actions :: "ws_action list"

text \<open>
  \<open>wx_expiry_visit\<close> is \<open>ExpiryMap::ForEach()\<close>: the keys that have not expired, the earliest
  expiry among them, and the map afterwards; \<open>wx_start_error\<close> is the error with which the
  coroutine of a new operator ends before it first waits; \<open>wx_sticky_column\<close> and the others
  describe the database server.
\<close>

record ws_ctx =
  wx_pg :: pg_lib
  wx_sys :: plan_sys
  wx_fs :: "lib_fs list"
  wx_score :: "int score"
  wx_check_error :: "db_error \<Rightarrow> bool option"
  wx_tag_contains :: "string \<Rightarrow> string \<Rightarrow> bool"
  wx_steady :: int
  wx_expiry_set :: "string \<Rightarrow> int \<Rightarrow> (string \<times> int) list \<Rightarrow> (string \<times> int) list"
  wx_expiry_visit :: "int \<Rightarrow> (string \<times> int) list \<Rightarrow> string list \<times> int option \<times> (string \<times> int) list"
  wx_start_error :: "workshop_job \<Rightarrow> string option"
  wx_valid_utf8 :: "string \<Rightarrow> bool"
  wx_server_version :: nat
  wx_has_columns :: bool
  wx_schema :: pg_schema
  wx_schema_name :: string

definition ws_act :: "ws_action \<Rightarrow> ws_node \<Rightarrow> ws_node" where
  "ws_act a s = s\<lparr>ws_actions := ws_actions s @ [a]\<rparr>"

definition on_wq :: "(ws_queue \<Rightarrow> ws_queue) \<Rightarrow> ws_node \<Rightarrow> ws_node" where
  "on_wq f s = s\<lparr>ws_queue := f (ws_queue s)\<rparr>"

definition ws_try :: "(ws_db \<Rightarrow> (db_error + 'a) \<times> ws_db) \<Rightarrow> ws_node \<Rightarrow> (db_error + 'a) \<times> ws_node" where
  "ws_try f s =
     (let db = ws_db s; db' = db\<lparr>sd_faults := tl (sd_faults db)\<rparr>
      in if \<not> wq_db_ready (ws_queue s) then (Inl SqlError, s)
         else if sd_faults db \<noteq> [] \<and> hd (sd_faults db) then (Inl SqlError, s\<lparr>ws_db := db'\<rparr>)
         else (let (x, db'') = f db' in (x, s\<lparr>ws_db := db''\<rparr>)))"

definition on_table :: "(jobs \<Rightarrow> (db_error + 'a) \<times> jobs) \<Rightarrow> ws_db \<Rightarrow> (db_error + 'a) \<times> ws_db" where
  "on_table f db = (let (x, t) = f (sd_jobs db) in (x, db\<lparr>sd_jobs := t\<rparr>))"

definition Workshop_OnDisconnect :: "ws_queue \<Rightarrow> ws_queue" where
  "Workshop_OnDisconnect q = q\<lparr>wq_progress_notify_timer := None, wq_timer := None, wq_check_notify := False\<rparr>"

definition ws_CheckError :: "ws_ctx \<Rightarrow> db_error \<Rightarrow> ws_node \<Rightarrow> ws_node" where
  "ws_CheckError cx e s =
     (case wx_check_error cx e of None \<Rightarrow> s | Some r \<Rightarrow> on_wq (\<lambda>q. (Workshop_OnDisconnect q)\<lparr>wq_db_ready := r\<rparr>) s)"

text \<open>Execute a statement whose errors are only passed to \<open>CheckError()\<close>.\<close>

definition ws_exec :: "ws_ctx \<Rightarrow> (ws_db \<Rightarrow> (db_error + unit) \<times> ws_db) \<Rightarrow> ws_node \<Rightarrow> ws_node" where
  "ws_exec cx f s = (case ws_try f s of (Inl e, s') \<Rightarrow> ws_CheckError cx e s' | (Inr _, s') \<Rightarrow> s')"

definition pg_notify :: "ws_node \<Rightarrow> (db_error + unit) \<times> ws_node" where
  "pg_notify s = (case ws_try (\<lambda>db. (Inr (), db)) s of (Inl e, s') \<Rightarrow> (Inl e, s') | (Inr _, s') \<Rightarrow> (Inr (), ws_act WsNotify s'))"

section \<open>The queue\<close>

definition Workshop_IsEnabledOrFull :: "ws_queue \<Rightarrow> bool" where
  "Workshop_IsEnabledOrFull q \<longleftrightarrow> wq_enabled_state q \<and> wq_enabled_admin q"

definition Workshop_IsEnabled :: "ws_queue \<Rightarrow> bool" where
  "Workshop_IsEnabled q \<longleftrightarrow> wq_enabled_state q \<and> wq_enabled_admin q \<and> \<not> wq_disabled_full q"

definition Workshop_ScheduleTimer :: "int \<Rightarrow> ws_queue \<Rightarrow> ws_queue" where
  "Workshop_ScheduleTimer d q = q\<lparr>wq_timer := Some d\<rparr>"

definition Workshop_Reschedule :: "ws_queue \<Rightarrow> ws_queue" where
  "Workshop_Reschedule q = Workshop_ScheduleTimer 10 q"

definition Workshop_ScheduleCheckNotify :: "ws_queue \<Rightarrow> ws_queue" where
  "Workshop_ScheduleCheckNotify q = q\<lparr>wq_check_notify := True\<rparr>"

definition Workshop_CheckEnabled :: "ws_queue \<Rightarrow> ws_queue" where
  "Workshop_CheckEnabled q = (if Workshop_IsEnabled q \<and> wq_db_ready q then Workshop_Reschedule q else q)"

definition Workshop_SetStateEnabled :: "bool \<Rightarrow> ws_queue \<Rightarrow> ws_queue" where
  "Workshop_SetStateEnabled b q = (if b = wq_enabled_state q then q else Workshop_CheckEnabled (q\<lparr>wq_enabled_state := b\<rparr>))"

definition Workshop_DisableAdmin :: "ws_queue \<Rightarrow> ws_queue" where
  "Workshop_DisableAdmin q = q\<lparr>wq_enabled_admin := False\<rparr>"

definition Workshop_EnableAdmin :: "ws_queue \<Rightarrow> ws_queue" where
  "Workshop_EnableAdmin q = (if wq_enabled_admin q then q else Workshop_CheckEnabled (q\<lparr>wq_enabled_admin := True\<rparr>))"

definition Workshop_DisableFull :: "ws_queue \<Rightarrow> ws_queue" where
  "Workshop_DisableFull q = q\<lparr>wq_disabled_full := True\<rparr>"

definition Workshop_EnableFull :: "ws_queue \<Rightarrow> ws_queue" where
  "Workshop_EnableFull q = (if \<not> wq_disabled_full q then q else Workshop_CheckEnabled (q\<lparr>wq_disabled_full := False\<rparr>))"

text \<open>The statement fails when the id is already present.\<close>

definition Workshop_InsertStickyNonLocal :: "ws_ctx \<Rightarrow> string \<Rightarrow> ws_node \<Rightarrow> ws_node" where
  "Workshop_InsertStickyNonLocal cx sid s =
     (if \<not> wq_db_ready (ws_queue s) then s
      else ws_exec cx (\<lambda>db. case StickyTable_InsertNonLocal sid (sd_sticky db) of
             None \<Rightarrow> (Inl SqlError, db) | Some t \<Rightarrow> (Inr (), db\<lparr>sd_sticky := t\<rparr>)) s)"

definition Workshop_FlushSticky :: "ws_ctx \<Rightarrow> ws_node \<Rightarrow> ws_node" where
  "Workshop_FlushSticky cx s =
     (if \<not> wq_db_ready (ws_queue s) then s
      else ws_exec cx (\<lambda>db. (Inr (), db\<lparr>sd_sticky := StickyTable_Flush (sd_sticky db)\<rparr>)) s)"

definition copy_string :: "string \<Rightarrow> string \<Rightarrow> bool \<times> string" where
  "copy_string dest src = (dest \<noteq> src, src)"

definition SetFilter :: "string \<Rightarrow> string \<Rightarrow> string \<Rightarrow> ws_queue \<Rightarrow> ws_queue" where
  "SetFilter inc exc low q =
     (let (r1, inc') = copy_string (wq_plans_include q) inc; (r2, exc') = copy_string (wq_plans_exclude q) exc;
          q' = q\<lparr>wq_plans_include := inc', wq_plans_exclude := exc', wq_plans_lowprio := low\<rparr>
      in if r1 \<or> r2
         then (if wq_running q' then q'\<lparr>wq_interrupt := True\<rparr> else if wq_db_ready q' then Workshop_Reschedule q' else q')
         else q')"

definition Workshop_CheckRateLimit :: "ws_ctx \<Rightarrow> string \<Rightarrow> rate_limit \<Rightarrow> ws_node \<Rightarrow> int \<times> ws_node" where
  "Workshop_CheckRateLimit cx plan r s =
     (case ws_try (\<lambda>db. (PgCheckRateLimit (wx_pg cx) (sd_now db) plan (rl_duration r) (rl_max_count r) (sd_jobs db), db)) s of
        (Inl e, s') \<Rightarrow> (0, ws_CheckError cx e s')
      | (Inr d, s') \<Rightarrow> (d, s'))"

text \<open>\<open>std::set::emplace()\<close> of a sorted list, and whether it was inserted.\<close>

definition set_emplace :: "string \<Rightarrow> string list \<Rightarrow> bool \<times> string list" where
  "set_emplace x xs = (if x \<in> set xs then (False, xs) else (True, insort x xs))"

definition SetJobProgress :: "ws_ctx \<Rightarrow> workshop_job \<Rightarrow> nat \<Rightarrow> string \<Rightarrow> bool \<Rightarrow> ws_node \<Rightarrow> bool \<times> ws_node" where
  "SetJobProgress cx job p timeout notify s =
     (let s1 = on_wq Workshop_ScheduleCheckNotify s;
          s2 = (if notify
                then on_wq (\<lambda>q. let (inserted, ps) = set_emplace (wj_plan_name job) (wq_progress_notify_plans q);
                                    q' = q\<lparr>wq_progress_notify_plans := ps\<rparr>
                                in if inserted \<and> wq_progress_notify_timer q = None then q'\<lparr>wq_progress_notify_timer := Some 250\<rparr> else q') s1
                else s1)
      in case ws_try (\<lambda>db. on_table (pg_set_job_progress (wx_pg cx) (sd_schema db) (sd_now db) (wj_id job) p timeout) db) s2 of
           (Inl e, s') \<Rightarrow> (False, ws_CheckError cx e s')
         | (Inr _, s') \<Rightarrow> (True, s'))"

definition SetJobEnv :: "workshop_job \<Rightarrow> string \<Rightarrow> ws_node \<Rightarrow> (db_error + unit) \<times> ws_node" where
  "SetJobEnv job more_env s = ws_try (on_table (PgSetEnv (wj_id job) more_env)) (on_wq Workshop_ScheduleCheckNotify s)"

definition AgainJob :: "ws_ctx \<Rightarrow> workshop_job \<Rightarrow> string option \<Rightarrow> int \<Rightarrow> ws_node \<Rightarrow> ws_node" where
  "AgainJob cx job l delay s =
     (case ws_try (\<lambda>db. if delay > 0 then on_table (pg_again_job (sd_schema db) (sd_now db) (wj_id job) l delay) db
                       else on_table (pg_rollback_job (sd_schema db) (sd_now db) (wj_id job)) db) s of
        (Inl e, s1) \<Rightarrow> ws_CheckError cx e s1
      | (Inr _, s1) \<Rightarrow> (case pg_notify s1 of (Inl e, s2) \<Rightarrow> ws_CheckError cx e s2 | (Inr _, s2) \<Rightarrow> on_wq Workshop_ScheduleCheckNotify s2))"

definition SetJobDone :: "ws_ctx \<Rightarrow> workshop_job \<Rightarrow> int \<Rightarrow> string option \<Rightarrow> ws_node \<Rightarrow> ws_node" where
  "SetJobDone cx job status l s =
     (case ws_try (\<lambda>db. on_table (pg_set_job_done (sd_schema db) (sd_now db) (wj_id job) status l) db) s of
        (Inl e, s') \<Rightarrow> ws_CheckError cx e s'
      | (Inr _, s') \<Rightarrow> on_wq Workshop_ScheduleCheckNotify s')"

definition AddJobCpuUsage :: "ws_ctx \<Rightarrow> workshop_job \<Rightarrow> int \<Rightarrow> ws_node \<Rightarrow> ws_node" where
  "AddJobCpuUsage cx job usage s = ws_exec cx (on_table (PgAddJobCpuUsage (wj_id job) usage)) s"

definition ReapFinishedJobs :: "ws_ctx \<Rightarrow> string \<Rightarrow> string \<Rightarrow> ws_node \<Rightarrow> nat \<times> ws_node" where
  "ReapFinishedJobs cx plan reap s =
     (if \<not> wq_db_ready (ws_queue s) then (0, s)
      else (case ws_try (\<lambda>db. on_table (PgReapFinishedJobs (wx_pg cx) (sd_now db) plan reap) db) s of
              (Inl e, s') \<Rightarrow> (0, ws_CheckError cx e s')
            | (Inr n, s') \<Rightarrow> (n, s')))"

text \<open>The plans are notified in order until a statement fails; the list is cleared in any case.\<close>

fun notify_plans :: "string list \<Rightarrow> ws_node \<Rightarrow> (db_error + unit) \<times> ws_node" where
  "notify_plans [] s = (Inr (), s)"
| "notify_plans (p # ps) s =
     (case ws_try (\<lambda>db. (Inr (), db)) s of
        (Inl e, s') \<Rightarrow> (Inl e, s')
      | (Inr (_ :: unit), s') \<Rightarrow> notify_plans ps (ws_act (WsNotifyProgress p) s'))"

definition OnProgressNotifyTimer :: "ws_ctx \<Rightarrow> ws_node \<Rightarrow> ws_node" where
  "OnProgressNotifyTimer cx s =
     (let s1 = (case notify_plans (wq_progress_notify_plans (ws_queue s)) (on_wq (\<lambda>q. q\<lparr>wq_progress_notify_timer := None\<rparr>) s) of
                  (Inl e, s') \<Rightarrow> ws_CheckError cx e s' | (Inr _, s') \<Rightarrow> s')
      in on_wq (\<lambda>q. q\<lparr>wq_progress_notify_plans := []\<rparr>) s1)"

definition GetNextScheduled :: "ws_ctx \<Rightarrow> ws_node \<Rightarrow> (db_error + int) \<times> ws_node" where
  "GetNextScheduled cx s =
     (let inc = wq_plans_include (ws_queue s)
      in if inc = [] then (Inr (-1), s)
         else (case ws_try (\<lambda>db. (pg_next_scheduled_job (wx_pg cx) (sd_schema db) (sd_sticky db) (sd_now db) inc (sd_jobs db), db)) s of
                 (Inl e, s') \<Rightarrow> (Inl e, s')
               | (Inr None, s') \<Rightarrow> (Inr (-1), s')
               | (Inr (Some span), s') \<Rightarrow> (Inr (min 600 (max 0 span + 2)), s')))"

definition MakeJob :: "job_row \<Rightarrow> db_error + workshop_job" where
  "MakeJob row =
     (let job = \<lparr>wj_id = job_id row, wj_plan_name = plan_name row, wj_sticky_id = (case sticky_id row of None \<Rightarrow> [] | Some x \<Rightarrow> x),
                 wj_args = args row, wj_env = (case env row of None \<Rightarrow> [] | Some x \<Rightarrow> x), wj_stdin = stdin row\<rparr>
      in if wj_id job = [] then Inl JobHasNoId else if wj_plan_name job = [] then Inl JobHasNoPlan else Inr job)"

definition get_and_claim_job :: "ws_ctx \<Rightarrow> workshop_job \<Rightarrow> string \<Rightarrow> ws_node \<Rightarrow> (db_error + bool) \<times> ws_node" where
  "get_and_claim_job cx job timeout s =
     ws_try (\<lambda>db. on_table (pg_claim_job (wx_pg cx) (sd_schema db) (sd_now db) (wj_id job) (wq_node_name (ws_queue s)) timeout) db) s"
end
