(* ===== verification/Workshop_Partition.thy ===== *)
theory Workshop_Partition
  imports Workshop_Node
begin

text \<open>
  The partition around the queue: the workplace with its operators (\<open>src/workshop/Workplace.cxx\<close>,
  \<open>Operator.cxx\<close>), the handlers of \<open>src/workshop/Partition.cxx\<close> and the run of the queue
  (\<open>Queue.cxx\<close>), with the library shared by all partitions of an instance. A handler that
  the operator calls finds it by its key.
\<close>

section \<open>The workplace\<close>

definition Workplace_IsEmpty :: "ws_workplace \<Rightarrow> bool" where
  "Workplace_IsEmpty w \<longleftrightarrow> ww_operators w = []"

definition Workplace_IsFull :: "ws_workplace \<Rightarrow> bool" where
  "Workplace_IsFull w \<longleftrightarrow> length (ww_operators w) = ww_max_operators w"

definition GetPlanName :: "workshop_operator \<Rightarrow> string" where
  "GetPlanName op = wj_plan_name (op_job op)"

definition IsId :: "string \<Rightarrow> workshop_operator \<Rightarrow> bool" where
  "IsId jid op \<longleftrightarrow> wj_id (op_job op) = jid"

definition running_plans :: "workshop_operator list \<Rightarrow> string list" where
  "running_plans ops = fold (\<lambda>op l. snd (set_emplace (GetPlanName op) l)) ops []"

definition GetRunningPlanNames :: "pg_lib \<Rightarrow> ws_workplace \<Rightarrow> string" where
  "GetRunningPlanNames pg w = EncodeArray pg (running_plans (ww_operators w))"

text \<open>One step of the loop: the counters by plan name and the names that have reached their limit.\<close>

definition full_step :: "workshop_operator \<Rightarrow> (string \<rightharpoonup> nat) \<times> string list \<Rightarrow> (string \<rightharpoonup> nat) \<times> string list" where
  "full_step op = (\<lambda>(counters, l).
     if p_concurrency (op_plan op) = 0 then (counters, l)
     else (let name = GetPlanName op; n = (case counters name of None \<Rightarrow> 0 | Some n \<Rightarrow> n) + 1
           in (counters(name \<mapsto> n), if p_concurrency (op_plan op) \<le> n then snd (set_emplace name l) else l)))"

definition full_plans :: "workshop_operator list \<Rightarrow> string list" where
  "full_plans ops = snd (fold full_step ops (Map.empty, []))"

definition GetFullPlanNames :: "pg_lib \<Rightarrow> ws_workplace \<Rightarrow> string" where
  "GetFullPlanNames pg w = EncodeArray pg (full_plans (ww_operators w))"

definition on_ww :: "(ws_workplace \<Rightarrow> ws_workplace) \<Rightarrow> ws_node \<Rightarrow> ws_node" where
  "on_ww f s = s\<lparr>ws_workplace := f (ws_workplace s)\<rparr>"

definition upd_operator :: "nat \<Rightarrow> (workshop_operator \<Rightarrow> workshop_operator) \<Rightarrow> ws_node \<Rightarrow> ws_node" where
  "upd_operator k f = on_ww (\<lambda>w. w\<lparr>ww_operators := map (\<lambda>op. if op_key op = k then f op else op) (ww_operators w)\<rparr>)"

definition find_operator :: "nat \<Rightarrow> ws_node \<Rightarrow> workshop_operator option" where
  "find_operator k s = find (\<lambda>op. op_key op = k) (ww_operators (ws_workplace s))"

section \<open>The filter of the queue\<close>

definition ScheduleReapFinished :: "ws_node \<Rightarrow> ws_node" where
  "ScheduleReapFinished s = (if ws_reap_timer s \<noteq> None then s else s\<lparr>ws_reap_timer := Some 10000\<rparr>)"

definition available_plans :: "ws_ctx \<Rightarrow> ws_node \<Rightarrow> string list" where
  "available_plans cx s = fold (\<lambda>(n, p) l. snd (set_emplace n l)) (MultiLibrary_VisitAvailable (wx_steady cx) (ws_library s)) []"

definition UpdateFilter :: "ws_ctx \<Rightarrow> bool \<Rightarrow> ws_node \<Rightarrow> ws_node" where
  "UpdateFilter cx library_modified s =
     (let avail = available_plans cx s;
          limited = (if library_modified then [] else ws_rate_limited_plans s);
          (names, earliest, limited') = wx_expiry_visit cx (wx_steady cx) limited;
          avail' = filter (\<lambda>n. n \<notin> set names) avail;
          timer = (case earliest of None \<Rightarrow> None | Some e \<Rightarrow> if e \<le> wx_steady cx then None else Some ((e - wx_steady cx) * 1000));
          s1 = s\<lparr>ws_rate_limited_plans := limited', ws_rate_limit_timer := timer\<rparr>;
          s2 = on_wq (SetFilter (EncodeArray (wx_pg cx) avail') (GetFullPlanNames (wx_pg cx) (ws_workplace s1))
                 (GetRunningPlanNames (wx_pg cx) (ws_workplace s1))) s1
      in if library_modified then ScheduleReapFinished s2 else s2)"

text \<open>
  \<open>Instance::UpdateLibraryAndFilter()\<close> as this partition sees it; every other partition of the
  instance also gets \<open>UpdateFilter()\<close>.
\<close>

definition UpdateLibraryAndFilter :: "ws_ctx \<Rightarrow> bool \<Rightarrow> ws_node \<Rightarrow> ws_node" where
  "UpdateLibraryAndFilter cx force s =
     (let (modified, lib) = MultiLibrary_Update (wx_sys cx) (wx_fs cx) (wx_steady cx) force (ws_library s)
      in UpdateFilter cx modified (s\<lparr>ws_library := lib\<rparr>))"

definition OnRateLimitTimer :: "ws_ctx \<Rightarrow> ws_node \<Rightarrow> ws_node" where
  "OnRateLimitTimer cx s = UpdateFilter cx False (s\<lparr>ws_rate_limit_timer := None\<rparr>)"

definition Workshop_IsIdle :: "ws_node \<Rightarrow> bool" where
  "Workshop_IsIdle s \<longleftrightarrow> Workplace_IsEmpty (ws_workplace s)"

definition Workshop_OnChildProcessExit :: "ws_ctx \<Rightarrow> ws_node \<Rightarrow> ws_node" where
  "Workshop_OnChildProcessExit cx s =
     (let s1 = UpdateLibraryAndFilter cx False (ScheduleReapFinished s);
          s2 = (if \<not> Workplace_IsFull (ws_workplace s1) then on_wq Workshop_EnableFull s1 else s1)
      in if Workshop_IsIdle s2 then ws_act WsIdle s2 else s2)"

section \<open>Operators\<close>

text \<open>
  \<open>Workplace_OnExit\<close> removes the operator, which kills the process if it is still running, and
  tells the partition.
\<close>

definition Workplace_OnExit :: "ws_ctx \<Rightarrow> nat \<Rightarrow> ws_node \<Rightarrow> ws_node" where
  "Workplace_OnExit cx k s =
     Workshop_OnChildProcessExit cx (on_ww (\<lambda>w. w\<lparr>ww_operators := filter (\<lambda>op. op_key op \<noteq> k) (ww_operators w)\<rparr>) s)"

definition Workplace_OnTimeout :: "ws_ctx \<Rightarrow> nat \<Rightarrow> ws_node \<Rightarrow> ws_node" where
  "Workplace_OnTimeout cx k s = Workplace_OnExit cx k s"

definition Operator_ScheduleTimeout :: "workshop_operator \<Rightarrow> workshop_operator" where
  "Operator_ScheduleTimeout op = (if 0 < p_parsed_timeout (op_plan op) then op\<lparr>op_timeout := Some (p_parsed_timeout (op_plan op))\<rparr> else op)"

definition operator_init :: "nat \<Rightarrow> workshop_job \<Rightarrow> plan \<Rightarrow> workshop_operator" where
  "operator_init k job p = Operator_ScheduleTimeout
     \<lparr>op_key = k, op_job = job, op_plan = p, op_exited = False, op_again = -1, op_cpu_usage_start = None, op_child_tag = [],
      op_timeout = None, op_control_channel = False, op_log = log_bridge_init (wj_plan_name job) (wj_id job)\<rparr>"

definition InitLog :: "nat \<Rightarrow> bool \<Rightarrow> workshop_operator \<Rightarrow> workshop_operator" where
  "InitLog max_log_buffer enable_journal op =
     (let l = log_bridge_init (wj_plan_name (op_job op)) (wj_id (op_job op));
          l1 = (if 0 < max_log_buffer then Log_EnableBuffer max_log_buffer l else l)
      in op\<lparr>op_log := (if enable_journal then Log_EnableJournal l1 else l1)\<rparr>)"

definition InitControl :: "workshop_operator \<Rightarrow> workshop_operator" where
  "InitControl op = (if p_control_channel (op_plan op) then op\<lparr>op_control_channel := True\<rparr> else op)"

definition IsChildTag :: "ws_ctx \<Rightarrow> string \<Rightarrow> workshop_operator \<Rightarrow> bool" where
  "IsChildTag cx value op = wx_tag_contains cx (op_child_tag op) value"

definition Operator_Cancel :: "ws_ctx \<Rightarrow> workshop_operator \<Rightarrow> ws_node \<Rightarrow> ws_node" where
  "Operator_Cancel cx op s = SetJobDone cx (op_job op) (-125) (Some ''Canceled'') s"

text \<open>
  The end of the coroutine that starts the process: with an error the job fails; without one the
  operator waits for its process.
\<close>

definition OnTaskCompletion :: "ws_ctx \<Rightarrow> nat \<Rightarrow> string option \<Rightarrow> ws_node \<Rightarrow> ws_node" where
  "OnTaskCompletion cx k error s =
     (case (error, find_operator k s) of
        (Some msg, Some op) \<Rightarrow> Workplace_OnExit cx k (SetJobDone cx (op_job op) (-5) (Some msg) s)
      | _ \<Rightarrow> s)"

definition Operator_OnTimeout :: "ws_ctx \<Rightarrow> nat \<Rightarrow> ws_node \<Rightarrow> ws_node" where
  "Operator_OnTimeout cx k s =
     (case find_operator k s of
        None \<Rightarrow> s
      | Some op \<Rightarrow> Workplace_OnTimeout cx k (ws_act (WsKill (wj_id (op_job op))) (SetJobDone cx (op_job op) (-110) (Some ''Timeout'') s)))"

definition Operator_OnProgress :: "ws_ctx \<Rightarrow> nat \<Rightarrow> nat \<Rightarrow> ws_node \<Rightarrow> ws_node" where
  "Operator_OnProgress cx k n s =
     (case find_operator k s of
        None \<Rightarrow> s
      | Some op \<Rightarrow>
          if op_exited op then s
          else upd_operator k Operator_ScheduleTimeout
                 (snd (SetJobProgress cx (op_job op) n (p_timeout (op_plan op)) (p_notify_progress (op_plan op)) s)))"

definition OnControlSetEnv :: "nat \<Rightarrow> string \<Rightarrow> ws_node \<Rightarrow> ws_node" where
  "OnControlSetEnv k v s = (case find_operator k s of None \<Rightarrow> s | Some op \<Rightarrow> snd (SetJobEnv (op_job op) v s))"

definition OnControlAgain :: "nat \<Rightarrow> nat \<Rightarrow> ws_node \<Rightarrow> ws_node" where
  "OnControlAgain k d = upd_operator k (\<lambda>op. op\<lparr>op_again := int d\<rparr>)"

definition OnControlClosed :: "nat \<Rightarrow> ws_node \<Rightarrow> ws_node" where
  "OnControlClosed k = upd_operator k (\<lambda>op. op\<lparr>op_control_channel := False\<rparr>)"

text \<open>
  A datagram of the control channel. \<open>version\<close> and errors only send a reply or write a log
  message; what \<open>spawn\<close> starts is modelled separately.
\<close>

definition Operator_OnControl :: "ws_ctx \<Rightarrow> nat \<Rightarrow> control_outcome option \<Rightarrow> ws_node \<Rightarrow> ws_node" where
  "Operator_OnControl cx k c s =
     (case c of
        None \<Rightarrow> OnControlClosed k s
      | Some (CtlProgress p) \<Rightarrow> Operator_OnProgress cx k p s
      | Some (CtlSetEnv v) \<Rightarrow> OnControlSetEnv k v s
      | Some (CtlAgain d) \<Rightarrow> OnControlAgain k d s
      | Some _ \<Rightarrow> s)"

text \<open>\<open>ReceiveAll()\<close>: the pending datagrams, until the channel is closed.\<close>

fun ReceiveAll :: "ws_ctx \<Rightarrow> nat \<Rightarrow> control_outcome option list \<Rightarrow> ws_node \<Rightarrow> ws_node" where
  "ReceiveAll cx k [] s = s"
| "ReceiveAll cx k (None # cs) s = OnControlClosed k s"
| "ReceiveAll cx k (Some c # cs) s = ReceiveAll cx k cs (Operator_OnControl cx k (Some c) s)"

text \<open>The status of \<open>waitpid()\<close>, or a negative error code.\<close>

definition exit_status_of :: "int \<Rightarrow> int" where
  "exit_status_of status =
     (let termsig = status mod 128
      in if status < 0 then status
         else if termsig \<noteq> 0 \<and> termsig \<noteq> 127 then -4
         else if termsig = 0 then status div 256 mod 256
         else -10)"

definition log_text_of :: "ws_ctx \<Rightarrow> log_bridge \<Rightarrow> string option" where
  "log_text_of cx l =
     (case Log_GetBuffer l of
        None \<Rightarrow> None
      | Some t \<Rightarrow> if wx_valid_utf8 cx (c_str t) then Some (c_str t) else Some ''Invalid UTF-8 output'')"

text \<open>
  The end of a process. First what it left is read: \<open>pending\<close> is what the control channel still
  holds, \<open>rest\<close> the lines that the log still holds.
\<close>

definition Operator_drain :: "ws_ctx \<Rightarrow> nat \<Rightarrow> control_outcome option list \<Rightarrow> string list \<Rightarrow> ws_node \<Rightarrow> ws_node" where
  "Operator_drain cx k pending rest s =
     (let s1 = upd_operator k (\<lambda>op. op\<lparr>op_exited := True\<rparr>) s;
          s2 = (case find_operator k s1 of Some op \<Rightarrow> if op_control_channel op then ReceiveAll cx k pending s1 else s1 | None \<Rightarrow> s1)
      in upd_operator k (\<lambda>op. op\<lparr>op_log := fold Log_OnPipeLine rest (op_log op)\<rparr>) s2)"

text \<open>Then the result is reported; \<open>usage_end\<close> is what \<open>ReadCgroupCpuUsage()\<close> returns.\<close>

definition Operator_report :: "ws_ctx \<Rightarrow> int \<Rightarrow> nat option \<Rightarrow> workshop_operator \<Rightarrow> ws_node \<Rightarrow> ws_node" where
  "Operator_report cx status usage_end op s =
     (let log_text = log_text_of cx (op_log op);
          s1 = (case (op_cpu_usage_start op, usage_end) of
                  (Some a, Some b) \<Rightarrow> if 0 \<le> a then AddJobCpuUsage cx (op_job op) (int b - a) s else s
                | _ \<Rightarrow> s)
      in if 0 \<le> op_again op then AgainJob cx (op_job op) log_text (op_again op) s1
         else SetJobDone cx (op_job op) (exit_status_of status) log_text s1)"

definition Operator_OnChildProcessExit ::
  "ws_ctx \<Rightarrow> nat \<Rightarrow> int \<Rightarrow> control_outcome option list \<Rightarrow> string list \<Rightarrow> nat option \<Rightarrow> ws_node \<Rightarrow> ws_node" where
  "Operator_OnChildProcessExit cx k status pending rest usage_end s =
     (let s1 = Operator_drain cx k pending rest s
      in case find_operator k s1 of
           None \<Rightarrow> s
         | Some op \<Rightarrow> Workplace_OnExit cx k (Operator_report cx status usage_end op s1))"

text \<open>The operators that are removed are cancelled one after the other.\<close>

definition cancel_operators :: "ws_ctx \<Rightarrow> (workshop_operator \<Rightarrow> bool) \<Rightarrow> ws_node \<Rightarrow> ws_node" where
  "cancel_operators cx P s =
     (let gone = filter P (ww_operators (ws_workplace s));
          s1 = on_ww (\<lambda>w. w\<lparr>ww_operators := filter (\<lambda>op. \<not> P op) (ww_operators w)\<rparr>) s;
          s2 = fold (\<lambda>op s. ws_act (WsKill (wj_id (op_job op))) (Operator_Cancel cx op s)) gone s1
      in if 0 < length gone then Workshop_OnChildProcessExit cx s2 else s2)"

definition Workplace_CancelJob :: "ws_ctx \<Rightarrow> string \<Rightarrow> ws_node \<Rightarrow> ws_node" where
  "Workplace_CancelJob cx jid = cancel_operators cx (IsId jid)"

definition Workplace_CancelTag :: "ws_ctx \<Rightarrow> string \<Rightarrow> ws_node \<Rightarrow> ws_node" where
  "Workplace_CancelTag cx tag = cancel_operators cx (IsChildTag cx tag)"

text \<open>A new operator; the coroutine may already end with an error before it first waits.\<close>

definition Workplace_Start :: "ws_ctx \<Rightarrow> workshop_job \<Rightarrow> plan \<Rightarrow> ws_node \<Rightarrow> ws_node" where
  "Workplace_Start cx job p s =
     (let k = ww_next_key (ws_workplace s);
          s1 = on_ww (\<lambda>w. w\<lparr>ww_operators := ww_operators w @ [operator_init k job p], ww_next_key := k + 1\<rparr>) s
      in OnTaskCompletion cx k (wx_start_error cx job) s1)"

section \<open>The partition\<close>

definition EnableDisableSticky :: "ws_node \<Rightarrow> ws_node" where
  "EnableDisableSticky s =
     (case ws_sticky s of
        None \<Rightarrow> s
      | Some m \<Rightarrow> s\<lparr>ws_sticky := Some (if Workshop_IsEnabledOrFull (ws_queue s) then Sticky_Enable m else Sticky_Disable m)\<rparr>)"

definition Workshop_OnStickyChanged :: "ws_ctx \<Rightarrow> ws_node \<Rightarrow> ws_node" where
  "Workshop_OnStickyChanged cx s = Workshop_FlushSticky cx s"

definition Workshop_BeginShutdown :: "ws_node \<Rightarrow> ws_node" where
  "Workshop_BeginShutdown s = on_wq Workshop_DisableAdmin (s\<lparr>ws_sticky := map_option Sticky_BeginShutdown (ws_sticky s)\<rparr>)"

definition Partition_SetStateEnabled :: "bool \<Rightarrow> ws_node \<Rightarrow> ws_node" where
  "Partition_SetStateEnabled b s = EnableDisableSticky (on_wq (Workshop_SetStateEnabled b) s)"

definition Partition_DisableQueue :: "ws_node \<Rightarrow> ws_node" where
  "Partition_DisableQueue s = EnableDisableSticky (on_wq Workshop_DisableAdmin s)"

definition Partition_EnableQueue :: "ws_node \<Rightarrow> ws_node" where
  "Partition_EnableQueue s = EnableDisableSticky (on_wq Workshop_EnableAdmin s)"

text \<open>The loop over the visited plans; \<open>None\<close> is the dereferenced null pointer.\<close>

fun reap_plans :: "ws_ctx \<Rightarrow> (string \<times> plan option) list \<Rightarrow> bool \<times> ws_node \<Rightarrow> (bool \<times> ws_node) option" where
  "reap_plans cx [] x = Some x"
| "reap_plans cx ((n, None) # ps) x = None"
| "reap_plans cx ((n, Some p) # ps) (found, s) =
     (if p_reap_finished p = [] then reap_plans cx ps (found, s)
      else (let (k, s') = ReapFinishedJobs cx n (p_reap_finished p) s in reap_plans cx ps (found \<or> 0 < k, s')))"

definition OnReapTimer :: "ws_ctx \<Rightarrow> ws_node \<Rightarrow> ws_node option" where
  "OnReapTimer cx s0 =
     (let s = s0\<lparr>ws_reap_timer := None\<rparr>
      in case reap_plans cx (MultiLibrary_VisitAvailable (wx_steady cx) (ws_library s)) (False, s) of
           None \<Rightarrow> None
         | Some (found, s') \<Rightarrow> Some (if found then ScheduleReapFinished s' else s'))"

definition GetWorkshopPlan :: "ws_ctx \<Rightarrow> string \<Rightarrow> ws_node \<Rightarrow> plan option \<times> ws_node" where
  "GetWorkshopPlan cx name s =
     (let (p, lib) = MultiLibrary_Get (wx_sys cx) (wx_fs cx) (wx_steady cx) name (ws_library s) in (p, s\<lparr>ws_library := lib\<rparr>))"

fun CheckRateLimits :: "ws_ctx \<Rightarrow> string \<Rightarrow> rate_limit list \<Rightarrow> ws_node \<Rightarrow> int \<times> ws_node" where
  "CheckRateLimits cx name [] s = (0, s)"
| "CheckRateLimits cx name (r # rs) s =
     (let (delta, s') = Workshop_CheckRateLimit cx name r s in if 0 < delta then (delta, s') else CheckRateLimits cx name rs s')"

text \<open>What \<open>CheckWorkshopJob()\<close> does after the check of the sticky id.\<close>

definition check_local :: "ws_ctx \<Rightarrow> workshop_job \<Rightarrow> plan \<Rightarrow> ws_node \<Rightarrow> bool \<times> ws_node" where
  "check_local cx job p s =
     (if Workplace_IsFull (ws_workplace s) then (False, on_wq Workshop_DisableFull s)
      else (let (delta, s1) = CheckRateLimits cx (wj_plan_name job) (p_rate_limits p) s
            in if 0 < delta
               then (False, UpdateFilter cx False
                       (s1\<lparr>ws_rate_limited_plans := wx_expiry_set cx (wj_plan_name job) (wx_steady cx + delta) (ws_rate_limited_plans s1)\<rparr>))
               else (True, s1)))"

definition CheckWorkshopJob :: "ws_ctx \<Rightarrow> workshop_job \<Rightarrow> plan \<Rightarrow> ws_node \<Rightarrow> bool \<times> ws_node" where
  "CheckWorkshopJob cx job p s =
     (case ws_sticky s of
        Some m \<Rightarrow> if wj_sticky_id job \<noteq> [] \<and> \<not> snd (IsLocal (wx_score cx) m (wj_sticky_id job))
                  then (False, Workshop_InsertStickyNonLocal cx (wj_sticky_id job) s)
                  else check_local cx job p s
      | None \<Rightarrow> check_local cx job p s)"


definition StartWorkshopJob :: "ws_ctx \<Rightarrow> workshop_job \<Rightarrow> plan \<Rightarrow> ws_node \<Rightarrow> ws_node" where
  "StartWorkshopJob cx job p s =
     (let s1 = Workplace_Start cx job p s;
          s2 = (if Workplace_IsFull (ws_workplace s1) then on_wq Workshop_DisableFull s1 else s1)
      in UpdateFilter cx False s2)"

section \<open>Running the queue\<close>

fun RunResult :: "ws_ctx \<Rightarrow> job_row list \<Rightarrow> ws_node \<Rightarrow> (db_error + unit) \<times> ws_node" where
  "RunResult cx [] s = (Inr (), s)"
| "RunResult cx (row # rows) s =
     (if \<not> Workshop_IsEnabled (ws_queue s) \<or> wq_interrupt (ws_queue s) then (Inr (), s)
      else (case MakeJob row of
              Inl e \<Rightarrow> (Inl e, s)
            | Inr job \<Rightarrow>
                (case GetWorkshopPlan cx (wj_plan_name job) s of
                   (None, s1) \<Rightarrow> RunResult cx rows s1
                 | (Some p, s1) \<Rightarrow>
                     (case CheckWorkshopJob cx job p s1 of
                        (False, s2) \<Rightarrow> RunResult cx rows s2
                      | (True, s2) \<Rightarrow>
                          (case get_and_claim_job cx job (p_timeout p) s2 of
                             (Inl e, s3) \<Rightarrow> (Inl e, s3)
                           | (Inr False, s3) \<Rightarrow> RunResult cx rows s3
                           | (Inr True, s3) \<Rightarrow> RunResult cx rows (StartWorkshopJob cx job p s3))))))"

text \<open>The check for jobs that other nodes have lost, once a minute.\<close>

definition ExpireJobs :: "ws_ctx \<Rightarrow> ws_node \<Rightarrow> (db_error + unit) \<times> ws_node" where
  "ExpireJobs cx s =
     (if (case wq_next_expire_check (ws_queue s) of None \<Rightarrow> True | Some t \<Rightarrow> t \<le> wx_steady cx)
      then (let s1 = on_wq (\<lambda>q. q\<lparr>wq_next_expire_check := Some (wx_steady cx + 60)\<rparr>) s
            in case ws_try (\<lambda>db. on_table (pg_expire_jobs (sd_schema db) (sd_now db) (wq_node_name (ws_queue s))) db) s1 of
                 (Inl e, s2) \<Rightarrow> (Inl e, s2)
               | (Inr n, s2) \<Rightarrow> if 0 < n then pg_notify s2 else (Inr (), s2))
      else (Inr (), s))"

text \<open>The columns that the statement selects: a column that does not exist is replaced by \<open>NULL\<close>.\<close>

definition selected_columns :: "pg_schema \<Rightarrow> job_row \<Rightarrow> job_row" where
  "selected_columns sch r = r\<lparr>sticky_id := (if has_sticky_id sch then sticky_id r else None), stdin := (if has_stdin sch then stdin r else None)\<rparr>"

text \<open>One query with its run; the result tells whether the limit of 16 rows was reached.\<close>

definition SelectAndRun :: "ws_ctx \<Rightarrow> string \<Rightarrow> string \<Rightarrow> string \<Rightarrow> ws_node \<Rightarrow> (db_error + bool) \<times> ws_node" where
  "SelectAndRun cx inc exc low s =
     (case ws_try (\<lambda>db. (map_sum (\<lambda>e. e) (map (selected_columns (sd_schema db)))
              (pg_select_new_jobs (wx_pg cx) (sd_schema db) (sd_sticky db) (sd_now db) inc exc low 16 (sd_jobs db)), db)) s of
        (Inl e, s1) \<Rightarrow> (Inl e, s1)
      | (Inr rows, s1) \<Rightarrow>
          (case RunResult cx rows s1 of
             (Inl e, s2) \<Rightarrow> (Inl e, s2)
           | (Inr _, s2) \<Rightarrow> (Inr (length rows = 16), s2)))"

definition update_timeout :: "ws_ctx \<Rightarrow> bool \<Rightarrow> ws_node \<Rightarrow> (db_error + unit) \<times> ws_node" where
  "update_timeout cx full s =
     (if \<not> Workshop_IsEnabled (ws_queue s) then (Inr (), s)
      else if wq_interrupt (ws_queue s) \<or> full then (Inr (), on_wq Workshop_Reschedule s)
      else (case GetNextScheduled cx s of
              (Inl e, s') \<Rightarrow> (Inl e, s')
            | (Inr ret, s') \<Rightarrow> (Inr (), on_wq (Workshop_ScheduleTimer ((if 0 \<le> ret then ret else 600) * 1000)) s')))"

definition Run2 :: "ws_ctx \<Rightarrow> ws_node \<Rightarrow> (db_error + unit) \<times> ws_node" where
  "Run2 cx s =
     (let q = ws_queue s
      in if wq_plans_include q = [] \<or> wq_plans_include q = ''{}'' \<or> wq_plans_exclude q = [] then (Inr (), s)
         else (case ExpireJobs cx s of
                 (Inl e, s1) \<Rightarrow> (Inl e, s1)
               | (Inr _, s1) \<Rightarrow>
                   (let s2 = on_wq (\<lambda>q. q\<lparr>wq_interrupt := False\<rparr>) s1; q2 = ws_queue s2
                    in case SelectAndRun cx (wq_plans_include q2) (wq_plans_exclude q2) (wq_plans_lowprio q2) s2 of
                         (Inl e, s3) \<Rightarrow> (Inl e, s3)
                       | (Inr full, s3) \<Rightarrow>
                           (let q3 = ws_queue s3
                            in if Workshop_IsEnabled q3 \<and> \<not> wq_interrupt q3 \<and> wq_plans_lowprio q3 \<noteq> ''{}''
                               then (case SelectAndRun cx (wq_plans_lowprio q3) (wq_plans_exclude q3) ''{}'' s3 of
                                       (Inl e, s4) \<Rightarrow> (Inl e, s4)
                                     | (Inr full', s4) \<Rightarrow> update_timeout cx (full \<or> full') s4)
                               else update_timeout cx full s3))))"

definition Workshop_Run :: "ws_ctx \<Rightarrow> ws_node \<Rightarrow> ws_node" where
  "Workshop_Run cx s =
     (if \<not> Workshop_IsEnabled (ws_queue s) then s
      else (let s1 = on_wq (\<lambda>q. (Workshop_ScheduleCheckNotify q)\<lparr>wq_running := True\<rparr>) s;
                s2 = (case Run2 cx s1 of (Inl e, s') \<Rightarrow> ws_CheckError cx e s' | (Inr _, s') \<Rightarrow> s')
            in on_wq (\<lambda>q. q\<lparr>wq_running := False\<rparr>) s2))"

definition Workshop_OnTimer :: "ws_ctx \<Rightarrow> ws_node \<Rightarrow> ws_node" where
  "Workshop_OnTimer cx s = Workshop_Run cx (on_wq (\<lambda>q. q\<lparr>wq_timer := None\<rparr>) s)"

definition db_execute :: "ws_action \<Rightarrow> ws_node \<Rightarrow> (db_error + unit) \<times> ws_node" where
  "db_execute a s = (case ws_try (\<lambda>db. (Inr (), db)) s of (Inl e, s') \<Rightarrow> (Inl e, s') | (Inr _, s') \<Rightarrow> (Inr (), ws_act a s'))"

section \<open>The connection\<close>

text \<open>
  What \<open>OnConnect()\<close> prepares: the table of sticky ids when sticky jobs are configured and the
  table of jobs has the column, and the statements for the columns that were found.
\<close>

definition Workshop_Prepare :: "ws_ctx \<Rightarrow> ws_node \<Rightarrow> (db_error + unit) \<times> ws_node" where
  "Workshop_Prepare cx s =
     (let have_sticky_id = wq_sticky (ws_queue s) \<and> has_sticky_id (wx_schema cx)
      in ws_try (\<lambda>db. (Inr (), db\<lparr>sd_sticky := (if have_sticky_id then StickyTable_Init else sd_sticky db),
           sd_schema := (wx_schema cx)\<lparr>has_sticky_id := have_sticky_id\<rparr>\<rparr>)) s)"

definition ReleaseJobs :: "ws_node \<Rightarrow> (db_error + unit) \<times> ws_node" where
  "ReleaseJobs s =
     (case ws_try (\<lambda>db. on_table (pg_release_jobs (sd_schema db) (sd_now db) (wq_node_name (ws_queue s))) db) s of
        (Inl e, s1) \<Rightarrow> (Inl e, s1)
      | (Inr n, s1) \<Rightarrow> if 0 < n then pg_notify s1 else (Inr (), s1))"

definition Workshop_OnConnect :: "ws_ctx \<Rightarrow> ws_node \<Rightarrow> (db_error + unit) \<times> ws_node" where
  "Workshop_OnConnect cx s =
     (if wx_server_version cx < 90600 \<or> \<not> wx_has_columns cx then (Inl SqlError, s)
      else (case Workshop_Prepare cx s of
        (Inl e, s1) \<Rightarrow> (Inl e, s1)
      | (Inr _, s1) \<Rightarrow> (case db_execute (WsListen ''new_job'') s1 of
          (Inl e, s2) \<Rightarrow> (Inl e, s2)
        | (Inr _, s2) \<Rightarrow>
            (case (if wx_schema_name cx \<noteq> ''public'' then db_execute (WsListen (wx_schema_name cx @ '':new_job'')) s2 else (Inr (), s2)) of
               (Inl e, s3) \<Rightarrow> (Inl e, s3)
             | (Inr _, s3) \<Rightarrow> (case ReleaseJobs s3 of
                 (Inl e, s4) \<Rightarrow> (Inl e, s4)
               | (Inr _, s4) \<Rightarrow> (Inr (), on_wq Workshop_Reschedule s4))))))"

definition Workshop_OnNotify :: "string \<Rightarrow> ws_queue \<Rightarrow> ws_queue" where
  "Workshop_OnNotify name q = (if drop (length name - length ''new_job'') name = ''new_job'' then Workshop_Reschedule q else q)"

section \<open>Construction\<close>

record ws_setup =
  wu_name :: string
  wu_node_name :: string
  wu_sticky :: bool
  wu_concurrency :: nat
  wu_enable_journal :: bool
  wu_max_log :: nat

definition ws_queue_init :: "string \<Rightarrow> bool \<Rightarrow> ws_queue" where
  "ws_queue_init node sticky = \<lparr>wq_node_name = node, wq_sticky = sticky, wq_enabled_state = False, wq_enabled_admin = True,
     wq_disabled_full = False, wq_running = False, wq_interrupt = False, wq_db_ready = False, wq_check_notify = False, wq_timer = None,
     wq_progress_notify_timer = None, wq_progress_notify_plans = [], wq_plans_include = [], wq_plans_exclude = [], wq_plans_lowprio = [],
     wq_next_expire_check = None\<rparr>"

definition Partition_init :: "ws_setup \<Rightarrow> multi_library \<Rightarrow> ws_db \<Rightarrow> ws_node" where
  "Partition_init c lib db = ScheduleReapFinished
     \<lparr>ws_name = wu_name c, ws_sticky = (if wu_sticky c then Some sticky_init else None), ws_library = lib, ws_rate_limited_plans = [],
      ws_rate_limit_timer = None, ws_reap_timer = None, ws_queue = ws_queue_init (wu_node_name c) (wu_sticky c),
      ws_workplace = \<lparr>ww_operators = [], ww_next_key = 0, ww_max_operators = wu_concurrency c, ww_enable_journal = wu_enable_journal c\<rparr>,
      ws_max_log = wu_max_log c, ws_db = db, ws_actions = []\<rparr>"

definition Partition_Start :: "ws_node \<Rightarrow> ws_node" where
  "Partition_Start s = ws_act WsConnect s"

end
