(* ===== verification/Process_Spawn.thy ===== *)
theory Process_Spawn
  imports Workshop_Partition Output_Capture
begin

text \<open>
  What a job executes: the command line, the environment and the credentials that
  \<open>WorkshopOperator::Start2()\<close> and \<open>DoSpawn()\<close> (\<open>src/workshop/Operator.cxx\<close>) put into a
  \<open>PreparedChildProcess\<close>, and what the spawner's hook (\<open>src/Hook.cxx\<close>) accepts. The
  translation response is an argument, as are \<open>ChildOptions::CopyTo()\<close> and the initial values of
  \<open>PreparedChildProcess\<close> of \<open>libcommon\<close>. File descriptors are represented by what they are connected to.
\<close>

section \<open>Prepared processes\<close>

datatype spawn_error = StatusFromTranslation nat "string option" | NoExecute | NoUidGid | TooManyAppend | NoTranslationServer
  | TooManyArguments | TooManyVariables | NoAllowSpawn string | MainProcessExited | GroupsOverflow | NoSuchPlan string
  | RealUidNotSupported | WrongUid | WrongGid | GroupMismatch | ExecutableMismatch

datatype stdio = NoFd | StderrPipe | StdoutPipe | MemFd string | ControlSocket

text \<open>
  \<open>None\<close> is \<open>UNSET_UID\<close> or \<open>UNSET_GID\<close>; a cgroup without a name is not defined; the array of 32 supplementary groups ends with
  zeroes.
\<close>

record uid_gid =
  ug_real_uid :: "nat option"
  ug_real_gid :: "nat option"
  ug_effective_uid :: "nat option"
  ug_effective_gid :: "nat option"
  ug_supplementary_groups :: "nat list"

record prepared =
  pc_args :: "string list"
  pc_env :: "string list"
  pc_hook_info :: "string option"
  pc_uid_gid :: uid_gid
  pc_chroot :: "string option"
  pc_umask :: int
  pc_rlimits :: "string list"
  pc_priority :: int
  pc_sched_idle :: bool
  pc_ioprio_idle :: bool
  pc_enable_network :: bool
  pc_mount_tmp_tmpfs :: "string option"
  pc_no_new_privs :: bool
  pc_process_name :: "string option"
  pc_stdin :: stdio
  pc_stdout :: stdio
  pc_stderr :: stdio
  pc_control :: stdio
  pc_cgroup :: "string option"
  pc_cgroup_session :: "string option"

text \<open>The part of a translation response that is used.\<close>

record execute_options =
  eo_execute :: "string option"
  eo_args :: "string list"
  eo_process_name :: "string option"
  eo_tag :: string
  eo_uid_gid_empty :: bool
  eo_copy_to :: "prepared \<Rightarrow> prepared"

record translate_response =
  tr_status :: nat
  tr_message :: "string option"
  tr_execute_options :: "execute_options option"

text \<open>Pushing strings to a vector until it has \<open>n\<close> elements.\<close>

fun push_limited :: "spawn_error \<Rightarrow> nat \<Rightarrow> string list \<Rightarrow> string list \<Rightarrow> spawn_error + string list" where
  "push_limited e n acc [] = Inr acc"
| "push_limited e n acc (x # xs) = (if n \<le> length acc then Inl e else push_limited e n (acc @ [x]) xs)"

definition PrepareTranslated :: "bool \<Rightarrow> translate_response \<Rightarrow> prepared \<Rightarrow> spawn_error + prepared" where
  "PrepareTranslated debug_mode response p =
     (if tr_status response \<noteq> 0 then Inl (StatusFromTranslation (tr_status response) (tr_message response))
      else (case tr_execute_options response of
              None \<Rightarrow> Inl NoExecute
            | Some options \<Rightarrow>
                (case eo_execute options of
                   None \<Rightarrow> Inl NoExecute
                 | Some ex \<Rightarrow>
                     if eo_uid_gid_empty options \<and> \<not> debug_mode then Inl NoUidGid
                     else then_do (push_limited TooManyAppend 4096 (pc_args p @ [ex]) (eo_args options))
                       (\<lambda>as. let p1 = p\<lparr>pc_args := as\<rparr>;
                                 p2 = (case eo_process_name options of None \<Rightarrow> p1 | Some n \<Rightarrow> p1\<lparr>pc_process_name := Some n\<rparr>)
                              in Inr ((eo_copy_to options p2)\<lparr>pc_no_new_privs := True\<rparr>)))))"

text \<open>\<open>std::copy()\<close> into the array: more than 32 groups overflow it.\<close>

definition copy_groups :: "nat list \<Rightarrow> nat list \<Rightarrow> spawn_error + nat list" where
  "copy_groups src dest = (if length dest < length src then Inl GroupsOverflow else Inr (src @ drop (length src) dest))"

definition PreparePlan :: "bool \<Rightarrow> string \<Rightarrow> plan \<Rightarrow> prepared \<Rightarrow> spawn_error + prepared" where
  "PreparePlan debug_mode name plan p =
     then_do (if debug_mode then Inr (pc_uid_gid p)
              else then_do (copy_groups (p_groups plan) (ug_supplementary_groups (pc_uid_gid p)))
                     (\<lambda>gs. Inr ((pc_uid_gid p)\<lparr>ug_effective_uid := Some (p_uid plan), ug_effective_gid := Some (p_gid plan), ug_supplementary_groups := gs\<rparr>)))
       (\<lambda>ug. Inr (p\<lparr>pc_hook_info := Some name, pc_uid_gid := ug,
                  pc_chroot := (if p_chroot plan \<noteq> [] then Some (p_chroot plan) else pc_chroot p), pc_umask := p_umask plan,
                  pc_rlimits := p_rlimits plan, pc_priority := p_priority plan, pc_sched_idle := p_sched_idle plan,
                  pc_ioprio_idle := p_ioprio_idle plan, pc_enable_network := p_private_network plan,
                  pc_mount_tmp_tmpfs := (if p_private_tmp plan then Some [] else pc_mount_tmp_tmpfs p), pc_no_new_privs := True\<rparr>))"

definition PrepareChildProcess :: "bool \<Rightarrow> string \<Rightarrow> plan \<Rightarrow> translate_response \<Rightarrow> prepared \<Rightarrow> spawn_error + prepared" where
  "PrepareChildProcess debug_mode name plan translation p =
     (let p1 = p\<lparr>pc_stderr := StderrPipe, pc_stdout := StderrPipe, pc_control := (if p_control_channel plan then ControlSocket else NoFd)\<rparr>
      in if p_translate plan then PrepareTranslated debug_mode translation p1 else PreparePlan debug_mode name plan p1)"

section \<open>Starting a job\<close>

text \<open>\<open>se_prepared\<close> is a \<open>PreparedChildProcess\<close> of \<open>libcommon\<close> as it is constructed.\<close>

record spawn_env =
  se_prepared :: prepared
  se_debug_mode :: bool
  se_node_name :: string
  se_translation_socket :: bool
  se_supports_cgroups :: bool

text \<open>\<open>WorkshopOperator::Expand()\<close>: all arguments but the program name.\<close>

definition operator_vars :: "string \<Rightarrow> workshop_job \<Rightarrow> string \<Rightarrow> string \<rightharpoonup> string" where
  "operator_vars node job program = [''0'' \<mapsto> program, ''NODE'' \<mapsto> node, ''JOB'' \<mapsto> wj_id job, ''PLAN'' \<mapsto> wj_plan_name job]"

fun Operator_Expand :: "string \<Rightarrow> workshop_job \<Rightarrow> string list \<Rightarrow> string list" where
  "Operator_Expand node job [] = []"
| "Operator_Expand node job (program # params) = program # map (Expand (operator_vars node job program)) params"

fun push_env :: "string list \<Rightarrow> string list \<Rightarrow> spawn_error + string list" where
  "push_env acc [] = Inr acc"
| "push_env acc (x # xs) =
     (if 64 \<le> length acc then Inl TooManyVariables
      else if take 3 (c_str x) = ''LD_'' then push_env acc xs
      else push_env (acc @ [c_str x]) xs)"

text \<open>The standard input, the cgroup and the pipe for the progress.\<close>

definition AttachJob :: "spawn_env \<Rightarrow> workshop_job \<Rightarrow> plan \<Rightarrow> prepared \<Rightarrow> prepared" where
  "AttachJob en job plan p0 =
     (let p1 = (case wj_stdin job of None \<Rightarrow> p0 | Some d \<Rightarrow> p0\<lparr>pc_stdin := MemFd d\<rparr>);
          p2 = (if se_supports_cgroups en
                then p1\<lparr>pc_cgroup := (case pc_cgroup p1 of None \<Rightarrow> Some (wj_plan_name job) | Some c \<Rightarrow> Some c), pc_cgroup_session := Some (wj_id job)\<rparr>
                else p1)
      in if \<not> p_translate plan \<and> \<not> p_control_channel plan then p2\<lparr>pc_stdout := StdoutPipe\<rparr> else p2)"

text \<open>
  \<open>Start2()\<close> with the translation response it gets when the plan asks for one: the process it
  spawns and the child tag.
\<close>

definition Start2 :: "spawn_env \<Rightarrow> translate_response \<Rightarrow> workshop_job \<Rightarrow> plan \<Rightarrow> spawn_error + (prepared \<times> string)" where
  "Start2 en translation job plan =
     (if p_translate plan \<and> \<not> se_translation_socket en then Inl NoTranslationServer
      else (let tag = (if p_translate plan then (case tr_execute_options translation of None \<Rightarrow> [] | Some opts \<Rightarrow> eo_tag opts) else [])
            in then_do (PrepareChildProcess (se_debug_mode en) (wj_plan_name job) plan translation (se_prepared en))
              (\<lambda>p0. let p1 = AttachJob en job plan p0;
                        params = (if p_translate plan then [] else map c_str (Operator_Expand (se_node_name en) job (p_args plan @ wj_args job)))
                    in then_do (push_limited TooManyArguments 4096 (pc_args p1) params)
                         (\<lambda>as. then_do (push_env (pc_env p1) (wj_env job)) (\<lambda>ev. Inr (p1\<lparr>pc_args := as, pc_env := ev\<rparr>, tag))))))"

section \<open>Processes that a job spawns\<close>

definition DoSpawn :: "spawn_env \<Rightarrow> workshop_job \<Rightarrow> plan \<Rightarrow> bool \<Rightarrow> translate_response \<Rightarrow> spawn_error + prepared" where
  "DoSpawn en job plan have_stderr response =
     then_do (PrepareTranslated (se_debug_mode en) response (se_prepared en))
       (\<lambda>p0. let p1 = (if have_stderr then p0\<lparr>pc_stderr := StderrPipe, pc_stdout := StderrPipe\<rparr> else p0);
                 p2 = (if pc_umask p1 = -1 then p1\<lparr>pc_umask := p_umask plan\<rparr> else p1);
                 p3 = p2\<lparr>pc_priority := p_priority plan, pc_sched_idle := p_sched_idle plan\<rparr>
             in Inr (if se_supports_cgroups en
                     then p3\<lparr>pc_cgroup := (case pc_cgroup p3 of None \<Rightarrow> Some (wj_plan_name job) | Some c \<Rightarrow> if c = [] then Some (wj_plan_name job) else Some c), pc_cgroup_session := Some (wj_id job)\<rparr>
                     else p3))"

text \<open>The write end of the pipe exists when the plan has a control channel and may spawn; the child tag is set once.\<close>

definition OnControlSpawn :: "spawn_env \<Rightarrow> translate_response \<Rightarrow> workshop_operator \<Rightarrow> spawn_error + (prepared \<times> workshop_operator)" where
  "OnControlSpawn en response op =
     (let plan = op_plan op
      in if \<not> p_allow_spawn plan then Inl (NoAllowSpawn (wj_plan_name (op_job op)))
         else if \<not> se_translation_socket en then Inl NoTranslationServer
         else if op_exited op then Inl MainProcessExited
         else (let tag = (case tr_execute_options response of None \<Rightarrow> [] | Some opts \<Rightarrow> eo_tag opts);
                   op' = (if op_child_tag op = [] then op\<lparr>op_child_tag := tag\<rparr> else op)
               in then_do (DoSpawn en (op_job op) plan (p_control_channel plan) response) (\<lambda>p. Inr (p, op'))))"

section \<open>The hook of the spawner\<close>

definition CompareGroups :: "nat list \<Rightarrow> nat list \<Rightarrow> bool" where
  "CompareGroups a b \<longleftrightarrow> length a \<le> length b \<and> (length a < length b \<longrightarrow> b ! length a = 0) \<and> (\<forall>i<length a. a ! i = b ! i)"

text \<open>
  \<open>lib\<close> is the spawner's own library, if there is one; the result is whether the process has been
  verified, and the library afterwards.
\<close>

definition Hook_Verify ::
  "plan_sys \<Rightarrow> lib_fs list \<Rightarrow> int \<Rightarrow> prepared \<Rightarrow> multi_library option \<Rightarrow> (spawn_error + bool) \<times> multi_library option" where
  "Hook_Verify sys fss now p lib =
     (case (pc_hook_info p, lib) of
        (Some name, Some l) \<Rightarrow>
          (let l1 = snd (MultiLibrary_Update sys fss now False l); (r, l2) = MultiLibrary_Get sys fss now name l1;
               ug = pc_uid_gid p
           in ((case r of
                  None \<Rightarrow> Inl (NoSuchPlan name)
                | Some plan \<Rightarrow>
                    if ug_real_uid ug \<noteq> None \<or> ug_real_gid ug \<noteq> None then Inl RealUidNotSupported
                    else if ug_effective_uid ug \<noteq> Some (p_uid plan) then Inl WrongUid
                    else if ug_effective_gid ug \<noteq> Some (p_gid plan) then Inl WrongGid
                    else if \<not> CompareGroups (p_groups plan) (ug_supplementary_groups ug) then Inl GroupMismatch
                    else if pc_args p = [] \<or> p_args plan = [] \<or> hd (p_args plan) \<noteq> hd (pc_args p) then Inl ExecutableMismatch
                    else Inr True), Some l2))
      | _ \<Rightarrow> (Inr False, lib))"

section \<open>What is started\<close>

lemma push_limited_Inr: "push_limited e n acc xs = Inr ys \<longleftrightarrow> ys = acc @ xs \<and> (xs = [] \<or> length acc + length xs \<le> n)"
  by (induction e n acc xs arbitrary: ys rule: push_limited.induct) auto

definition dangerous :: "string \<Rightarrow> bool" where
  "dangerous x \<longleftrightarrow> take 3 x = ''LD_''"

lemma push_env_Inr: "push_env acc xs = Inr ys \<Longrightarrow> ys = acc @ filter (\<lambda>x. \<not> dangerous x) (map c_str xs) \<and> (length acc \<le> 64 \<longrightarrow> length ys \<le> 64)"
  by (induction acc xs arbitrary: ys rule: push_env.induct) (auto simp: dangerous_def split: if_splits)

lemma CompareGroups_copy:
  assumes "copy_groups gs (replicate 32 0) = Inr gs'"
  shows "CompareGroups gs gs' \<and> length gs \<le> 32"
  using assms by (auto simp: copy_groups_def CompareGroups_def nth_append split: if_splits)

lemma PreparePlan_Inr:
  assumes "PreparePlan False name plan p0 = Inr p"
  obtains gs where "copy_groups (p_groups plan) (ug_supplementary_groups (pc_uid_gid p0)) = Inr gs"
    "pc_uid_gid p = (pc_uid_gid p0)\<lparr>ug_effective_uid := Some (p_uid plan), ug_effective_gid := Some (p_gid plan), ug_supplementary_groups := gs\<rparr>"
    "pc_hook_info p = Some name" "pc_no_new_privs p" "pc_args p = pc_args p0" "pc_env p = pc_env p0"
proof -
  obtain gs where gs: "copy_groups (p_groups plan) (ug_supplementary_groups (pc_uid_gid p0)) = Inr gs"
    using assms by (auto simp: PreparePlan_def then_do_eq_Inr)
  then show ?thesis using assms that [OF gs] by (auto simp: PreparePlan_def)
qed

text \<open>A process as it is constructed, and what \<open>Start2()\<close> adds to the prepared plan.\<close>

definition fresh_process :: "prepared \<Rightarrow> bool" where
  "fresh_process p \<longleftrightarrow> pc_args p = [] \<and> pc_env p = [] \<and> ug_real_uid (pc_uid_gid p) = None \<and> ug_real_gid (pc_uid_gid p) = None
     \<and> ug_supplementary_groups (pc_uid_gid p) = replicate 32 0"

lemma Start2_plan:
  assumes "Start2 en translation job plan = Inr (p, tag)" "\<not> p_translate plan"
  obtains p0 where "PreparePlan (se_debug_mode en) (wj_plan_name job) plan
      ((se_prepared en)\<lparr>pc_stderr := StderrPipe, pc_stdout := StderrPipe, pc_control := (if p_control_channel plan then ControlSocket else NoFd)\<rparr>) = Inr p0"
    "pc_uid_gid p = pc_uid_gid p0" "pc_hook_info p = pc_hook_info p0" "pc_no_new_privs p = pc_no_new_privs p0"
    "push_limited TooManyArguments 4096 (pc_args p0) (map c_str (Operator_Expand (se_node_name en) job (p_args plan @ wj_args job))) = Inr (pc_args p)"
    "push_env (pc_env p0) (wj_env job) = Inr (pc_env p)"
proof -
  let ?p = "(se_prepared en)\<lparr>pc_stderr := StderrPipe, pc_stdout := StderrPipe, pc_control := (if p_control_channel plan then ControlSocket else NoFd)\<rparr>"
  obtain p0 where p0: "PreparePlan (se_debug_mode en) (wj_plan_name job) plan ?p = Inr p0"
    using assms by (auto simp: Start2_def then_do_eq_Inr PrepareChildProcess_def Let_def split: if_splits)
  let ?p3 = "AttachJob en job plan p0"
  have same: "pc_uid_gid ?p3 = pc_uid_gid p0" "pc_hook_info ?p3 = pc_hook_info p0" "pc_no_new_privs ?p3 = pc_no_new_privs p0" "pc_args ?p3 = pc_args p0" "pc_env ?p3 = pc_env p0"
    by (simp_all add: AttachJob_def Let_def split: option.splits)
  obtain as ev where "push_limited TooManyArguments 4096 (pc_args ?p3) (map c_str (Operator_Expand (se_node_name en) job (p_args plan @ wj_args job))) = Inr as"
    "push_env (pc_env ?p3) (wj_env job) = Inr ev" "p = ?p3\<lparr>pc_args := as, pc_env := ev\<rparr>"
    using assms p0 by (auto simp: Start2_def then_do_eq_Inr PrepareChildProcess_def Let_def)
  then show ?thesis using that [OF p0] same by simp
qed

text \<open>
  C31: what a job of an executable plan starts. The process runs with exactly the user, group and
  supplementary groups of the plan and without the right to gain privileges; its command line are
  the arguments of the plan and of the job, expanded, at most 4096; its environment are the
  variables of the job, at most 64, none of which starts with \<open>LD_\<close>. The hook of the spawner
  accepts it as long as it finds the same plan.
\<close>

theorem Start2_process:
  assumes "Start2 en translation job plan = Inr (p, tag)" and "\<not> p_translate plan" and "\<not> se_debug_mode en" and "fresh_process (se_prepared en)"
  shows "pc_no_new_privs p \<and> ug_effective_uid (pc_uid_gid p) = Some (p_uid plan) \<and> ug_effective_gid (pc_uid_gid p) = Some (p_gid plan)
    \<and> CompareGroups (p_groups plan) (ug_supplementary_groups (pc_uid_gid p))
    \<and> pc_args p = map c_str (Operator_Expand (se_node_name en) job (p_args plan @ wj_args job)) \<and> length (pc_args p) \<le> 4096
    \<and> pc_env p = filter (\<lambda>x. \<not> dangerous x) (map c_str (wj_env job)) \<and> length (pc_env p) \<le> 64
    \<and> (MultiLibrary_Get sys fss now (wj_plan_name job) (snd (MultiLibrary_Update sys fss now False l)) = (Some plan, l') \<and> p_args plan = path # params
         \<and> NUL \<notin> set path \<longrightarrow> Hook_Verify sys fss now p (Some l) = (Inr True, Some l'))"
proof -
  have d: "se_debug_mode en = False" using assms(3) by simp
  obtain p0 where p0: "PreparePlan False (wj_plan_name job) plan
      ((se_prepared en)\<lparr>pc_stderr := StderrPipe, pc_stdout := StderrPipe, pc_control := (if p_control_channel plan then ControlSocket else NoFd)\<rparr>) = Inr p0"
    and same: "pc_uid_gid p = pc_uid_gid p0" "pc_hook_info p = pc_hook_info p0" "pc_no_new_privs p = pc_no_new_privs p0"
    and args: "push_limited TooManyArguments 4096 (pc_args p0) (map c_str (Operator_Expand (se_node_name en) job (p_args plan @ wj_args job))) = Inr (pc_args p)"
    and env: "push_env (pc_env p0) (wj_env job) = Inr (pc_env p)"
    by (rule Start2_plan [OF assms(1,2), unfolded d])
  obtain gs where gs: "copy_groups (p_groups plan) (replicate 32 0) = Inr gs"
    and ug: "pc_uid_gid p0 = (pc_uid_gid (se_prepared en))\<lparr>ug_effective_uid := Some (p_uid plan), ug_effective_gid := Some (p_gid plan), ug_supplementary_groups := gs\<rparr>"
    and rest: "pc_hook_info p0 = Some (wj_plan_name job)" "pc_no_new_privs p0" "pc_args p0 = []" "pc_env p0 = []"
    using PreparePlan_Inr [OF p0] assms(4) by (auto simp: fresh_process_def)
  have a: "pc_args p = map c_str (Operator_Expand (se_node_name en) job (p_args plan @ wj_args job))" "length (pc_args p) \<le> 4096"
    using args by (auto simp: rest push_limited_Inr)
  have e: "pc_env p = filter (\<lambda>x. \<not> dangerous x) (map c_str (wj_env job))" "length (pc_env p) \<le> 64"
    using push_env_Inr [OF env] by (auto simp: rest)
  have g: "CompareGroups (p_groups plan) gs" using CompareGroups_copy [OF gs] by simp
  have "Hook_Verify sys fss now p (Some l) = (Inr True, Some l')"
    if "MultiLibrary_Get sys fss now (wj_plan_name job) (snd (MultiLibrary_Update sys fss now False l)) = (Some plan, l')" "p_args plan = path # params" "NUL \<notin> set path"
    using that assms(4) g by (simp add: Hook_Verify_def Let_def same rest ug a(1) fresh_process_def)
  then show ?thesis using a e g by (simp add: same rest ug)
qed

definition sample_prepared :: prepared where
  "sample_prepared = \<lparr>pc_args = [], pc_env = [], pc_hook_info = None,
     pc_uid_gid = \<lparr>ug_real_uid = None, ug_real_gid = None, ug_effective_uid = None, ug_effective_gid = None, ug_supplementary_groups = replicate 32 0\<rparr>,
     pc_chroot = None, pc_umask = -1, pc_rlimits = [], pc_priority = 0, pc_sched_idle = False, pc_ioprio_idle = False, pc_enable_network = False,
     pc_mount_tmp_tmpfs = None, pc_no_new_privs = False, pc_process_name = None, pc_stdin = NoFd, pc_stdout = NoFd, pc_stderr = NoFd, pc_control = NoFd,
     pc_cgroup = None, pc_cgroup_session = None\<rparr>"

definition sample_spawn_env :: spawn_env where
  "sample_spawn_env = \<lparr>se_prepared = sample_prepared, se_debug_mode = False, se_node_name = ''a'', se_translation_socket = False, se_supports_cgroups = True\<rparr>"

definition sample_exec_job :: workshop_job where
  "sample_exec_job = \<lparr>wj_id = ''7'', wj_plan_name = ''ab'', wj_sticky_id = [], wj_args = [''--id=${JOB}''], wj_env = [''A=1'', ''LD_PRELOAD=x''], wj_stdin = None\<rparr>"

lemma sample_expand: "Expand (operator_vars ''a'' sample_exec_job ''/bin/true'') ''--id=${JOB}'' = ''--id=7''"
  using Expand_lit [of "''--id=''" "operator_vars ''a'' sample_exec_job ''/bin/true''" "''${JOB}''"]
    Expand_var [of "''JOB''" "operator_vars ''a'' sample_exec_job ''/bin/true''" "[]"]
  by (simp add: operator_vars_def sample_exec_job_def Expand.simps)

theorem Start2_process_witness:
  "\<exists>p tag. Start2 sample_spawn_env \<lparr>tr_status = 0, tr_message = None, tr_execute_options = None\<rparr> sample_exec_job
       (plan_init\<lparr>p_args := [''/bin/true''], p_uid := 1000, p_gid := 1000, p_groups := [1000, 27]\<rparr>) = Inr (p, tag)
     \<and> pc_args p = [''/bin/true'', ''--id=7''] \<and> pc_env p = [''A=1''] \<and> ug_effective_uid (pc_uid_gid p) = Some 1000"
proof -
  let ?plan = "plan_init\<lparr>p_args := [''/bin/true''], p_uid := 1000, p_gid := 1000, p_groups := [1000, 27]\<rparr>"
  have fresh: "fresh_process (se_prepared sample_spawn_env)" by (simp add: fresh_process_def sample_spawn_env_def sample_prepared_def)
  have env: "se_node_name sample_spawn_env = ''a''" "\<not> se_debug_mode sample_spawn_env" by (simp_all add: sample_spawn_env_def)
  have args: "map c_str (Operator_Expand (se_node_name sample_spawn_env) sample_exec_job (p_args ?plan @ wj_args sample_exec_job)) = [''/bin/true'', ''--id=7'']"
    using sample_expand by (simp add: env) (simp add: sample_exec_job_def)
  have "\<exists>p tag. Start2 sample_spawn_env \<lparr>tr_status = 0, tr_message = None, tr_execute_options = None\<rparr> sample_exec_job ?plan = Inr (p, tag)"
    using args by (simp add: Start2_def PrepareChildProcess_def PreparePlan_def copy_groups_def sample_spawn_env_def sample_prepared_def plan_init_def
        AttachJob_def Let_def c_str_def) (simp add: sample_exec_job_def c_str_def)
  then obtain p tag where p: "Start2 sample_spawn_env \<lparr>tr_status = 0, tr_message = None, tr_execute_options = None\<rparr> sample_exec_job ?plan = Inr (p, tag)" by blast
  have "\<not> p_translate ?plan" by (simp add: plan_init_def)
  from Start2_process [OF p this env(2) fresh] p show ?thesis unfolding args by (auto simp: sample_exec_job_def dangerous_def c_str_def)
qed

text \<open>
  A user in more than 32 groups: the plan loads with up to 64 groups, but the array of the process has
  room for 32.
\<close>

theorem PreparePlan_groups_overflow:
  "32 < length (p_groups plan) \<Longrightarrow> ug_supplementary_groups (pc_uid_gid p) = replicate 32 0 \<Longrightarrow> PreparePlan False name plan p = Inl GroupsOverflow"
  by (simp add: PreparePlan_def copy_groups_def)

section \<open>What the hook accepts\<close>

definition not_root :: "string \<Rightarrow> plan \<Rightarrow> bool" where
  "not_root n p \<longleftrightarrow> p_uid p \<noteq> 0 \<and> p_gid p \<noteq> 0"

lemma files_not_root: "files_load sys not_root fs"
  using LoadPlanFile_not_root by (auto simp: files_load_def not_root_def)

text \<open>The libraries that a spawner can have, after whatever requests with whatever files.\<close>

inductive hook_reach :: "multi_library \<Rightarrow> bool" where
  HookInit: "hook_reach (replicate n library_init)"
| HookVerify: "hook_reach l \<Longrightarrow> Hook_Verify sys fss now p (Some l) = (r, Some l') \<Longrightarrow> hook_reach l'"

text \<open>What the hook has compared when it accepts a process.\<close>

definition matches_plan :: "plan \<Rightarrow> prepared \<Rightarrow> bool" where
  "matches_plan plan p \<longleftrightarrow> ug_real_uid (pc_uid_gid p) = None \<and> ug_real_gid (pc_uid_gid p) = None
     \<and> ug_effective_uid (pc_uid_gid p) = Some (p_uid plan) \<and> ug_effective_gid (pc_uid_gid p) = Some (p_gid plan)
     \<and> CompareGroups (p_groups plan) (ug_supplementary_groups (pc_uid_gid p))
     \<and> pc_args p \<noteq> [] \<and> p_args plan \<noteq> [] \<and> hd (pc_args p) = hd (p_args plan)"

lemma Hook_Verify_Some:
  assumes "pc_hook_info p = Some name" "MultiLibrary_Get sys fss now name (snd (MultiLibrary_Update sys fss now False l)) = (x, l2)"
  shows "snd (Hook_Verify sys fss now p (Some l)) = Some l2"
    and "fst (Hook_Verify sys fss now p (Some l)) = Inr b \<longleftrightarrow> b \<and> (\<exists>plan. x = Some plan \<and> matches_plan plan p)"
  using assms by (auto simp: Hook_Verify_def Let_def matches_plan_def split: option.splits)

lemma hook_libraries:
  assumes "\<And>x. x \<in> set l \<Longrightarrow> lib_all (plan_holds not_root) (lb_plans x)"
    "MultiLibrary_Get sys fss now name (snd (MultiLibrary_Update sys fss now False l)) = (x, l2)"
  shows "(\<forall>y\<in>set l2. lib_all (plan_holds not_root) (lb_plans y)) \<and> (\<forall>plan. x = Some plan \<longrightarrow> is_valid_plan_name name \<and> not_root name plan)"
proof -
  let ?l1 = "snd (MultiLibrary_Update sys fss now False l)"
  have l1: "\<And>y. y \<in> set ?l1 \<Longrightarrow> lib_all (plan_holds not_root) (lb_plans y)"
    by (rule loaded.MultiLibrary_Update_all [where Q = not_root, OF files_not_root assms(1)])
  have "lib_all (plan_holds not_root) (lb_plans y)" if "y \<in> set l2" for y
    by (rule loaded.MultiLibrary_Get_all(1) [where Q = not_root, OF files_not_root _ assms(2) that]) (rule l1)
  moreover have "\<exists>e. plan_holds not_root name e \<and> pe_plan e = Some plan" if "x = Some plan" for plan
    by (rule loaded.MultiLibrary_Get_all(2) [where Q = not_root, OF files_not_root _ assms(2) that]) (rule l1)
  ultimately show ?thesis by (auto simp: plan_holds_def)
qed

lemma hook_reach_libs: "hook_reach l \<Longrightarrow> x \<in> set l \<Longrightarrow> lib_all (plan_holds not_root) (lb_plans x)"
proof (induction arbitrary: x rule: hook_reach.induct)
  case (HookInit n)
  then show ?case by (simp add: library_init_def)
next
  case (HookVerify l sys fss now p r l')
  show ?case
  proof (cases "pc_hook_info p")
    case None
    then show ?thesis using HookVerify by (simp add: Hook_Verify_def)
  next
    case (Some name)
    obtain y l2 where g: "MultiLibrary_Get sys fss now name (snd (MultiLibrary_Update sys fss now False l)) = (y, l2)" by fastforce
    have "l' = l2" using Hook_Verify_Some(1) [OF Some g] HookVerify(2) by simp
    then show ?thesis using hook_libraries [OF _ g] HookVerify(3,4) by blast
  qed
qed

text \<open>
  C32: a process that the hook of the spawner has verified names a plan that the library
  has, with a valid name; that plan has neither the user nor the group of root, and the process executes its program
  with exactly its user, group and supplementary groups and without another real user, whatever requests and
  whatever changes of the plan files preceded it.
\<close>

theorem Hook_Verify_safe:
  assumes "hook_reach l" and "Hook_Verify sys fss now p (Some l) = (Inr True, l')"
  shows "\<exists>name plan l2. pc_hook_info p = Some name \<and> is_valid_plan_name name
    \<and> MultiLibrary_Get sys fss now name (snd (MultiLibrary_Update sys fss now False l)) = (Some plan, l2) \<and> l' = Some l2
    \<and> p_uid plan \<noteq> 0 \<and> p_gid plan \<noteq> 0 \<and> ug_real_uid (pc_uid_gid p) = None \<and> ug_real_gid (pc_uid_gid p) = None
    \<and> ug_effective_uid (pc_uid_gid p) = Some (p_uid plan) \<and> ug_effective_gid (pc_uid_gid p) = Some (p_gid plan)
    \<and> CompareGroups (p_groups plan) (ug_supplementary_groups (pc_uid_gid p))
    \<and> pc_args p \<noteq> [] \<and> p_args plan \<noteq> [] \<and> hd (pc_args p) = hd (p_args plan)"
proof -
  obtain name where name: "pc_hook_info p = Some name" using assms(2) by (cases "pc_hook_info p") (simp_all add: Hook_Verify_def)
  obtain x l2 where g: "MultiLibrary_Get sys fss now name (snd (MultiLibrary_Update sys fss now False l)) = (x, l2)" by fastforce
  obtain plan where plan: "x = Some plan" "matches_plan plan p" using Hook_Verify_Some(2) [OF name g, of True] assms(2) by auto
  have l2: "l' = Some l2" using Hook_Verify_Some(1) [OF name g] assms(2) by simp
  have "is_valid_plan_name name \<and> not_root name plan" using hook_libraries [OF hook_reach_libs [OF assms(1)] g] plan(1) by blast
  then show ?thesis using name g plan l2 unfolding matches_plan_def not_root_def by blast
qed

definition sample_verified :: prepared where
  "sample_verified = sample_prepared\<lparr>pc_args := [''/bin/true'', ''--id=7''], pc_hook_info := Some ''ab'',
     pc_uid_gid := \<lparr>ug_real_uid = None, ug_real_gid = None, ug_effective_uid = Some 1000, ug_effective_gid = Some 1000,
       ug_supplementary_groups = 1000 # replicate 31 0\<rparr>\<rparr>"

lemma sample_plan_user: "\<exists>p. LoadPlanFile sample_sys (Some [''exec /bin/true -x'', ''user nobody'']) = Inr p
    \<and> p_args p = [''/bin/true'', ''-x''] \<and> p_uid p = 1000 \<and> p_gid p = 1000 \<and> p_groups p = [1000] \<and> \<not> p_translate p"
  by (simp add: LoadPlanFile_def PlanLoader_ParseLine_def sample_sys_def space_lib_def Let_def plan_loader_init_def plan_init_def
      after_word_def parse_exec_def parse_user_def get_user_groups_def upd_exec_def upd_plan_def PlanLoader_Finish_def)

theorem Hook_Verify_safe_witness:
  "\<exists>name plan l2. Hook_Verify sample_sys [sample_fs ''ab'' [''exec /bin/true -x'', ''user nobody'']] 5 sample_verified (Some [library_init]) = (Inr True, Some l2)
     \<and> pc_hook_info sample_verified = Some name \<and> p_uid (plan :: plan) \<noteq> 0 \<and> ug_effective_uid (pc_uid_gid sample_verified) = Some (p_uid plan)"
proof -
  let ?fs = "sample_fs ''ab'' [''exec /bin/true -x'', ''user nobody'']"
  let ?lib = "snd (Library_Update sample_sys ?fs 5 False library_init)"
  obtain p where p: "LoadPlanFile sample_sys (Some [''exec /bin/true -x'', ''user nobody'']) = Inr p"
    "p_args p = [''/bin/true'', ''-x'']" "p_uid p = 1000" "p_gid p = 1000" "p_groups p = [1000]" "\<not> p_translate p" using sample_plan_user by blast
  have valid: "is_valid_plan_name ''ab''" "\<not> IsSpecialFilename ''ab''" "IsSpecialFilename ''.''"
    by (simp_all add: is_valid_plan_name_char_def is_alnum_def IsSpecialFilename_def)
  have plans: "lb_plans ?lib = [(''ab'', \<lparr>pe_plan = Some p, pe_deinstalled = False, pe_mtime = (1, 0), pe_disabled_until = None\<rparr>)]"
    using p valid by (simp add: Library_Update_def UpdatePlans_def sample_fs_def update_file_def UpdatePlan_def CheckPlanModified_def
        LoadPlan_def ValidatePlan_def plan_entry_init_def entry_defs library_init_def assoc_update_def Let_def)
  have "fst (Library_Get sample_sys ?fs 5 ''ab'' ?lib) = Some p"
    unfolding Library_Get_def plans using p
    by (simp add: UpdatePlan_def CheckPlanModified_def ValidatePlan_def sample_fs_def entry_defs Let_def)
  then obtain lib' where get: "Library_Get sample_sys ?fs 5 ''ab'' ?lib = (Some p, lib')" by (metis prod.collapse)
  have g: "MultiLibrary_Get sample_sys [?fs] 5 ''ab'' (snd (MultiLibrary_Update sample_sys [?fs] 5 False [library_init])) = (Some p, [lib'])"
    using get by (simp add: case_prod_beta Let_def)
  have name: "pc_hook_info sample_verified = Some ''ab''" by (simp add: sample_verified_def)
  have "matches_plan p sample_verified" using p by (simp add: matches_plan_def sample_verified_def CompareGroups_def)
  then have v: "Hook_Verify sample_sys [?fs] 5 sample_verified (Some [library_init]) = (Inr True, Some [lib'])"
    using Hook_Verify_Some(1) [OF name g] Hook_Verify_Some(2) [OF name g, of True] by (simp add: prod_eq_iff)
  have "hook_reach [library_init]" using HookInit [of 1] by simp
  from Hook_Verify_safe [OF this v] obtain n and plan :: plan where "pc_hook_info sample_verified = Some n" "p_uid plan \<noteq> 0"
    "ug_effective_uid (pc_uid_gid sample_verified) = Some (p_uid plan)" by blast
  then show ?thesis using v by (intro exI [of _ n] exI [of _ plan] exI [of _ "[lib']"] conjI)
qed

end
