(* ===== verification/Workshop_Run.thy ===== *)
theory Workshop_Run
  imports Workshop_Partition
begin

text \<open>
  What the events of a workshop partition keep: the number of operators stays within the
  concurrency of the node and, for every plan, within the plan's own limit; the queue is closed
  exactly while the workplace is full; and every operator that ends leaves its result in the
  database.
\<close>

section \<open>Frame rules\<close>

text \<open>The part of the state that statements and reports to the database leave alone.\<close>

definition core :: "ws_node \<Rightarrow> ws_workplace \<times> multi_library \<times> string \<times> bool \<times> bool \<times> bool \<times> bool \<times> bool" where
  "core s = (ws_workplace s, ws_library s, wq_plans_exclude (ws_queue s), wq_disabled_full (ws_queue s), wq_running (ws_queue s),
     wq_interrupt (ws_queue s), wq_enabled_state (ws_queue s), wq_enabled_admin (ws_queue s))"

lemma coreD:
  assumes "core s = core s'"
  shows "ws_workplace s = ws_workplace s'" "ws_library s = ws_library s'" "wq_plans_exclude (ws_queue s) = wq_plans_exclude (ws_queue s')"
    "wq_disabled_full (ws_queue s) = wq_disabled_full (ws_queue s')" "wq_running (ws_queue s) = wq_running (ws_queue s')"
    "wq_interrupt (ws_queue s) = wq_interrupt (ws_queue s')" "wq_enabled_state (ws_queue s) = wq_enabled_state (ws_queue s')"
    "wq_enabled_admin (ws_queue s) = wq_enabled_admin (ws_queue s')"
  using assms by (auto simp: core_def)

named_theorems frame \<open>operations that leave the core alone\<close>

lemma core_act [frame]: "core (ws_act a s) = core s"
  by (simp add: core_def ws_act_def)

lemma core_try [frame]: "core (snd (ws_try f s)) = core s"
  by (simp add: core_def ws_try_def Let_def case_prod_beta)

lemma core_CheckError [frame]: "core (ws_CheckError cx e s) = core s"
  by (simp add: core_def ws_CheckError_def on_wq_def Workshop_OnDisconnect_def split: option.splits)

lemma core_wq [frame]:
  "core (on_wq Workshop_ScheduleCheckNotify s) = core s" "core (on_wq Workshop_Reschedule s) = core s"
  "core (on_wq (Workshop_ScheduleTimer d) s) = core s" "core (on_wq Workshop_OnDisconnect s) = core s"
  "core (on_wq (\<lambda>q. q\<lparr>wq_timer := t\<rparr>) s) = core s" "core (on_wq (\<lambda>q. q\<lparr>wq_next_expire_check := x\<rparr>) s) = core s"
  "core (on_wq (\<lambda>q. q\<lparr>wq_progress_notify_timer := t\<rparr>) s) = core s" "core (on_wq (\<lambda>q. q\<lparr>wq_progress_notify_plans := l\<rparr>) s) = core s"
  by (simp_all add: core_def on_wq_def Workshop_ScheduleCheckNotify_def Workshop_Reschedule_def Workshop_ScheduleTimer_def Workshop_OnDisconnect_def)

text \<open>A statement followed by a continuation.\<close>

lemma core_try_case:
  assumes "\<And>e s'. core s' = core s \<Longrightarrow> core (f e s') = core s" "\<And>x s'. core s' = core s \<Longrightarrow> core (g x s') = core s"
  shows "core (case ws_try h s of (Inl e, s') \<Rightarrow> f e s' | (Inr x, s') \<Rightarrow> g x s') = core s"
proof -
  obtain r s' where r: "ws_try h s = (r, s')" by (cases "ws_try h s")
  have "core s' = core s" using core_try [of h s] r by simp
  then show ?thesis using assms r by (cases r) simp_all
qed

lemma core_try_snd_case:
  assumes "\<And>e s'. core s' = core s \<Longrightarrow> core (snd (f e s')) = core s" "\<And>x s'. core s' = core s \<Longrightarrow> core (snd (g x s')) = core s"
  shows "core (snd (case ws_try h s of (Inl e, s') \<Rightarrow> f e s' | (Inr x, s') \<Rightarrow> g x s')) = core s"
proof -
  obtain r s' where r: "ws_try h s = (r, s')" by (cases "ws_try h s")
  have "core s' = core s" using core_try [of h s] r by simp
  then show ?thesis using assms r by (cases r) simp_all
qed

lemma core_exec [frame]: "core (ws_exec cx f s) = core s"
  unfolding ws_exec_def by (rule core_try_case) (simp_all add: frame)

lemma core_notify [frame]: "core (snd (pg_notify s)) = core s"
  unfolding pg_notify_def by (rule core_try_snd_case) (simp_all add: frame)

lemma core_execute [frame]: "core (snd (db_execute a s)) = core s"
  unfolding db_execute_def by (rule core_try_snd_case) (simp_all add: frame)

lemma core_SetJobDone [frame]: "core (SetJobDone cx job st l s) = core s"
  unfolding SetJobDone_def by (rule core_try_case) (simp_all add: frame)

lemma core_AgainJob [frame]: "core (AgainJob cx job l d s) = core s"
  unfolding AgainJob_def
proof (rule core_try_case)
  fix u s' assume "core s' = core s"
  then show "core (case pg_notify s' of (Inl e, s2) \<Rightarrow> ws_CheckError cx e s2 | (Inr _, s2) \<Rightarrow> on_wq Workshop_ScheduleCheckNotify s2) = core s"
    using core_notify [of s'] by (cases "pg_notify s'"; cases "fst (pg_notify s')") (auto simp: frame)
qed (simp_all add: frame)

lemma core_reports [frame]:
  "core (AddJobCpuUsage cx job u s) = core s" "core (snd (SetJobEnv job v s)) = core s" "core (Operator_Cancel cx op s) = core s"
  "core (Workshop_InsertStickyNonLocal cx sid s) = core s" "core (Workshop_FlushSticky cx s) = core s"
  "core (snd (get_and_claim_job cx job t s)) = core s"
  by (simp_all add: AddJobCpuUsage_def SetJobEnv_def Operator_Cancel_def Workshop_InsertStickyNonLocal_def Workshop_FlushSticky_def
      get_and_claim_job_def frame)

lemma core_SetJobProgress [frame]: "core (snd (SetJobProgress cx job p t n s)) = core s"
proof -
  let ?s1 = "on_wq Workshop_ScheduleCheckNotify s"
  define s2 where "s2 = (if n
      then on_wq (\<lambda>q. let (inserted, ps) = set_emplace (wj_plan_name job) (wq_progress_notify_plans q); q' = q\<lparr>wq_progress_notify_plans := ps\<rparr>
                        in if inserted \<and> wq_progress_notify_timer q = None then q'\<lparr>wq_progress_notify_timer := Some 250\<rparr> else q') ?s1
      else ?s1)"
  have s2: "core s2 = core s"
    by (simp add: s2_def core_def on_wq_def Workshop_ScheduleCheckNotify_def Let_def case_prod_beta)
  have "core (snd (SetJobProgress cx job p t n s)) = core s2"
    unfolding SetJobProgress_def Let_def s2_def [unfolded Let_def, symmetric] by (rule core_try_snd_case) (simp_all add: frame)
  with s2 show ?thesis by simp
qed

lemma core_CheckRateLimit [frame]: "core (snd (Workshop_CheckRateLimit cx n r s)) = core s"
  unfolding Workshop_CheckRateLimit_def by (rule core_try_snd_case) (simp_all add: frame)

lemma core_CheckRateLimits [frame]: "core (snd (CheckRateLimits cx n rs s)) = core s"
proof (induction rs arbitrary: s)
  case (Cons r rs)
  show ?case using core_CheckRateLimit [of cx n r s] Cons [of "snd (Workshop_CheckRateLimit cx n r s)"] by (simp add: Let_def case_prod_beta)
qed simp

lemma core_ReapFinishedJobs [frame]: "core (snd (ReapFinishedJobs cx n r s)) = core s"
proof -
  have "core (snd (case ws_try (\<lambda>db. on_table (PgReapFinishedJobs (wx_pg cx) (sd_now db) n r) db) s of
      (Inl e, s') \<Rightarrow> (0, ws_CheckError cx e s') | (Inr n, s') \<Rightarrow> (n, s'))) = core s"
    by (rule core_try_snd_case) (simp_all add: frame)
  then show ?thesis by (simp add: ReapFinishedJobs_def)
qed

lemma core_GetNextScheduled [frame]: "core (snd (GetNextScheduled cx s)) = core s"
proof -
  have "core (snd (case ws_try h s of (Inl e, s') \<Rightarrow> (Inl e, s') | (Inr None, s') \<Rightarrow> (Inr (-1), s')
      | (Inr (Some span), s') \<Rightarrow> (Inr (min 600 (max 0 span + 2)), s'))) = core s" for h :: "ws_db \<Rightarrow> (db_error + int option) \<times> ws_db"
    using core_try [of h s] by (auto split: prod.splits sum.splits option.splits)
  then show ?thesis by (simp add: GetNextScheduled_def Let_def)
qed

lemma core_ExpireJobs [frame]: "core (snd (ExpireJobs cx s)) = core s"
proof -
  let ?s1 = "on_wq (\<lambda>q. q\<lparr>wq_next_expire_check := Some (wx_steady cx + 60)\<rparr>) s"
  have "core (snd (case ws_try h ?s1 of (Inl e, s2) \<Rightarrow> (Inl e, s2) | (Inr n, s2) \<Rightarrow> if 0 < n then pg_notify s2 else (Inr (), s2))) = core ?s1"
    for h :: "ws_db \<Rightarrow> (db_error + nat) \<times> ws_db"
    by (rule core_try_snd_case) (simp_all add: frame)
  then show ?thesis by (simp add: ExpireJobs_def Let_def frame)
qed

lemma core_ReleaseJobs [frame]: "core (snd (ReleaseJobs s)) = core s"
  unfolding ReleaseJobs_def by (rule core_try_snd_case) (simp_all add: frame)

lemma core_notify_plans [frame]: "core (snd (notify_plans ps s)) = core s"
proof (induction ps arbitrary: s)
  case (Cons p ps)
  show ?case unfolding notify_plans.simps by (rule core_try_snd_case) (simp_all add: Cons frame)
qed simp

lemma core_OnProgressNotifyTimer [frame]: "core (OnProgressNotifyTimer cx s) = core s"
proof -
  let ?s0 = "on_wq (\<lambda>q. q\<lparr>wq_progress_notify_timer := None\<rparr>) s" and ?ps = "wq_progress_notify_plans (ws_queue s)"
  obtain r s' where r: "notify_plans ?ps ?s0 = (r, s')" by (cases "notify_plans ?ps ?s0")
  then have "core s' = core s" using core_notify_plans [of ?ps ?s0] by (simp add: frame)
  then show ?thesis using r by (cases r) (simp_all add: OnProgressNotifyTimer_def frame)
qed

lemma core_Prepare [frame]: "core (snd (Workshop_Prepare cx s)) = core s"
  by (simp add: Workshop_Prepare_def Let_def frame)

lemma core_OnConnect [frame]: "core (snd (Workshop_OnConnect cx s)) = core s"
proof -
  have seq: "core (snd (case m of (Inl e, s1) \<Rightarrow> (Inl e, s1) | (Inr _, s1) \<Rightarrow> k s1)) = core s"
    if "core (snd m) = core s" "\<And>s1. core s1 = core s \<Longrightarrow> core (snd (k s1)) = core s" for m :: "(db_error + unit) \<times> ws_node" and k
    using that by (cases m; cases "fst m") auto
  show ?thesis unfolding Workshop_OnConnect_def by (auto simp: frame intro!: seq)
qed

section \<open>Plans at their limit\<close>

definition plan_count :: "string \<Rightarrow> workshop_operator list \<Rightarrow> nat" where
  "plan_count n ops = length (filter (\<lambda>op. GetPlanName op = n) ops)"

lemma plan_count_simps [simp]:
  "plan_count n [] = 0" "plan_count n (xs @ ys) = plan_count n xs + plan_count n ys"
  "plan_count n [op] = (if GetPlanName op = n then 1 else 0)"
  by (simp_all add: plan_count_def)

lemma plan_count_filter: "plan_count n (filter P ops) \<le> plan_count n ops"
  by (induction ops) (auto simp: plan_count_def)

lemma set_emplace_set [simp]: "set (snd (set_emplace x l)) = insert x (set l)"
  by (auto simp: set_emplace_def set_insort_key)

lemma set_emplace_sorted: "sorted l \<Longrightarrow> distinct l \<Longrightarrow> sorted (snd (set_emplace x l)) \<and> distinct (snd (set_emplace x l))"
  by (auto simp: set_emplace_def distinct_insort sorted_insort)

text \<open>Operators of the same plan have the same limit.\<close>

definition conforming :: "(string \<Rightarrow> nat) \<Rightarrow> workshop_operator list \<Rightarrow> bool" where
  "conforming lim ops \<longleftrightarrow> (\<forall>op\<in>set ops. p_concurrency (op_plan op) = lim (GetPlanName op) \<and> is_valid_plan_name (GetPlanName op))"

lemma full_step_fold:
  "conforming lim ops \<Longrightarrow>
   (\<forall>n. fst (fold full_step ops (Map.empty, [])) n = (if lim n = 0 \<or> plan_count n ops = 0 then None else Some (plan_count n ops))) \<and>
   (\<forall>n. n \<in> set (snd (fold full_step ops (Map.empty, []))) \<longleftrightarrow> plan_count n ops \<noteq> 0 \<and> lim n \<noteq> 0 \<and> lim n \<le> plan_count n ops) \<and>
   sorted (snd (fold full_step ops (Map.empty, []))) \<and> distinct (snd (fold full_step ops (Map.empty, [])))"
proof (induction ops rule: rev_induct)
  case (snoc op ops)
  obtain c l where cl: "fold full_step ops (Map.empty, []) = (c, l)" by (cases "fold full_step ops (Map.empty, [])")
  have op: "p_concurrency (op_plan op) = lim (GetPlanName op)" using snoc.prems by (simp add: conforming_def)
  from snoc cl have c: "c n = (if lim n = 0 \<or> plan_count n ops = 0 then None else Some (plan_count n ops))"
    and l: "n \<in> set l \<longleftrightarrow> plan_count n ops \<noteq> 0 \<and> lim n \<noteq> 0 \<and> lim n \<le> plan_count n ops" and sl: "sorted l" "distinct l" for n
    by (simp_all add: conforming_def)
  show ?case
  proof (cases "lim (GetPlanName op) = 0")
    case True
    then have "fold full_step (ops @ [op]) (Map.empty, []) = (c, l)" using op by (simp add: cl full_step_def)
    then show ?thesis using c l sl True by auto
  next
    case False
    let ?n = "GetPlanName op"
    have r: "fold full_step (ops @ [op]) (Map.empty, [])
        = (c(?n \<mapsto> plan_count ?n ops + 1), if lim ?n \<le> plan_count ?n ops + 1 then snd (set_emplace ?n l) else l)"
      using False c [of ?n] op by (simp add: cl full_step_def Let_def)
    show ?thesis unfolding r using c l False set_emplace_sorted [OF sl, of ?n] sl by auto
  qed
qed (simp add: conforming_def)

lemma full_plans_iff:
  assumes "conforming lim ops"
  shows "n \<in> set (full_plans ops) \<longleftrightarrow> plan_count n ops \<noteq> 0 \<and> lim n \<noteq> 0 \<and> lim n \<le> plan_count n ops"
    and "sorted (full_plans ops)" "distinct (full_plans ops)"
  using full_step_fold [OF assms] by (simp_all add: full_plans_def)

lemma valid_name_plain: "is_valid_plan_name n \<Longrightarrow> array_plain n"
proof (induction n rule: is_valid_plan_name.induct)
  case 1
  then show ?case by (simp add: is_valid_plan_name_char_def is_alnum_def is_digit_def)
next
  case (2 c)
  then show ?case by (auto simp: array_plain_def is_valid_plan_name_char_def is_alnum_def is_digit_def)
next
  case (3 c d s)
  then show ?case by (auto simp: array_plain_def is_valid_plan_name_char_def is_alnum_def is_digit_def)
qed

lemma full_plans_plain: "conforming lim ops \<Longrightarrow> list_all array_plain (full_plans ops)"
proof -
  assume c: "conforming lim ops"
  have "array_plain n" if "n \<in> set (full_plans ops)" for n
  proof -
    have "plan_count n ops \<noteq> 0" using that full_plans_iff(1) [OF c] by simp
    then obtain op where "op \<in> set ops" "GetPlanName op = n" by (fastforce simp: plan_count_def filter_empty_conv)
    then show ?thesis using c valid_name_plain by (auto simp: conforming_def)
  qed
  then show ?thesis by (simp add: list_all_iff)
qed

section \<open>The handlers of the partition\<close>

abbreviation ops_of :: "ws_node \<Rightarrow> workshop_operator list" where
  "ops_of s \<equiv> ww_operators (ws_workplace s)"

text \<open>What a handler leaves alone: the workplace and the switches; an interruption stays.\<close>

definition same_place :: "ws_node \<Rightarrow> ws_node \<Rightarrow> bool" where
  "same_place s s' \<longleftrightarrow> ws_workplace s' = ws_workplace s \<and> wq_running (ws_queue s') = wq_running (ws_queue s) \<and>
     wq_enabled_state (ws_queue s') = wq_enabled_state (ws_queue s) \<and> wq_enabled_admin (ws_queue s') = wq_enabled_admin (ws_queue s) \<and>
     (wq_interrupt (ws_queue s) \<longrightarrow> wq_interrupt (ws_queue s'))"

lemma same_place_refl [simp]: "same_place s s"
  by (simp add: same_place_def)

lemma same_place_trans [trans]: "same_place s s' \<Longrightarrow> same_place s' s'' \<Longrightarrow> same_place s s''"
  by (auto simp: same_place_def)

lemma same_place_core: "core s' = core s \<Longrightarrow> same_place s s'"
  by (auto simp: same_place_def dest: coreD)

lemma same_placeD: "same_place s s' \<Longrightarrow> ws_workplace s' = ws_workplace s" "same_place s s' \<Longrightarrow> wq_running (ws_queue s') = wq_running (ws_queue s)"
  by (simp_all add: same_place_def)

lemma SetFilter_fields:
  "wq_plans_exclude (SetFilter i e l q) = e" "wq_disabled_full (SetFilter i e l q) = wq_disabled_full q"
  "wq_running (SetFilter i e l q) = wq_running q" "wq_enabled_state (SetFilter i e l q) = wq_enabled_state q"
  "wq_enabled_admin (SetFilter i e l q) = wq_enabled_admin q" "wq_interrupt q \<Longrightarrow> wq_interrupt (SetFilter i e l q)"
  "wq_running q \<Longrightarrow> wq_plans_exclude q \<noteq> e \<Longrightarrow> wq_interrupt (SetFilter i e l q)"
  by (auto simp: SetFilter_def copy_string_def Workshop_Reschedule_def Workshop_ScheduleTimer_def Let_def)

lemma ScheduleReapFinished_core: "core (ScheduleReapFinished s) = core s"
  by (simp add: core_def ScheduleReapFinished_def)

lemma UpdateFilter_fields:
  "same_place s (UpdateFilter cx m s)" "ws_library (UpdateFilter cx m s) = ws_library s"
  "wq_disabled_full (ws_queue (UpdateFilter cx m s)) = wq_disabled_full (ws_queue s)"
  "wq_plans_exclude (ws_queue (UpdateFilter cx m s)) = EncodeArray (wx_pg cx) (full_plans (ops_of s))"
  "wq_running (ws_queue s) \<Longrightarrow> wq_plans_exclude (ws_queue s) \<noteq> EncodeArray (wx_pg cx) (full_plans (ops_of s)) \<Longrightarrow>
     wq_interrupt (ws_queue (UpdateFilter cx m s))"
proof -
  obtain names earliest limited where v: "wx_expiry_visit cx (wx_steady cx) (if m then [] else ws_rate_limited_plans s) = (names, earliest, limited)"
    by (cases "wx_expiry_visit cx (wx_steady cx) (if m then [] else ws_rate_limited_plans s)")
  obtain inc low timer where u: "core (UpdateFilter cx m s) = core (on_wq (SetFilter inc (EncodeArray (wx_pg cx) (full_plans (ops_of s))) low)
       (s\<lparr>ws_rate_limited_plans := limited, ws_rate_limit_timer := timer\<rparr>))"
    using v that by (auto simp: UpdateFilter_def Let_def GetFullPlanNames_def ScheduleReapFinished_core)
  note f = coreD [OF u]
  show "same_place s (UpdateFilter cx m s)" "ws_library (UpdateFilter cx m s) = ws_library s"
    "wq_disabled_full (ws_queue (UpdateFilter cx m s)) = wq_disabled_full (ws_queue s)"
    "wq_plans_exclude (ws_queue (UpdateFilter cx m s)) = EncodeArray (wx_pg cx) (full_plans (ops_of s))"
    using f by (auto simp: same_place_def on_wq_def SetFilter_fields)
  show "wq_running (ws_queue s) \<Longrightarrow> wq_plans_exclude (ws_queue s) \<noteq> EncodeArray (wx_pg cx) (full_plans (ops_of s)) \<Longrightarrow>
     wq_interrupt (ws_queue (UpdateFilter cx m s))"
    using f by (auto simp: on_wq_def SetFilter_fields)
qed

lemma switch_full_fields:
  "wq_disabled_full (Workshop_EnableFull q) = False" "wq_plans_exclude (Workshop_EnableFull q) = wq_plans_exclude q"
  "wq_running (Workshop_EnableFull q) = wq_running q" "wq_interrupt (Workshop_EnableFull q) = wq_interrupt q"
  "wq_enabled_state (Workshop_EnableFull q) = wq_enabled_state q" "wq_enabled_admin (Workshop_EnableFull q) = wq_enabled_admin q"
  by (simp_all add: Workshop_EnableFull_def Workshop_CheckEnabled_def Workshop_Reschedule_def Workshop_ScheduleTimer_def)

text \<open>The library keeps a property of its plans, whatever the directory shows.\<close>

definition plans_hold :: "(string \<Rightarrow> nat) \<Rightarrow> ws_node \<Rightarrow> bool" where
  "plans_hold lim s \<longleftrightarrow> (\<forall>l\<in>set (ws_library s). lib_all (plan_holds (\<lambda>n p. p_concurrency p = lim n)) (lb_plans l))"

definition cx_ok :: "pg_lib \<Rightarrow> (string \<Rightarrow> nat) \<Rightarrow> ws_ctx \<Rightarrow> bool" where
  "cx_ok pg lim cx \<longleftrightarrow> wx_pg cx = pg \<and> (\<forall>fs\<in>set (wx_fs cx). files_load (wx_sys cx) (\<lambda>n p. p_concurrency p = lim n) fs)"

lemma UpdateLibraryAndFilter_fields:
  "same_place s (UpdateLibraryAndFilter cx force s)"
  "wq_disabled_full (ws_queue (UpdateLibraryAndFilter cx force s)) = wq_disabled_full (ws_queue s)"
  "wq_plans_exclude (ws_queue (UpdateLibraryAndFilter cx force s)) = EncodeArray (wx_pg cx) (full_plans (ops_of s))"
  "wq_running (ws_queue s) \<Longrightarrow> wq_plans_exclude (ws_queue s) \<noteq> EncodeArray (wx_pg cx) (full_plans (ops_of s)) \<Longrightarrow>
     wq_interrupt (ws_queue (UpdateLibraryAndFilter cx force s))"
  "cx_ok pg lim cx \<Longrightarrow> plans_hold lim s \<Longrightarrow> plans_hold lim (UpdateLibraryAndFilter cx force s)"
proof -
  obtain m lib where l: "MultiLibrary_Update (wx_sys cx) (wx_fs cx) (wx_steady cx) force (ws_library s) = (m, lib)"
    by (cases "MultiLibrary_Update (wx_sys cx) (wx_fs cx) (wx_steady cx) force (ws_library s)")
  let ?s = "s\<lparr>ws_library := lib\<rparr>"
  have u: "UpdateLibraryAndFilter cx force s = UpdateFilter cx m ?s" by (simp add: UpdateLibraryAndFilter_def l)
  have p: "same_place s ?s" by (simp add: same_place_def)
  show "same_place s (UpdateLibraryAndFilter cx force s)"
    unfolding u by (rule same_place_trans [OF p UpdateFilter_fields(1)])
  show "wq_disabled_full (ws_queue (UpdateLibraryAndFilter cx force s)) = wq_disabled_full (ws_queue s)"
    "wq_plans_exclude (ws_queue (UpdateLibraryAndFilter cx force s)) = EncodeArray (wx_pg cx) (full_plans (ops_of s))"
    "wq_running (ws_queue s) \<Longrightarrow> wq_plans_exclude (ws_queue s) \<noteq> EncodeArray (wx_pg cx) (full_plans (ops_of s)) \<Longrightarrow>
      wq_interrupt (ws_queue (UpdateLibraryAndFilter cx force s))"
    using UpdateFilter_fields(5) [of ?s cx m] by (simp_all add: u UpdateFilter_fields)
  show "cx_ok pg lim cx \<Longrightarrow> plans_hold lim s \<Longrightarrow> plans_hold lim (UpdateLibraryAndFilter cx force s)"
    using loaded.MultiLibrary_Update_all [of "wx_fs cx" "wx_sys cx" "\<lambda>n p. p_concurrency p = lim n" "ws_library s" _ "wx_steady cx" force] l
    by (auto simp: u UpdateFilter_fields plans_hold_def cx_ok_def)
qed

lemma OnChildProcessExit_fields:
  "same_place s (Workshop_OnChildProcessExit cx s)"
  "wq_disabled_full (ws_queue (Workshop_OnChildProcessExit cx s)) \<longleftrightarrow> wq_disabled_full (ws_queue s) \<and> Workplace_IsFull (ws_workplace s)"
  "wq_plans_exclude (ws_queue (Workshop_OnChildProcessExit cx s)) = EncodeArray (wx_pg cx) (full_plans (ops_of s))"
  "wq_running (ws_queue s) \<Longrightarrow> wq_plans_exclude (ws_queue s) \<noteq> EncodeArray (wx_pg cx) (full_plans (ops_of s)) \<Longrightarrow>
     wq_interrupt (ws_queue (Workshop_OnChildProcessExit cx s))"
  "cx_ok pg lim cx \<Longrightarrow> plans_hold lim s \<Longrightarrow> plans_hold lim (Workshop_OnChildProcessExit cx s)"
proof -
  let ?s1 = "UpdateLibraryAndFilter cx False (ScheduleReapFinished s)"
  define s2 where "s2 = (if \<not> Workplace_IsFull (ws_workplace ?s1) then on_wq Workshop_EnableFull ?s1 else ?s1)"
  have c: "core (Workshop_OnChildProcessExit cx s) = core s2"
    by (simp add: Workshop_OnChildProcessExit_def s2_def Let_def core_act)
  note r = coreD [OF ScheduleReapFinished_core [of s]]
  note u = UpdateLibraryAndFilter_fields [where s = "ScheduleReapFinished s" and cx = cx and force = False]
  have p1: "same_place s ?s1" by (rule same_place_trans [OF same_place_core [OF ScheduleReapFinished_core] u(1)])
  have w: "ws_workplace ?s1 = ws_workplace s" using p1 by (simp add: same_place_def)
  have p2: "same_place ?s1 s2" by (auto simp: s2_def same_place_def on_wq_def switch_full_fields)
  show "same_place s (Workshop_OnChildProcessExit cx s)"
    by (rule same_place_trans [OF same_place_trans [OF p1 p2] same_place_core [OF c]])
  show "wq_disabled_full (ws_queue (Workshop_OnChildProcessExit cx s)) \<longleftrightarrow> wq_disabled_full (ws_queue s) \<and> Workplace_IsFull (ws_workplace s)"
    using u(2) by (simp add: coreD(4) [OF c] s2_def on_wq_def switch_full_fields w r)
  show "wq_plans_exclude (ws_queue (Workshop_OnChildProcessExit cx s)) = EncodeArray (wx_pg cx) (full_plans (ops_of s))"
    using u(3) by (simp add: coreD(3) [OF c] s2_def on_wq_def switch_full_fields r)
  show "wq_running (ws_queue s) \<Longrightarrow> wq_plans_exclude (ws_queue s) \<noteq> EncodeArray (wx_pg cx) (full_plans (ops_of s)) \<Longrightarrow>
     wq_interrupt (ws_queue (Workshop_OnChildProcessExit cx s))"
    using u(4) by (simp add: coreD(6) [OF c] s2_def on_wq_def switch_full_fields r)
  show "cx_ok pg lim cx \<Longrightarrow> plans_hold lim s \<Longrightarrow> plans_hold lim (Workshop_OnChildProcessExit cx s)"
    using u(5) [where pg = pg and lim = lim] by (simp add: plans_hold_def coreD(2) [OF c] s2_def on_wq_def r)
qed

section \<open>The capacity of the workplace\<close>

text \<open>Operators are removed by an exit or by cancelling.\<close>

definition remove_operators :: "(workshop_operator \<Rightarrow> bool) \<Rightarrow> ws_node \<Rightarrow> ws_node" where
  "remove_operators P = on_ww (\<lambda>w. w\<lparr>ww_operators := filter (\<lambda>op. \<not> P op) (ww_operators w)\<rparr>)"

lemma remove_operators_fields [simp]:
  "ops_of (remove_operators P s) = filter (\<lambda>op. \<not> P op) (ops_of s)" "ww_max_operators (ws_workplace (remove_operators P s)) = ww_max_operators (ws_workplace s)"
  "ws_queue (remove_operators P s) = ws_queue s" "ws_library (remove_operators P s) = ws_library s"
  by (simp_all add: remove_operators_def on_ww_def)

lemma Workplace_OnExit_eq: "Workplace_OnExit cx k s = Workshop_OnChildProcessExit cx (remove_operators (\<lambda>op. op_key op = k) s)"
  by (simp add: Workplace_OnExit_def remove_operators_def)

lemma cancel_fold_core: "core (fold (\<lambda>op s. ws_act (WsKill (wj_id (op_job op))) (Operator_Cancel cx op s)) gone s) = core s"
  by (induction gone arbitrary: s) (simp_all add: frame)

lemma cancel_operators_eq:
  obtains s2 where "core s2 = core (remove_operators P s)"
    "cancel_operators cx P s = (if filter P (ops_of s) = [] then s2 else Workshop_OnChildProcessExit cx s2)"
proof
  let ?s2 = "fold (\<lambda>op s. ws_act (WsKill (wj_id (op_job op))) (Operator_Cancel cx op s)) (filter P (ops_of s)) (remove_operators P s)"
  show "core ?s2 = core (remove_operators P s)" by (rule cancel_fold_core)
  show "cancel_operators cx P s = (if filter P (ops_of s) = [] then ?s2 else Workshop_OnChildProcessExit cx ?s2)"
    by (simp add: cancel_operators_def remove_operators_def Let_def)
qed

text \<open>Starting: the new operator is there, or it has already failed and is gone.\<close>

definition add_operator :: "workshop_job \<Rightarrow> plan \<Rightarrow> ws_node \<Rightarrow> ws_node" where
  "add_operator job p = on_ww (\<lambda>w. w\<lparr>ww_operators := ww_operators w @ [operator_init (ww_next_key w) job p], ww_next_key := ww_next_key w + 1\<rparr>)"

lemma add_operator_fields [simp]:
  "ops_of (add_operator job p s) = ops_of s @ [operator_init (ww_next_key (ws_workplace s)) job p]"
  "ww_max_operators (ws_workplace (add_operator job p s)) = ww_max_operators (ws_workplace s)"
  "ws_queue (add_operator job p s) = ws_queue s" "ws_library (add_operator job p s) = ws_library s"
  by (simp_all add: add_operator_def on_ww_def)

lemma operator_init_fields [simp]:
  "op_key (operator_init k job p) = k" "op_job (operator_init k job p) = job" "op_plan (operator_init k job p) = p"
  "GetPlanName (operator_init k job p) = wj_plan_name job" "op_exited (operator_init k job p) = False" "op_again (operator_init k job p) = -1"
  by (simp_all add: operator_init_def Operator_ScheduleTimeout_def GetPlanName_def)

lemma Workplace_Start_cases:
  obtains (running) "Workplace_Start cx job p s = add_operator job p s"
  | (failed) s1 where "core s1 = core (add_operator job p s)"
      "Workplace_Start cx job p s = Workshop_OnChildProcessExit cx (remove_operators (\<lambda>op. op_key op = ww_next_key (ws_workplace s)) s1)"
proof (cases "wx_start_error cx job")
  case None
  then show ?thesis using running by (simp add: Workplace_Start_def OnTaskCompletion_def Let_def add_operator_def on_ww_def)
next
  case (Some msg)
  let ?a = "add_operator job p s" and ?k = "ww_next_key (ws_workplace s)"
  obtain op where op: "find_operator ?k ?a = Some op"
    by (cases "find_operator ?k ?a") (auto simp: find_operator_def find_None_iff)
  have a: "on_ww (\<lambda>w. w\<lparr>ww_operators := ww_operators w @ [operator_init ?k job p], ww_next_key := ?k + 1\<rparr>) s = ?a"
    by (simp add: add_operator_def on_ww_def)
  have "Workplace_Start cx job p s = Workplace_OnExit cx ?k (SetJobDone cx (op_job op) (-5) (Some msg) ?a)"
    unfolding Workplace_Start_def OnTaskCompletion_def Let_def a by (simp add: Some op)
  then show ?thesis by (intro failed) (auto simp: Workplace_OnExit_eq frame)
qed

definition ws_gate_ops :: "(ws_node, ws_ctx \<times> workshop_job \<times> plan, ws_ctx \<times> (workshop_operator \<Rightarrow> bool)) gate_ops" where
  "ws_gate_ops = \<lparr>used_slots = (\<lambda>s. length (ops_of s)), slots = (\<lambda>s. ww_max_operators (ws_workplace s)),
     closed = (\<lambda>s. wq_disabled_full (ws_queue s)), start_one = (\<lambda>(cx, job, p). StartWorkshopJob cx job p),
     finish_some = (\<lambda>(cx, P). cancel_operators cx P)\<rparr>"

text \<open>The workplace after \<open>StartWorkshopJob()\<close>, and the queue's switch.\<close>

lemma StartWorkshopJob_fields:
  fixes cx job p s
  defines "s' \<equiv> StartWorkshopJob cx job p s" and "s1 \<equiv> Workplace_Start cx job p s"
  shows "ws_workplace s' = ws_workplace s1" "ws_library s' = ws_library s1"
    "wq_disabled_full (ws_queue s') \<longleftrightarrow> wq_disabled_full (ws_queue s1) \<or> Workplace_IsFull (ws_workplace s1)"
    "wq_plans_exclude (ws_queue s') = EncodeArray (wx_pg cx) (full_plans (ops_of s1))"
    "wq_running (ws_queue s') = wq_running (ws_queue s1)" "wq_interrupt (ws_queue s1) \<Longrightarrow> wq_interrupt (ws_queue s')"
    "wq_running (ws_queue s1) \<Longrightarrow> wq_plans_exclude (ws_queue s1) \<noteq> EncodeArray (wx_pg cx) (full_plans (ops_of s1)) \<Longrightarrow> wq_interrupt (ws_queue s')"
proof -
  define s2 where "s2 = (if Workplace_IsFull (ws_workplace s1) then on_wq Workshop_DisableFull s1 else s1)"
  have s': "s' = UpdateFilter cx False s2" by (simp add: s'_def StartWorkshopJob_def Let_def s2_def s1_def)
  have s2: "ws_workplace s2 = ws_workplace s1" "ws_library s2 = ws_library s1" "wq_plans_exclude (ws_queue s2) = wq_plans_exclude (ws_queue s1)"
    "wq_running (ws_queue s2) = wq_running (ws_queue s1)" "wq_interrupt (ws_queue s2) = wq_interrupt (ws_queue s1)"
    "wq_disabled_full (ws_queue s2) \<longleftrightarrow> wq_disabled_full (ws_queue s1) \<or> Workplace_IsFull (ws_workplace s1)"
    by (simp_all add: s2_def on_wq_def Workshop_DisableFull_def)
  note u = UpdateFilter_fields [where s = s2 and cx = cx and m = False]
  show "ws_workplace s' = ws_workplace s1" "ws_library s' = ws_library s1"
    "wq_disabled_full (ws_queue s') \<longleftrightarrow> wq_disabled_full (ws_queue s1) \<or> Workplace_IsFull (ws_workplace s1)"
    "wq_plans_exclude (ws_queue s') = EncodeArray (wx_pg cx) (full_plans (ops_of s1))"
    "wq_running (ws_queue s') = wq_running (ws_queue s1)" "wq_interrupt (ws_queue s1) \<Longrightarrow> wq_interrupt (ws_queue s')"
    "wq_running (ws_queue s1) \<Longrightarrow> wq_plans_exclude (ws_queue s1) \<noteq> EncodeArray (wx_pg cx) (full_plans (ops_of s1)) \<Longrightarrow> wq_interrupt (ws_queue s')"
    using u by (simp_all add: s' s2 same_place_def)
qed

lemma exit_gate:
  assumes "core s1 = core (remove_operators P s)"
  shows "ops_of (Workshop_OnChildProcessExit cx s1) = filter (\<lambda>op. \<not> P op) (ops_of s)"
    "ww_max_operators (ws_workplace (Workshop_OnChildProcessExit cx s1)) = ww_max_operators (ws_workplace s)"
    "wq_disabled_full (ws_queue (Workshop_OnChildProcessExit cx s1)) \<longleftrightarrow>
       wq_disabled_full (ws_queue s) \<and> length (filter (\<lambda>op. \<not> P op) (ops_of s)) = ww_max_operators (ws_workplace s)"
  using coreD [OF assms] OnChildProcessExit_fields(2) [of cx s1] same_placeD(1) [OF OnChildProcessExit_fields(1) [of s1 cx]]
  by (simp_all add: Workplace_IsFull_def)

lemma remove_operators_core: "core s1 = core s \<Longrightarrow> core (remove_operators P s1) = core (remove_operators P s)"
  by (auto simp: core_def remove_operators_def on_ww_def)

lemma Workplace_Start_gate:
  shows "length (ops_of (Workplace_Start cx job p s)) \<le> length (ops_of s) + 1"
    "ww_max_operators (ws_workplace (Workplace_Start cx job p s)) = ww_max_operators (ws_workplace s)"
    "\<not> wq_disabled_full (ws_queue s) \<Longrightarrow> \<not> wq_disabled_full (ws_queue (Workplace_Start cx job p s))"
proof -
  let ?t = "Workplace_Start cx job p s" and ?P = "\<lambda>op. op_key op = ww_next_key (ws_workplace s)"
  have "length (ops_of ?t) \<le> length (ops_of s) + 1 \<and> ww_max_operators (ws_workplace ?t) = ww_max_operators (ws_workplace s)
    \<and> (\<not> wq_disabled_full (ws_queue s) \<longrightarrow> \<not> wq_disabled_full (ws_queue ?t))"
  proof (cases rule: Workplace_Start_cases [of cx job p s])
    case (failed s1)
    note g = exit_gate [OF remove_operators_core [where P = ?P, OF failed(1)], of cx]
    show ?thesis unfolding failed(2) g by (simp add: le_SucI)
  qed simp
  then show "length (ops_of ?t) \<le> length (ops_of s) + 1" "ww_max_operators (ws_workplace ?t) = ww_max_operators (ws_workplace s)"
    "\<not> wq_disabled_full (ws_queue s) \<Longrightarrow> \<not> wq_disabled_full (ws_queue ?t)" by simp_all
qed

lemma cancel_operators_gate:
  "ops_of (cancel_operators cx P s) = filter (\<lambda>op. \<not> P op) (ops_of s)"
  "ww_max_operators (ws_workplace (cancel_operators cx P s)) = ww_max_operators (ws_workplace s)"
  "wq_disabled_full (ws_queue (cancel_operators cx P s)) \<longleftrightarrow> wq_disabled_full (ws_queue s) \<and>
     (filter P (ops_of s) = [] \<or> length (filter (\<lambda>op. \<not> P op) (ops_of s)) = ww_max_operators (ws_workplace s))"
proof -
  obtain s2 where s2: "core s2 = core (remove_operators P s)"
    "cancel_operators cx P s = (if filter P (ops_of s) = [] then s2 else Workshop_OnChildProcessExit cx s2)"
    by (rule cancel_operators_eq)
  show "ops_of (cancel_operators cx P s) = filter (\<lambda>op. \<not> P op) (ops_of s)"
    "ww_max_operators (ws_workplace (cancel_operators cx P s)) = ww_max_operators (ws_workplace s)"
    "wq_disabled_full (ws_queue (cancel_operators cx P s)) \<longleftrightarrow> wq_disabled_full (ws_queue s) \<and>
     (filter P (ops_of s) = [] \<or> length (filter (\<lambda>op. \<not> P op) (ops_of s)) = ww_max_operators (ws_workplace s))"
    using exit_gate [OF s2(1), of cx] coreD [OF s2(1)] by (simp_all add: s2(2) del: filter_empty_conv)
qed

lemma length_filter_same: "length (filter (\<lambda>x. \<not> P x) xs) = length xs \<longleftrightarrow> filter P xs = []"
proof -
  have "length (filter P xs) + length (filter (\<lambda>x. \<not> P x) xs) = length xs" by (rule sum_length_filter_compl)
  then show ?thesis by auto
qed

interpretation workshop_gate: capacity_gate ws_gate_ops
proof
  fix j :: "ws_ctx \<times> workshop_job \<times> plan" and k :: "ws_ctx \<times> (workshop_operator \<Rightarrow> bool)" and s :: ws_node
  obtain cx job p where j: "j = (cx, job, p)" by (cases j)
  obtain cx' P where k: "k = (cx', P)" by (cases k)
  note st = StartWorkshopJob_fields [where cx = cx and job = job and p = p and s = s]
    and w = Workplace_Start_gate [where cx = cx and job = job and p = p and s = s] and c = cancel_operators_gate [where cx = cx' and P = P and s = s]
  show "used_slots ws_gate_ops (start_one ws_gate_ops j s) \<le> used_slots ws_gate_ops s + 1"
    "slots ws_gate_ops (start_one ws_gate_ops j s) = slots ws_gate_ops s"
    using st w by (simp_all add: ws_gate_ops_def j)
  show "used_slots ws_gate_ops s < slots ws_gate_ops s \<Longrightarrow> \<not> closed ws_gate_ops s \<Longrightarrow>
      closed ws_gate_ops (start_one ws_gate_ops j s) \<longleftrightarrow> slots ws_gate_ops s \<le> used_slots ws_gate_ops (start_one ws_gate_ops j s)"
    using st(1,3) w by (auto simp: ws_gate_ops_def j Workplace_IsFull_def)
  show "used_slots ws_gate_ops (finish_some ws_gate_ops k s) \<le> used_slots ws_gate_ops s" "slots ws_gate_ops (finish_some ws_gate_ops k s) = slots ws_gate_ops s"
    using c by (simp_all add: ws_gate_ops_def k)
  show "used_slots ws_gate_ops s \<le> slots ws_gate_ops s \<Longrightarrow> (closed ws_gate_ops s \<Longrightarrow> used_slots ws_gate_ops s = slots ws_gate_ops s) \<Longrightarrow>
      closed ws_gate_ops (finish_some ws_gate_ops k s) \<longleftrightarrow> closed ws_gate_ops s \<and> used_slots ws_gate_ops (finish_some ws_gate_ops k s) = used_slots ws_gate_ops s"
    using c length_filter_same [of P "ops_of s"] by (auto simp: ws_gate_ops_def k)
qed

section \<open>The invariant\<close>

text \<open>
  \<open>lim\<close> is the limit of every plan, as its file says. The list of excluded plans is what
  \<open>GetFullPlanNames()\<close> returns for the present operators, or it was never set. \<open>cap\<close> is the
  concurrency of the node.
\<close>

definition ws_base :: "(string \<Rightarrow> nat) \<Rightarrow> nat \<Rightarrow> ws_node \<Rightarrow> bool" where
  "ws_base lim cap s \<longleftrightarrow> conforming lim (ops_of s) \<and> (\<forall>n. lim n \<noteq> 0 \<longrightarrow> plan_count n (ops_of s) \<le> lim n) \<and> plans_hold lim s
     \<and> ww_max_operators (ws_workplace s) = cap"

definition ws_inv :: "pg_lib \<Rightarrow> (string \<Rightarrow> nat) \<Rightarrow> nat \<Rightarrow> ws_node \<Rightarrow> bool" where
  "ws_inv pg lim cap s \<longleftrightarrow> gate_ok ws_gate_ops s \<and> ws_base lim cap s \<and>
     (wq_plans_exclude (ws_queue s) = [] \<or> wq_plans_exclude (ws_queue s) = EncodeArray pg (full_plans (ops_of s)))"

lemma gate_ok_ws:
  "gate_ok ws_gate_ops s \<longleftrightarrow> length (ops_of s) \<le> ww_max_operators (ws_workplace s) \<and>
     (wq_disabled_full (ws_queue s) \<longleftrightarrow> length (ops_of s) = ww_max_operators (ws_workplace s))"
  by (simp add: gate_ok_def ws_gate_ops_def)

lemma ws_inv_core: "core s' = core s \<Longrightarrow> ws_inv pg lim cap s \<Longrightarrow> ws_inv pg lim cap s'"
  using coreD [of s' s] by (simp add: ws_inv_def gate_ok_ws ws_base_def plans_hold_def)

lemma ws_base_core: "core s' = core s \<Longrightarrow> ws_base lim cap s \<Longrightarrow> ws_base lim cap s'"
  using coreD [of s' s] by (simp add: ws_base_def plans_hold_def)

lemma ws_base_remove: "ws_base lim cap s \<Longrightarrow> ws_base lim cap (remove_operators P s)"
  using plan_count_filter [of _ "\<lambda>op. \<not> P op" "ops_of s"]
  by (auto simp: ws_base_def plans_hold_def conforming_def intro: order_trans)

lemma ws_base_exit:
  assumes "cx_ok pg lim cx" "ws_base lim cap s"
  shows "ws_base lim cap (Workshop_OnChildProcessExit cx s)"
  using assms(2) OnChildProcessExit_fields(5) [OF assms(1)] same_placeD(1) [OF OnChildProcessExit_fields(1) [of s cx]]
  by (simp add: ws_base_def)

lemma ws_inv_UpdateFilter:
  assumes "cx_ok pg lim cx" "ws_inv pg lim cap s"
  shows "ws_inv pg lim cap (UpdateFilter cx m s)" "ws_inv pg lim cap (UpdateLibraryAndFilter cx force s)"
  using assms UpdateFilter_fields(1-4) [where s = s and cx = cx and m = m]
    UpdateLibraryAndFilter_fields(1-3) [where s = s and cx = cx and force = force]
    UpdateLibraryAndFilter_fields(5) [OF assms(1), of s force]
  by (simp_all add: ws_inv_def gate_ok_ws ws_base_def plans_hold_def same_place_def cx_ok_def)

lemma ws_inv_cancel:
  assumes "cx_ok pg lim cx" "ws_inv pg lim cap s"
  shows "ws_inv pg lim cap (cancel_operators cx P s)"
proof -
  obtain s2 where s2: "core s2 = core (remove_operators P s)"
    "cancel_operators cx P s = (if filter P (ops_of s) = [] then s2 else Workshop_OnChildProcessExit cx s2)"
    by (rule cancel_operators_eq)
  have g: "gate_ok ws_gate_ops (cancel_operators cx P s)"
    using workshop_gate.gate_ok_step [OF gate_step.FinishSome [where g = ws_gate_ops and k = "(cx, P)" and s = s]] assms(2)
    by (simp add: ws_gate_ops_def ws_inv_def)
  have b: "ws_base lim cap s2" using assms(2) by (intro ws_base_core [OF s2(1)] ws_base_remove) (simp add: ws_inv_def)
  show ?thesis
  proof (cases "filter P (ops_of s) = []")
    case True
    then have "ops_of s2 = ops_of s" using coreD(1) [OF s2(1)] by (simp add: filter_empty_conv filter_id_conv)
    then show ?thesis using True assms(2) g b coreD(3) [OF s2(1)] by (simp add: s2(2) ws_inv_def)
  next
    case False
    then show ?thesis using g ws_base_exit [OF assms(1) b] OnChildProcessExit_fields(3) [of cx s2] assms(1)
        same_placeD(1) [OF OnChildProcessExit_fields(1) [of s2 cx]]
      by (simp add: s2(2) ws_inv_def cx_ok_def)
  qed
qed

text \<open>An exit has the same effect on the workplace as cancelling.\<close>

lemma ws_inv_OnExit:
  assumes "cx_ok pg lim cx" "ws_inv pg lim cap s"
  shows "ws_inv pg lim cap (Workplace_OnExit cx k s)"
proof -
  let ?P = "\<lambda>op. op_key op = k"
  note g = exit_gate [OF refl, of cx ?P s]
  have "ws_base lim cap (Workplace_OnExit cx k s)"
    unfolding Workplace_OnExit_eq using assms by (intro ws_base_exit ws_base_remove) (auto simp: ws_inv_def)
  moreover have "wq_plans_exclude (ws_queue (Workplace_OnExit cx k s)) = EncodeArray pg (full_plans (ops_of (Workplace_OnExit cx k s)))"
    unfolding Workplace_OnExit_eq OnChildProcessExit_fields(3) g(1) using assms(1) by (simp add: cx_ok_def)
  moreover have "gate_ok ws_gate_ops (Workplace_OnExit cx k s)"
    unfolding gate_ok_ws Workplace_OnExit_eq g using assms(2) length_filter_le [of "\<lambda>op. \<not> ?P op" "ops_of s"]
    by (auto simp: ws_inv_def gate_ok_ws simp del: length_filter_le)
  ultimately show ?thesis by (simp add: ws_inv_def)
qed

lemma ws_inv_Start:
  assumes "cx_ok pg lim cx" "ws_inv pg lim cap s" "\<not> wq_disabled_full (ws_queue s)" "p_concurrency p = lim (wj_plan_name job)"
    "is_valid_plan_name (wj_plan_name job)" "lim (wj_plan_name job) \<noteq> 0 \<Longrightarrow> plan_count (wj_plan_name job) (ops_of s) < lim (wj_plan_name job)"
  shows "ws_inv pg lim cap (StartWorkshopJob cx job p s)"
proof -
  let ?s1 = "Workplace_Start cx job p s"
  have b: "ws_base lim cap (add_operator job p s)"
    using assms(2,4,5,6) by (auto simp: ws_inv_def ws_base_def conforming_def plans_hold_def)
  have "ws_base lim cap ?s1"
  proof (cases rule: Workplace_Start_cases [of cx job p s])
    case (failed s1)
    then show ?thesis using b by (simp add: ws_base_exit [OF assms(1)] ws_base_remove ws_base_core)
  qed (use b in simp)
  moreover have "gate_ok ws_gate_ops (StartWorkshopJob cx job p s)"
    using workshop_gate.gate_ok_step [OF gate_step.StartOne [where g = ws_gate_ops and j = "(cx, job, p)" and s = s]] assms(2,3)
    by (simp add: ws_gate_ops_def ws_inv_def)
  ultimately show ?thesis
    using StartWorkshopJob_fields(1,2,4) [of cx job p s] assms(1) by (simp add: ws_inv_def ws_base_def plans_hold_def cx_ok_def)
qed

section \<open>Running the queue keeps the limits\<close>

lemma GetWorkshopPlan_fields:
  assumes "GetWorkshopPlan cx n s = (r, s1)"
  shows "ws_workplace s1 = ws_workplace s" "ws_queue s1 = ws_queue s"
    "cx_ok pg lim cx \<Longrightarrow> plans_hold lim s \<Longrightarrow> plans_hold lim s1"
    "cx_ok pg lim cx \<Longrightarrow> plans_hold lim s \<Longrightarrow> r = Some p \<Longrightarrow> p_concurrency p = lim n \<and> is_valid_plan_name n"
proof -
  obtain lib where l: "MultiLibrary_Get (wx_sys cx) (wx_fs cx) (wx_steady cx) n (ws_library s) = (r, lib)" "s1 = s\<lparr>ws_library := lib\<rparr>"
    using assms by (auto simp: GetWorkshopPlan_def split: prod.splits)
  show "ws_workplace s1 = ws_workplace s" "ws_queue s1 = ws_queue s" by (simp_all add: l(2))
  note m = loaded.MultiLibrary_Get_all [OF _ _ l(1), where Q = "\<lambda>n p. p_concurrency p = lim n"]
  show "cx_ok pg lim cx \<Longrightarrow> plans_hold lim s \<Longrightarrow> plans_hold lim s1"
    using m(1) by (auto simp: cx_ok_def plans_hold_def l(2))
  show "cx_ok pg lim cx \<Longrightarrow> plans_hold lim s \<Longrightarrow> r = Some p \<Longrightarrow> p_concurrency p = lim n \<and> is_valid_plan_name n"
    using m(2) by (auto simp: cx_ok_def plans_hold_def plan_holds_def)
qed

text \<open>
  During a run the list of excluded plans cannot change without an interruption: \<open>running_with E\<close>
  says that \<open>E\<close> is still the list.
\<close>

definition running_with :: "string \<Rightarrow> ws_node \<Rightarrow> bool" where
  "running_with E s \<longleftrightarrow> wq_running (ws_queue s) \<and> (\<not> wq_interrupt (ws_queue s) \<longrightarrow> wq_plans_exclude (ws_queue s) = E)"

lemma running_with_core: "core s' = core s \<Longrightarrow> running_with E s \<Longrightarrow> running_with E s'"
  using coreD [of s' s] by (simp add: running_with_def)

lemma running_with_step:
  assumes "running_with E s" "wq_running (ws_queue s') = wq_running (ws_queue s)" "wq_interrupt (ws_queue s) \<Longrightarrow> wq_interrupt (ws_queue s')"
    "wq_running (ws_queue s) \<Longrightarrow> wq_plans_exclude (ws_queue s) \<noteq> wq_plans_exclude (ws_queue s') \<Longrightarrow> wq_interrupt (ws_queue s')"
  shows "running_with E s'"
  using assms by (cases "wq_plans_exclude (ws_queue s) = wq_plans_exclude (ws_queue s')") (auto simp: running_with_def)

lemma running_with_UpdateFilter: "running_with E s \<Longrightarrow> running_with E (UpdateFilter cx m s)"
  by (rule running_with_step [of E s]) (use UpdateFilter_fields(1,4,5) [where s = s and cx = cx and m = m] in \<open>simp_all add: same_place_def\<close>)

lemma running_with_exit: "running_with E s \<Longrightarrow> running_with E (Workshop_OnChildProcessExit cx s)"
  by (rule running_with_step [of E s]) (use OnChildProcessExit_fields(1,3,4) [where s = s and cx = cx] in \<open>simp_all add: same_place_def\<close>)

lemma running_with_Start:
  assumes "running_with E s"
  shows "running_with E (StartWorkshopJob cx job p s)"
proof -
  have "running_with E (Workplace_Start cx job p s)"
  proof (cases rule: Workplace_Start_cases [of cx job p s])
    case (failed s1)
    have "running_with E (remove_operators (\<lambda>op. op_key op = ww_next_key (ws_workplace s)) s1)"
      using coreD(3,5,6) [OF failed(1)] assms by (simp add: running_with_def)
    then show ?thesis unfolding failed(2) by (rule running_with_exit)
  qed (use assms in \<open>simp add: running_with_def\<close>)
  then show ?thesis
    by (rule running_with_step) (use StartWorkshopJob_fields(4-7) [of cx job p s] in simp_all)
qed

lemma check_local_cases:
  obtains (yes) s1 where "check_local cx job p s = (True, s1)" "core s1 = core s"
  | (full) "check_local cx job p s = (False, on_wq Workshop_DisableFull s)" "Workplace_IsFull (ws_workplace s)"
  | (limited) s1 where "check_local cx job p s = (False, UpdateFilter cx False s1)" "core s1 = core s"
proof (cases "Workplace_IsFull (ws_workplace s)")
  case True
  then show ?thesis using full by (simp add: check_local_def)
next
  case False
  obtain d s1 where r: "CheckRateLimits cx (wj_plan_name job) (p_rate_limits p) s = (d, s1)"
    by (cases "CheckRateLimits cx (wj_plan_name job) (p_rate_limits p) s")
  have c: "core s1 = core s" using core_CheckRateLimits [of cx "wj_plan_name job" "p_rate_limits p" s] r by simp
  show ?thesis
  proof (cases "0 < d")
    case True
    then show ?thesis using False r c
      by (intro limited [of "s1\<lparr>ws_rate_limited_plans := wx_expiry_set cx (wj_plan_name job) (wx_steady cx + d) (ws_rate_limited_plans s1)\<rparr>"])
        (simp_all add: check_local_def core_def)
  next
    case no: False
    show ?thesis using False no r c by (intro yes [of s1]) (simp_all add: check_local_def)
  qed
qed

lemma CheckWorkshopJob_ok:
  assumes "CheckWorkshopJob cx job p s = (ok, s')" "cx_ok pg lim cx" "ws_inv pg lim cap s" "running_with E s"
  shows "ok \<Longrightarrow> core s' = core s" "ws_inv pg lim cap s'" "running_with E s'"
proof -
  have "(ok \<longrightarrow> core s' = core s) \<and> ws_inv pg lim cap s' \<and> running_with E s'"
  proof (cases "\<exists>m. ws_sticky s = Some m \<and> wj_sticky_id job \<noteq> [] \<and> \<not> snd (IsLocal (wx_score cx) m (wj_sticky_id job))")
    case True
    then have "\<not> ok" "s' = Workshop_InsertStickyNonLocal cx (wj_sticky_id job) s" using assms(1) by (auto simp: CheckWorkshopJob_def)
    then show ?thesis using assms(3,4) by (auto intro: ws_inv_core running_with_core simp: frame)
  next
    case False
    then have c: "check_local cx job p s = (ok, s')" using assms(1) by (auto simp: CheckWorkshopJob_def split: option.splits if_splits)
    show ?thesis
    proof (cases rule: check_local_cases [of cx job p s])
      case (yes s1)
      then show ?thesis using c assms(3,4) ws_inv_core running_with_core by auto
    next
      case full
      then have "\<not> ok" "s' = on_wq Workshop_DisableFull s" using c by simp_all
      then show ?thesis using full(2) assms(3,4)
        by (auto simp: ws_inv_def gate_ok_ws ws_base_def plans_hold_def running_with_def on_wq_def Workshop_DisableFull_def Workplace_IsFull_def)
    next
      case (limited s1)
      then show ?thesis using c assms(2-4) ws_inv_UpdateFilter(1) [OF assms(2)] running_with_UpdateFilter ws_inv_core running_with_core by auto
    qed
  qed
  then show "ok \<Longrightarrow> core s' = core s" "ws_inv pg lim cap s'" "running_with E s'" by auto
qed

lemma MakeJob_plan: "MakeJob row = Inr job \<Longrightarrow> wj_plan_name job = plan_name row"
  by (auto simp: MakeJob_def Let_def split: if_splits)

lemma excluded_below_limit:
  assumes "pg_text pg" "ws_inv pg lim cap s" "wq_plans_exclude (ws_queue s) = E" "E \<noteq> []" "array_in pg E = Some exc" "n \<notin> set exc" "lim n \<noteq> 0"
  shows "plan_count n (ops_of s) < lim n"
proof -
  have c: "conforming lim (ops_of s)" using assms(2) by (simp add: ws_inv_def ws_base_def)
  have "E = EncodeArray pg (full_plans (ops_of s))" using assms(2-4) by (auto simp: ws_inv_def)
  then have "exc = full_plans (ops_of s)" using pg_text.array_in_Encode [OF assms(1) full_plans_plain [OF c]] assms(5) by simp
  then show ?thesis using full_plans_iff(1) [OF c, of n] assms(6,7) by auto
qed

lemma RunResult_ok:
  assumes "pg_text pg" "cx_ok pg lim cx" "E \<noteq> []" "array_in pg E = Some exc"
  shows "(\<And>row. row \<in> set rows \<Longrightarrow> plan_name row \<notin> set exc) \<Longrightarrow> ws_inv pg lim cap s \<Longrightarrow> running_with E s \<Longrightarrow>
    ws_inv pg lim cap (snd (RunResult cx rows s)) \<and> running_with E (snd (RunResult cx rows s))"
proof (induction rows arbitrary: s)
  case (Cons row rows)
  show ?case
  proof (cases "\<not> Workshop_IsEnabled (ws_queue s) \<or> wq_interrupt (ws_queue s)")
    case False
    show ?thesis
    proof (cases "MakeJob row")
      case (Inr job)
      let ?n = "wj_plan_name job"
      have n: "?n \<notin> set exc" using Cons.prems(1) [of row] MakeJob_plan [OF Inr] by simp
      obtain r s1 where g: "GetWorkshopPlan cx ?n s = (r, s1)" by (cases "GetWorkshopPlan cx ?n s")
      note gf = GetWorkshopPlan_fields [OF g]
      have s1: "ws_inv pg lim cap s1" "running_with E s1"
        using Cons.prems(2,3) gf(1,2) gf(3) [OF assms(2)] by (auto simp: ws_inv_def gate_ok_ws ws_base_def running_with_def)
      show ?thesis
      proof (cases r)
        case None
        then show ?thesis using Cons.IH [of s1] Cons.prems(1) s1 False Inr g by simp
      next
        case (Some p)
        obtain ok s2 where ch: "CheckWorkshopJob cx job p s1 = (ok, s2)" by (cases "CheckWorkshopJob cx job p s1")
        note s2 = CheckWorkshopJob_ok [OF ch assms(2) s1]
        show ?thesis
        proof (cases ok)
          case no: False
          then show ?thesis using Cons.IH [of s2] Cons.prems(1) s2 False Inr g Some ch by simp
        next
          case True
          obtain res s3 where cl: "get_and_claim_job cx job (p_timeout p) s2 = (res, s3)" by (cases "get_and_claim_job cx job (p_timeout p) s2")
          have c3: "core s3 = core s2" using core_reports(6) [of cx job "p_timeout p" s2] cl by simp
          have s3: "ws_inv pg lim cap s3" "running_with E s3" using ws_inv_core [OF c3] running_with_core [OF c3] s2 by simp_all
          have q: "wq_disabled_full (ws_queue s3) = wq_disabled_full (ws_queue s)" "wq_interrupt (ws_queue s3) = wq_interrupt (ws_queue s)"
            using coreD(4,6) [OF c3] coreD(4,6) [OF s2(1) [OF True]] gf(2) by simp_all
          have st: "ws_inv pg lim cap (StartWorkshopJob cx job p s3)"
          proof (rule ws_inv_Start [OF assms(2) s3(1)])
            show "\<not> wq_disabled_full (ws_queue s3)" using False q by (simp add: Workshop_IsEnabled_def)
            show "p_concurrency p = lim ?n" "is_valid_plan_name ?n"
              using gf(4) [OF assms(2) _ Some] Cons.prems(2) by (simp_all add: ws_inv_def ws_base_def)
            show "lim ?n \<noteq> 0 \<Longrightarrow> plan_count ?n (ops_of s3) < lim ?n"
              using excluded_below_limit [OF assms(1) s3(1) _ assms(3,4) n] s3(2) False q by (simp add: running_with_def)
          qed
          have eq: "RunResult cx (row # rows) s = (case res of Inl e \<Rightarrow> (Inl e, s3)
              | Inr b \<Rightarrow> if b then RunResult cx rows (StartWorkshopJob cx job p s3) else RunResult cx rows s3)"
            using False Inr g Some ch True cl by (cases res) (simp_all split: bool.splits)
          show ?thesis unfolding eq
            using Cons.IH [of s3] Cons.IH [of "StartWorkshopJob cx job p s3"] Cons.prems(1) s3 st running_with_Start [OF s3(2)]
            by (simp split: sum.splits)
        qed
      qed
    qed (use Cons.prems False in simp)
  qed (use Cons.prems in auto)
qed simp

lemma selected_not_excluded:
  assumes "pg_select_new_jobs pg sch snl now inc exc low limit t = Inr rows"
  obtains ex where "array_in pg exc = Some ex" "\<And>row. row \<in> set rows \<Longrightarrow> plan_name row \<notin> set ex"
proof -
  obtain i ex lo where a: "array_in pg inc = Some i" "array_in pg exc = Some ex" "array_in pg low = Some lo" "rows = sql_select_new_jobs sch snl now i ex lo limit t"
    using assms by (auto simp: pg_select_new_jobs_def split: option.splits)
  have "plan_name row \<notin> set ex" if "row \<in> set rows" for row
    using set_take_subset [of limit "sort_key (\<lambda>r. (priority r, time_created r)) (filter (new_job sch snl now i ex lo) t)"] that
    by (auto simp: a(4) sql_select_new_jobs_def new_job_def)
  then show ?thesis using that a(2) by blast
qed

lemma ws_try_Inr: "ws_try f s = (Inr x, s') \<Longrightarrow> \<exists>db. fst (f db) = Inr x"
  by (auto simp: ws_try_def Let_def case_prod_beta split: if_splits)

lemma SelectAndRun_ok:
  assumes "pg_text pg" "cx_ok pg lim cx" "ws_inv pg lim cap s" "running_with E s" "E \<noteq> []"
  shows "ws_inv pg lim cap (snd (SelectAndRun cx inc E low s)) \<and> running_with E (snd (SelectAndRun cx inc E low s))"
proof -
  define q where "q = (\<lambda>db :: ws_db. (map_sum (\<lambda>e. e) (map (selected_columns (sd_schema db)))
      (pg_select_new_jobs (wx_pg cx) (sd_schema db) (sd_sticky db) (sd_now db) inc E low 16 (sd_jobs db)), db))"
  obtain r s1 where r: "ws_try q s = (r, s1)" by (cases "ws_try q s")
  have c: "core s1 = core s" using core_try [of q s] r by simp
  have s1: "ws_inv pg lim cap s1" "running_with E s1" using ws_inv_core [OF c assms(3)] running_with_core [OF c assms(4)] .
  show ?thesis
  proof (cases r)
    case (Inl e)
    then show ?thesis using s1 r by (simp add: SelectAndRun_def q_def)
  next
    case (Inr rows)
    then obtain db where db: "fst (q db) = Inr rows" using ws_try_Inr [of q s rows s1] r by blast
    then obtain rs where rs: "pg_select_new_jobs pg (sd_schema db) (sd_sticky db) (sd_now db) inc E low 16 (sd_jobs db) = Inr rs"
      "rows = map (selected_columns (sd_schema db)) rs"
      using assms(2) by (cases "pg_select_new_jobs pg (sd_schema db) (sd_sticky db) (sd_now db) inc E low 16 (sd_jobs db)") (auto simp: q_def cx_ok_def)
    obtain ex where ex: "array_in pg E = Some ex" "\<And>row. row \<in> set rs \<Longrightarrow> plan_name row \<notin> set ex" using selected_not_excluded [OF rs(1)] by blast
    have "row \<in> set rows \<Longrightarrow> plan_name row \<notin> set ex" for row using ex(2) by (auto simp: rs(2) selected_columns_def)
    from RunResult_ok [OF assms(1,2,5) ex(1) this s1]
    have "ws_inv pg lim cap (snd (RunResult cx rows s1)) \<and> running_with E (snd (RunResult cx rows s1))" .
    then show ?thesis using Inr r by (cases "RunResult cx rows s1"; cases "fst (RunResult cx rows s1)") (simp_all add: SelectAndRun_def q_def)
  qed
qed

lemma update_timeout_core: "core (snd (update_timeout cx full s)) = core s"
  using core_GetNextScheduled [of cx s]
  by (cases "GetNextScheduled cx s"; cases "fst (GetNextScheduled cx s)") (auto simp: update_timeout_def frame)

lemma Run2_ok:
  assumes "pg_text pg" "cx_ok pg lim cx" "ws_inv pg lim cap s" "wq_running (ws_queue s)"
  shows "ws_inv pg lim cap (snd (Run2 cx s))"
proof (cases "wq_plans_include (ws_queue s) = [] \<or> wq_plans_include (ws_queue s) = ''{}'' \<or> wq_plans_exclude (ws_queue s) = []")
  case True
  then show ?thesis using assms(3) by (simp add: Run2_def)
next
  case False
  obtain r1 s1 where r1: "ExpireJobs cx s = (r1, s1)" by (cases "ExpireJobs cx s")
  have c1: "core s1 = core s" using core_ExpireJobs [of cx s] r1 by simp
  define s2 where "s2 = on_wq (\<lambda>q. q\<lparr>wq_interrupt := False\<rparr>) s1"
  let ?E = "wq_plans_exclude (ws_queue s2)"
  have s2: "ws_inv pg lim cap s2" "running_with ?E s2" "?E \<noteq> []"
    using ws_inv_core [OF c1 assms(3)] coreD(3,5) [OF c1] assms(4) False
    by (auto simp: s2_def ws_inv_def gate_ok_ws ws_base_def plans_hold_def on_wq_def running_with_def)
  obtain r3 s3 where r3: "SelectAndRun cx (wq_plans_include (ws_queue s2)) ?E (wq_plans_lowprio (ws_queue s2)) s2 = (r3, s3)"
    by (cases "SelectAndRun cx (wq_plans_include (ws_queue s2)) ?E (wq_plans_lowprio (ws_queue s2)) s2")
  have s3: "ws_inv pg lim cap s3" "running_with ?E s3"
    using SelectAndRun_ok [OF assms(1,2) s2, of "wq_plans_include (ws_queue s2)" "wq_plans_lowprio (ws_queue s2)"] r3 by simp_all
  define more where "more \<longleftrightarrow> Workshop_IsEnabled (ws_queue s3) \<and> \<not> wq_interrupt (ws_queue s3) \<and> wq_plans_lowprio (ws_queue s3) \<noteq> ''{}''"
  obtain r4 s4 where r4: "SelectAndRun cx (wq_plans_lowprio (ws_queue s3)) (wq_plans_exclude (ws_queue s3)) ''{}'' s3 = (r4, s4)"
    by (cases "SelectAndRun cx (wq_plans_lowprio (ws_queue s3)) (wq_plans_exclude (ws_queue s3)) ''{}'' s3")
  have s4: "ws_inv pg lim cap s4" if more
  proof -
    have "wq_plans_exclude (ws_queue s3) = ?E" using that s3(2) by (simp add: more_def running_with_def)
    then show ?thesis using SelectAndRun_ok [OF assms(1,2) s3 s2(3), of "wq_plans_lowprio (ws_queue s3)" "''{}''"] r4 by simp
  qed
  have eq: "Run2 cx s = (case r1 of Inl e \<Rightarrow> (Inl e, s1) | Inr _ \<Rightarrow> (case r3 of Inl e \<Rightarrow> (Inl e, s3)
      | Inr full \<Rightarrow> if more then (case r4 of Inl e \<Rightarrow> (Inl e, s4) | Inr full' \<Rightarrow> update_timeout cx (full \<or> full') s4) else update_timeout cx full s3))"
    using False r1 r3 r4 by (cases r1; cases r3; cases r4)
      (simp_all add: Run2_def Let_def s2_def [symmetric] more_def [symmetric])
  show ?thesis unfolding eq
    using ws_inv_core [OF c1 assms(3)] s3(1) s4 ws_inv_core [OF update_timeout_core] by (auto split: sum.splits)
qed

lemma ws_inv_queue:
  assumes "wq_plans_exclude (f (ws_queue s)) = wq_plans_exclude (ws_queue s)" "wq_disabled_full (f (ws_queue s)) = wq_disabled_full (ws_queue s)"
  shows "ws_inv pg lim cap (on_wq f s) \<longleftrightarrow> ws_inv pg lim cap s"
  using assms by (simp add: ws_inv_def gate_ok_ws ws_base_def plans_hold_def on_wq_def)

lemma Workshop_Run_ok:
  assumes "pg_text pg" "cx_ok pg lim cx" "ws_inv pg lim cap s"
  shows "ws_inv pg lim cap (Workshop_Run cx s)"
proof (cases "Workshop_IsEnabled (ws_queue s)")
  case True
  define s1 where "s1 = on_wq (\<lambda>q. (Workshop_ScheduleCheckNotify q)\<lparr>wq_running := True\<rparr>) s"
  have s1: "ws_inv pg lim cap s1" "wq_running (ws_queue s1)"
    using assms(3) ws_inv_queue [of "\<lambda>q. (Workshop_ScheduleCheckNotify q)\<lparr>wq_running := True\<rparr>" s]
    by (simp_all add: s1_def Workshop_ScheduleCheckNotify_def on_wq_def)
  obtain r s2 where r: "Run2 cx s1 = (r, s2)" by (cases "Run2 cx s1")
  have "ws_inv pg lim cap s2" using Run2_ok [OF assms(1,2) s1] r by simp
  then have "ws_inv pg lim cap (case r of Inl e \<Rightarrow> ws_CheckError cx e s2 | Inr _ \<Rightarrow> s2)"
    using ws_inv_core [OF core_CheckError] by (cases r) simp_all
  moreover have "Workshop_Run cx s = on_wq (\<lambda>q. q\<lparr>wq_running := False\<rparr>) (case r of Inl e \<Rightarrow> ws_CheckError cx e s2 | Inr _ \<Rightarrow> s2)"
    using True r by (cases r) (simp_all add: Workshop_Run_def s1_def [symmetric] Let_def)
  ultimately show ?thesis by (simp add: ws_inv_queue)
qed (use assms(3) in \<open>simp add: Workshop_Run_def\<close>)

section \<open>Events\<close>

text \<open>
  Everything that happens to a partition. Numbers are the keys of operators; \<open>WsSpawned\<close> is the
  successful end of \<open>Start2()\<close> with the child tag and the CPU usage found, \<open>WsCluster\<close> and
  \<open>WsDatabase\<close> are what other nodes do. The result is \<open>None\<close> when a null pointer is
  dereferenced.
\<close>

datatype ws_event = WsTimer | WsProgressNotifyTimer | WsReapTimer | WsRateLimitTimer | WsConnected | WsDisconnected | WsNotified string
  | WsExit nat int "control_outcome option list" "string list" "nat option" | WsTimeout nat | WsProgress nat nat
  | WsControl nat "control_outcome option" | WsLogLine nat string | WsSpawned nat string "int option" | WsStartFailed nat string
  | WsSetStateEnabled bool | WsDisableQueue | WsEnableQueue | WsBeginShutdown | WsCancelJob string | WsTerminateChildren string
  | WsUpdateLibrary bool | WsUpdateFilter bool | WsStickyChanged | WsCluster "sticky_manager option" | WsDatabase ws_db

definition Operator_spawned :: "nat \<Rightarrow> bool \<Rightarrow> string \<Rightarrow> int option \<Rightarrow> workshop_operator \<Rightarrow> workshop_operator" where
  "Operator_spawned max_log enable_journal tag usage op =
     (let op1 = InitControl (InitLog max_log enable_journal op)
      in op1\<lparr>op_child_tag := (if op_child_tag op1 = [] then tag else op_child_tag op1), op_cpu_usage_start := usage\<rparr>)"

fun ws_handle :: "ws_ctx \<Rightarrow> ws_event \<Rightarrow> ws_node \<Rightarrow> ws_node option" where
  "ws_handle cx WsTimer s = Some (Workshop_OnTimer cx s)"
| "ws_handle cx WsProgressNotifyTimer s = Some (OnProgressNotifyTimer cx s)"
| "ws_handle cx WsReapTimer s = OnReapTimer cx s"
| "ws_handle cx WsRateLimitTimer s = Some (OnRateLimitTimer cx s)"
| "ws_handle cx WsConnected s = Some (snd (Workshop_OnConnect cx (on_wq (\<lambda>q. q\<lparr>wq_db_ready := True\<rparr>) s)))"
| "ws_handle cx WsDisconnected s = Some (on_wq (\<lambda>q. (Workshop_OnDisconnect q)\<lparr>wq_db_ready := False\<rparr>) s)"
| "ws_handle cx (WsNotified n) s = Some (on_wq (Workshop_OnNotify n) s)"
| "ws_handle cx (WsExit k st pending rest usage) s = Some (Operator_OnChildProcessExit cx k st pending rest usage s)"
| "ws_handle cx (WsTimeout k) s = Some (Operator_OnTimeout cx k s)"
| "ws_handle cx (WsProgress k n) s = Some (Operator_OnProgress cx k n s)"
| "ws_handle cx (WsControl k c) s = Some (Operator_OnControl cx k c s)"
| "ws_handle cx (WsLogLine k l) s = Some (upd_operator k (\<lambda>op. op\<lparr>op_log := Log_OnPipeLine l (op_log op)\<rparr>) s)"
| "ws_handle cx (WsSpawned k tag usage) s = Some (upd_operator k (Operator_spawned (ws_max_log s) (ww_enable_journal (ws_workplace s)) tag usage) s)"
| "ws_handle cx (WsStartFailed k msg) s = Some (OnTaskCompletion cx k (Some msg) s)"
| "ws_handle cx (WsSetStateEnabled b) s = Some (Partition_SetStateEnabled b s)"
| "ws_handle cx WsDisableQueue s = Some (Partition_DisableQueue s)"
| "ws_handle cx WsEnableQueue s = Some (Partition_EnableQueue s)"
| "ws_handle cx WsBeginShutdown s = Some (Workshop_BeginShutdown s)"
| "ws_handle cx (WsCancelJob j) s = Some (Workplace_CancelJob cx j s)"
| "ws_handle cx (WsTerminateChildren t) s = Some (Workplace_CancelTag cx t s)"
| "ws_handle cx (WsUpdateLibrary force) s = Some (UpdateLibraryAndFilter cx force s)"
| "ws_handle cx (WsUpdateFilter m) s = Some (UpdateFilter cx m s)"
| "ws_handle cx WsStickyChanged s = Some (Workshop_OnStickyChanged cx s)"
| "ws_handle cx (WsCluster m) s = Some (s\<lparr>ws_sticky := m\<rparr>)"
| "ws_handle cx (WsDatabase db) s = Some (s\<lparr>ws_db := db\<rparr>)"

fun ws_run :: "(ws_ctx \<times> ws_event) list \<Rightarrow> ws_node \<Rightarrow> ws_node option" where
  "ws_run [] s = Some s"
| "ws_run ((cx, e) # es) s = (case ws_handle cx e s of None \<Rightarrow> None | Some s' \<Rightarrow> ws_run es s')"

text \<open>Changes of an operator that keep its job and its plan.\<close>

lemma ws_inv_upd:
  assumes "\<And>op. op_job (f op) = op_job op \<and> op_plan (f op) = op_plan op" "ws_inv pg lim cap s"
  shows "ws_inv pg lim cap (upd_operator k f s)"
proof -
  let ?g = "\<lambda>op. if op_key op = k then f op else op"
  have same: "op_job (?g op) = op_job op" "op_plan (?g op) = op_plan op" "GetPlanName (?g op) = GetPlanName op" for op
    using assms(1) by (simp_all add: GetPlanName_def)
  have ops: "ops_of (upd_operator k f s) = map ?g (ops_of s)" by (simp add: upd_operator_def on_ww_def)
  have rest: "ww_max_operators (ws_workplace (upd_operator k f s)) = ww_max_operators (ws_workplace s)"
    "ws_library (upd_operator k f s) = ws_library s" "ws_queue (upd_operator k f s) = ws_queue s"
    by (simp_all add: upd_operator_def on_ww_def)
  have cnt: "plan_count n (map ?g ops) = plan_count n ops" for n ops
    by (induction ops) (simp_all only: plan_count_def list.map filter.simps same split: if_splits, simp_all)
  have fold: "fold full_step (map ?g ops) x = fold full_step ops x" for ops x
    by (induction ops arbitrary: x) (simp_all only: fold_map comp_def full_step_def same fold.simps list.map)
  have full: "full_plans (map ?g ops) = full_plans ops" for ops by (simp only: full_plans_def fold)
  have conf: "conforming lim (map ?g (ops_of s))" using assms by (auto simp: ws_inv_def ws_base_def conforming_def GetPlanName_def)
  show ?thesis
    using assms(2) conf unfolding ws_inv_def gate_ok_ws ws_base_def plans_hold_def rest ops cnt full by simp
qed

text \<open>What the reports of an operator keep.\<close>

lemma ws_inv_OnControl: "ws_inv pg lim cap s \<Longrightarrow> ws_inv pg lim cap (Operator_OnControl cx k c s)"
  by (auto simp: Operator_OnControl_def OnControlClosed_def OnControlAgain_def OnControlSetEnv_def Operator_OnProgress_def frame
      Operator_ScheduleTimeout_def intro!: ws_inv_upd intro: ws_inv_core split: option.splits control_outcome.splits)

lemma ws_inv_ReceiveAll: "ws_inv pg lim cap s \<Longrightarrow> ws_inv pg lim cap (ReceiveAll cx k cs s)"
  by (induction cx k cs s rule: ReceiveAll.induct) (auto simp: OnControlClosed_def ws_inv_OnControl intro: ws_inv_upd)

lemma ws_inv_drain: "ws_inv pg lim cap s \<Longrightarrow> ws_inv pg lim cap (Operator_drain cx k pending rest s)"
  by (auto simp: Operator_drain_def Let_def intro!: ws_inv_upd ws_inv_ReceiveAll split: option.splits)

lemma core_Operator_report [frame]: "core (Operator_report cx st usage op s) = core s"
  by (simp add: Operator_report_def Let_def frame split: option.splits)

lemma ws_inv_process_exit:
  assumes "cx_ok pg lim cx" "ws_inv pg lim cap s"
  shows "ws_inv pg lim cap (Operator_OnChildProcessExit cx k st pending rest usage s)"
  using assms(2) ws_inv_OnExit [OF assms(1) ws_inv_core [OF core_Operator_report ws_inv_drain [OF assms(2)]]]
  by (simp add: Operator_OnChildProcessExit_def Let_def split: option.splits)

lemma reap_plans_core: "reap_plans cx ps (b, s) = Some (b', s') \<Longrightarrow> core s' = core s"
proof (induction cx ps "(b, s)" arbitrary: b s rule: reap_plans.induct)
  case (3 cx n p ps found s)
  show ?case
  proof (cases "p_reap_finished p = []")
    case True
    then show ?thesis using 3 by simp
  next
    case False
    obtain m s1 where r: "ReapFinishedJobs cx n (p_reap_finished p) s = (m, s1)" by (cases "ReapFinishedJobs cx n (p_reap_finished p) s")
    have "core s' = core s1" using 3(2) [OF False r [symmetric] refl] 3(3) False r by (simp add: Let_def)
    moreover have "core s1 = core s" using core_ReapFinishedJobs [of cx n "p_reap_finished p" s] r by simp
    ultimately show ?thesis by simp
  qed
qed auto

lemma OnReapTimer_core:
  assumes "OnReapTimer cx s = Some s'"
  shows "core s' = core s"
proof -
  let ?s = "s\<lparr>ws_reap_timer := None\<rparr>"
  obtain b t where r: "reap_plans cx (MultiLibrary_VisitAvailable (wx_steady cx) (ws_library s)) (False, ?s) = Some (b, t)"
    "s' = (if b then ScheduleReapFinished t else t)"
    using assms by (auto simp: OnReapTimer_def split: option.splits)
  have "core ?s = core s" by (simp add: core_def)
  then show ?thesis using reap_plans_core [OF r(1)] ScheduleReapFinished_core [of t] by (simp add: r(2))
qed

lemma ws_inv_other [simp]:
  "ws_inv pg lim cap (s\<lparr>ws_sticky := m\<rparr>) \<longleftrightarrow> ws_inv pg lim cap s" "ws_inv pg lim cap (s\<lparr>ws_db := db\<rparr>) \<longleftrightarrow> ws_inv pg lim cap s"
  by (simp_all add: ws_inv_def gate_ok_ws ws_base_def plans_hold_def)

lemma switch_queue_ok:
  "ws_inv pg lim cap (EnableDisableSticky s) \<longleftrightarrow> ws_inv pg lim cap s"
  "ws_inv pg lim cap (on_wq (Workshop_SetStateEnabled b) s) \<longleftrightarrow> ws_inv pg lim cap s" "ws_inv pg lim cap (on_wq Workshop_DisableAdmin s) \<longleftrightarrow> ws_inv pg lim cap s"
  "ws_inv pg lim cap (on_wq Workshop_EnableAdmin s) \<longleftrightarrow> ws_inv pg lim cap s"
proof -
  show "ws_inv pg lim cap (EnableDisableSticky s) \<longleftrightarrow> ws_inv pg lim cap s"
    by (simp add: EnableDisableSticky_def split: option.splits)
qed (rule ws_inv_queue; simp add: Workshop_SetStateEnabled_def Workshop_DisableAdmin_def Workshop_EnableAdmin_def Workshop_CheckEnabled_def
      Workshop_Reschedule_def Workshop_ScheduleTimer_def)+

lemma ws_handle_ok:
  assumes "pg_text pg" "cx_ok pg lim cx" "ws_inv pg lim cap s" "ws_handle cx e s = Some s'"
  shows "ws_inv pg lim cap s'"
proof (cases e)
  case WsTimer
  then show ?thesis using assms Workshop_Run_ok [OF assms(1,2)] ws_inv_core [OF core_wq(5)] by (auto simp: Workshop_OnTimer_def)
next
  case WsConnected
  then have "s' = snd (Workshop_OnConnect cx (on_wq (\<lambda>q. q\<lparr>wq_db_ready := True\<rparr>) s))" using assms(4) by simp
  moreover have "ws_inv pg lim cap (on_wq (\<lambda>q. q\<lparr>wq_db_ready := True\<rparr>) s)" using assms(3) by (simp add: ws_inv_queue)
  ultimately show ?thesis using ws_inv_core [OF core_OnConnect] by simp
next
  case (WsStartFailed k msg)
  then show ?thesis using assms ws_inv_OnExit [OF assms(2)] ws_inv_core [OF core_SetJobDone] by (auto simp: OnTaskCompletion_def split: option.splits)
next
  case (WsTimeout k)
  then show ?thesis using assms ws_inv_OnExit [OF assms(2) ws_inv_core [OF core_act ws_inv_core [OF core_SetJobDone]]]
    by (auto simp: Operator_OnTimeout_def Workplace_OnTimeout_def split: option.splits)
next
  case WsRateLimitTimer
  have "ws_inv pg lim cap (s\<lparr>ws_rate_limit_timer := None\<rparr>)" by (rule ws_inv_core [OF _ assms(3)]) (simp add: core_def)
  then show ?thesis using WsRateLimitTimer assms(4) ws_inv_UpdateFilter(1) [OF assms(2)] by (auto simp: OnRateLimitTimer_def)
next
  case (WsProgress k n)
  have "ws_handle cx (WsControl k (Some (CtlProgress n))) s = Some s'" using assms(4) WsProgress by (simp add: Operator_OnControl_def)
  then show ?thesis using ws_inv_OnControl [OF assms(3)] by auto
next
  case WsBeginShutdown
  then show ?thesis using assms(3,4) by (auto simp: Workshop_BeginShutdown_def switch_queue_ok)
next
  case (WsSpawned k tag usage)
  then show ?thesis using assms(3,4) by (auto intro!: ws_inv_upd simp: Operator_spawned_def InitControl_def InitLog_def Let_def)
next
  case (WsNotified n)
  then show ?thesis using assms(3,4) by (auto simp: ws_inv_queue Workshop_OnNotify_def Workshop_Reschedule_def Workshop_ScheduleTimer_def)
next
  case WsDisconnected
  then show ?thesis using assms(3,4) by (auto simp: ws_inv_queue Workshop_OnDisconnect_def)
next
  case (WsCluster m)
  then show ?thesis using assms(3,4) by auto
next
  case (WsDatabase db)
  then show ?thesis using assms(3,4) by auto
qed (use assms(3,4) ws_inv_core [OF core_OnProgressNotifyTimer assms(3)] ws_inv_core [OF OnReapTimer_core assms(3)] ws_inv_process_exit [OF assms(2,3)]
      ws_inv_OnControl [OF assms(3)] ws_inv_cancel [OF assms(2,3)] ws_inv_UpdateFilter [OF assms(2,3)] ws_inv_core [OF core_reports(5) assms(3)]
    in \<open>auto simp: Partition_SetStateEnabled_def Partition_DisableQueue_def Partition_EnableQueue_def switch_queue_ok Workplace_CancelJob_def
      Workplace_CancelTag_def Workshop_OnStickyChanged_def intro!: ws_inv_upd\<close>)

lemma ws_run_ok:
  "pg_text pg \<Longrightarrow> (\<And>cx e. (cx, e) \<in> set es \<Longrightarrow> cx_ok pg lim cx) \<Longrightarrow> ws_inv pg lim cap s \<Longrightarrow> ws_run es s = Some s' \<Longrightarrow> ws_inv pg lim cap s'"
proof (induction es arbitrary: s)
  case (Cons ce es)
  obtain cx e where ce: "ce = (cx, e)" by (cases ce)
  obtain s1 where s1: "ws_handle cx e s = Some s1" "ws_run es s1 = Some s'" using Cons.prems(4) ce by (auto split: option.splits)
  have "cx_ok pg lim cx" using Cons.prems(2) [of cx e] ce by simp
  then have "ws_inv pg lim cap s1" by (rule ws_handle_ok [OF Cons.prems(1) _ Cons.prems(3) s1(1)])
  moreover have "cx_ok pg lim cx'" if "(cx', e') \<in> set es" for cx' e' using Cons.prems(2) [of cx' e'] that by simp
  ultimately show ?case using Cons.IH [OF Cons.prems(1) _ _ s1(2)] by blast
qed simp

text \<open>
  C28: the limits of a workshop partition. In whatever order timers fire, jobs are claimed, started,
  cancelled, time out and end, processes report, the library is reloaded, statements fail and other
  nodes change the database: a partition never runs more jobs than its concurrency, its queue is
  closed exactly while it runs that many, and no plan with a limit ever has more running jobs than
  the limit, as long as no plan file changes its limit.
\<close>

theorem workshop_limits:
  assumes "pg_text pg" and "0 < wu_concurrency setup" and "\<forall>l\<in>set lib. lb_plans l = []"
    and "\<And>cx e. (cx, e) \<in> set events \<Longrightarrow> wx_pg cx = pg
      \<and> (\<forall>fs\<in>set (wx_fs cx). \<forall>n p. LoadPlanFile (wx_sys cx) (fs_file fs n) = Inr p \<longrightarrow> p_concurrency p = lim n)"
    and "ws_run events (Partition_init setup lib db) = Some s"
  shows "length (ww_operators (ws_workplace s)) \<le> wu_concurrency setup
    \<and> (wq_disabled_full (ws_queue s) \<longleftrightarrow> length (ww_operators (ws_workplace s)) = wu_concurrency setup)
    \<and> (\<forall>n. lim n \<noteq> 0 \<longrightarrow> length (filter (\<lambda>op. GetPlanName op = n) (ww_operators (ws_workplace s))) \<le> lim n)"
proof -
  let ?s0 = "Partition_init setup lib db"
  have w0: "ops_of ?s0 = []" "ww_max_operators (ws_workplace ?s0) = wu_concurrency setup" "ws_library ?s0 = lib"
    "\<not> wq_disabled_full (ws_queue ?s0)" "wq_plans_exclude (ws_queue ?s0) = []"
    by (simp_all add: Partition_init_def ScheduleReapFinished_def ws_queue_init_def)
  have "ws_inv pg lim (wu_concurrency setup) ?s0"
    using assms(2,3) by (auto simp: ws_inv_def gate_ok_ws ws_base_def plans_hold_def conforming_def w0)
  moreover have "cx_ok pg lim cx" if "(cx, e) \<in> set events" for cx e
    using assms(4) [OF that] by (auto simp: cx_ok_def files_load_def)
  ultimately have inv: "ws_inv pg lim (wu_concurrency setup) s" using ws_run_ok [OF assms(1) _ _ assms(5)] by blast
  then show ?thesis by (auto simp: ws_inv_def gate_ok_ws ws_base_def plan_count_def)
qed

definition sample_ws_ctx :: ws_ctx where
  "sample_ws_ctx = \<lparr>wx_pg = plain_pg, wx_sys = sample_sys, wx_fs = [sample_fs ''ab'' [''translate'', ''concurrency 1'']], wx_score = (\<lambda>a b c. 0),
     wx_check_error = (\<lambda>e. None), wx_tag_contains = (\<lambda>l t. l = t), wx_steady = 0, wx_expiry_set = (\<lambda>n e l. (n, e) # l),
     wx_expiry_visit = (\<lambda>now l. (map fst l, None, l)), wx_start_error = (\<lambda>j. None), wx_valid_utf8 = (\<lambda>s. True), wx_server_version = 150000,
     wx_has_columns = True, wx_schema = full_schema, wx_schema_name = ''public''\<rparr>"

definition sample_ws_setup :: ws_setup where
  "sample_ws_setup = \<lparr>wu_name = ''p'', wu_node_name = ''a'', wu_sticky = False, wu_concurrency = 2, wu_enable_journal = False, wu_max_log = 8192\<rparr>"

definition sample_ws_db :: ws_db where
  "sample_ws_db = \<lparr>sd_jobs = [(sample_job ''1'')\<lparr>plan_name := ''ab''\<rparr>, (sample_job ''2'')\<lparr>plan_name := ''ab''\<rparr>], sd_sticky = {}, sd_schema = full_schema,
     sd_now = 0, sd_faults = []\<rparr>"

lemma sample_limited_plan:
  "LoadPlanFile sample_sys (fs_file (sample_fs ''ab'' [''translate'', ''concurrency 1'']) n) = Inr p \<Longrightarrow> p_concurrency p = (if n = ''ab'' then 1 else 0)"
  by (auto simp: sample_fs_def LoadPlanFile_def PlanLoader_ParseLine_def sample_sys_def space_lib_def Let_def plan_loader_init_def plan_init_def
      after_word_def upd_plan_def PlanLoader_Finish_def strtoul_def strtoul_digits_def is_space_def skip_sign_def is_digit_def digits_value_def ExpectEnd_def
      split: if_splits)

theorem workshop_limits_witness:
  "\<exists>s. ws_run [(sample_ws_ctx, WsSetStateEnabled True), (sample_ws_ctx, WsUpdateLibrary True), (sample_ws_ctx, WsConnected), (sample_ws_ctx, WsTimer)]
      (Partition_init sample_ws_setup [library_init] sample_ws_db) = Some s
    \<and> length (ww_operators (ws_workplace s)) \<le> 2 \<and> length (filter (\<lambda>op. GetPlanName op = ''ab'') (ww_operators (ws_workplace s))) \<le> 1"
proof -
  let ?es = "[(sample_ws_ctx, WsSetStateEnabled True), (sample_ws_ctx, WsUpdateLibrary True), (sample_ws_ctx, WsConnected), (sample_ws_ctx, WsTimer)]"
  let ?s0 = "Partition_init sample_ws_setup [library_init] sample_ws_db" and ?lim = "\<lambda>n. if n = ''ab'' then 1 else 0 :: nat"
  obtain s where s: "ws_run ?es ?s0 = Some s" by simp
  have r: "length (ww_operators (ws_workplace s)) \<le> wu_concurrency sample_ws_setup
    \<and> (wq_disabled_full (ws_queue s) \<longleftrightarrow> length (ww_operators (ws_workplace s)) = wu_concurrency sample_ws_setup)
    \<and> (\<forall>n. ?lim n \<noteq> 0 \<longrightarrow> length (filter (\<lambda>op. GetPlanName op = n) (ww_operators (ws_workplace s))) \<le> ?lim n)"
  proof (rule workshop_limits [OF plain_pg.pg_text_axioms _ _ _ s])
    show "wx_pg cx = plain_pg \<and> (\<forall>fs\<in>set (wx_fs cx). \<forall>n p. LoadPlanFile (wx_sys cx) (fs_file fs n) = Inr p \<longrightarrow> p_concurrency p = ?lim n)"
      if "(cx, e) \<in> set ?es" for cx e
      using that sample_limited_plan by (auto simp: sample_ws_ctx_def)
  qed (simp_all add: sample_ws_setup_def library_init_def)
  have "wu_concurrency sample_ws_setup = 2" by (simp add: sample_ws_setup_def)
  then have "length (ww_operators (ws_workplace s)) \<le> 2" using conjunct1 [OF r] by simp
  moreover have "length (filter (\<lambda>op. GetPlanName op = ''ab'') (ww_operators (ws_workplace s))) \<le> 1"
    using spec [OF conjunct2 [OF conjunct2 [OF r]], of "''ab''"] by simp
  ultimately show ?thesis using s by blast
qed

end
