(* ===== verification/Workshop_Result.thy ===== *)
theory Workshop_Result
  imports Workshop_Run
begin

text \<open>
  What the end of an operator leaves in the database: the exit status and the log of the process,
  or the release of a job that asked to be executed again.
\<close>

section \<open>Statements that succeed\<close>

definition db_works :: "ws_node \<Rightarrow> bool" where
  "db_works s \<longleftrightarrow> wq_db_ready (ws_queue s) \<and> sd_faults (ws_db s) = []"

lemma ws_try_works:
  assumes "db_works s" "f (ws_db s) = (x, db)"
  shows "ws_try f s = (x, s\<lparr>ws_db := db\<rparr>)"
proof -
  have e: "ws_db s\<lparr>sd_faults := []\<rparr> = ws_db s" using assms(1) by (cases "ws_db s") (simp add: db_works_def)
  have "ws_try f s = (case f (ws_db s\<lparr>sd_faults := []\<rparr>) of (y, db') \<Rightarrow> (y, s\<lparr>ws_db := db'\<rparr>))"
    using assms(1) by (simp add: ws_try_def db_works_def Let_def)
  then show ?thesis unfolding e assms(2) by simp
qed

lemma on_table_simps [simp]:
  "sd_jobs (snd (on_table f db)) = snd (f (sd_jobs db))" "fst (on_table f db) = fst (f (sd_jobs db))"
  "sd_schema (snd (on_table f db)) = sd_schema db" "sd_now (snd (on_table f db)) = sd_now db" "sd_faults (snd (on_table f db)) = sd_faults db"
  by (simp_all add: on_table_def case_prod_beta)

lemma ws_db_simps [simp]:
  "ws_db (on_wq f s) = ws_db s" "ws_db (ws_act a s) = ws_db s" "ws_db (upd_operator k g s) = ws_db s" "ws_db (remove_operators P s) = ws_db s"
  "ws_db (ScheduleReapFinished s) = ws_db s" "ws_db (ws_CheckError cx e s) = ws_db s"
  by (simp_all add: on_wq_def ws_act_def upd_operator_def on_ww_def remove_operators_def ScheduleReapFinished_def ws_CheckError_def split: option.splits)

lemma ws_db_exit [simp]: "ws_db (Workshop_OnChildProcessExit cx s) = ws_db s"
proof -
  have "ws_db (UpdateFilter cx m t) = ws_db t" for m t
    by (simp add: UpdateFilter_def Let_def case_prod_beta)
  then show ?thesis
    by (simp add: Workshop_OnChildProcessExit_def UpdateLibraryAndFilter_def Let_def case_prod_beta)
qed

lemma ws_db_notify [simp]: "sd_jobs (ws_db (snd (pg_notify s))) = sd_jobs (ws_db s)"
  by (auto simp: pg_notify_def ws_try_def Let_def)

lemma db_works_simps [simp]: "db_works (upd_operator k g s) = db_works s"
  by (simp add: db_works_def) (simp add: upd_operator_def on_ww_def)

text \<open>The rows that the reports leave.\<close>

definition done_row :: "ws_db \<Rightarrow> int \<Rightarrow> string option \<Rightarrow> job_row \<Rightarrow> job_row" where
  "done_row db status l r =
     set_time_modified (sd_schema db) (sd_now db) (r\<lparr>time_done := Some (sd_now db), progress := 100, exit_status := Some status, log := l\<rparr>)"

definition again_row :: "ws_db \<Rightarrow> int \<Rightarrow> string option \<Rightarrow> job_row \<Rightarrow> job_row" where
  "again_row db delay l r =
     (if delay > 0 then (release_row (sd_schema db) (sd_now db) r)\<lparr>log := l, scheduled_time := Some (sd_now db + delay * ns)\<rparr>
      else release_row (sd_schema db) (sd_now db) r)"

definition usage_row :: "int option \<Rightarrow> nat option \<Rightarrow> job_row \<Rightarrow> job_row" where
  "usage_row a b r =
     (case (a, b) of
        (Some x, Some y) \<Rightarrow> if 0 \<le> x then r\<lparr>cpu_usage := Some ((case cpu_usage r of None \<Rightarrow> 0 | Some u \<Rightarrow> u) + (int y - x) * 1000)\<rparr> else r
      | _ \<Rightarrow> r)"

lemma snd_expect [simp]: "snd (expect_row x) = snd x" "fst (expect_row x) = (if fst x < 1 then Inl NoMatchingJob else Inr ())"
  by (simp_all add: expect_row_def case_prod_beta)

abbreviation row_in :: "ws_node \<Rightarrow> string \<Rightarrow> job_row option" where
  "row_in s jid \<equiv> row_of job_id jid (sd_jobs (ws_db s))"

lemma row_of_key: "row_of job_id jid t = Some r \<Longrightarrow> job_id r = jid"
  by (induction t) (auto split: if_splits)

lemma SetJobDone_row:
  assumes "db_works s" "row_in s (wj_id job) = Some r"
  shows "row_in (SetJobDone cx job status l s) (wj_id job) = Some (done_row (ws_db s) status l r)"
proof -
  define f where "f = (\<lambda>db. on_table (pg_set_job_done (sd_schema db) (sd_now db) (wj_id job) status l) db)"
  have t: "ws_try f s = (fst (f (ws_db s)), s\<lparr>ws_db := snd (f (ws_db s))\<rparr>)" by (rule ws_try_works [OF assms(1)]) simp
  have "sd_jobs (ws_db (SetJobDone cx job status l s)) = sd_jobs (snd (f (ws_db s)))"
    using t by (cases "fst (f (ws_db s))") (simp_all add: SetJobDone_def f_def [symmetric])
  then show ?thesis using assms(2) row_of_key [OF assms(2)]
    by (simp add: f_def pg_set_job_done_def sql_set_job_done_def row_of_update set_time_modified_def done_row_def)
qed

lemma AgainJob_row:
  assumes "db_works s" "row_in s (wj_id job) = Some r" "node_name r \<noteq> None" "time_done r = None"
  shows "row_in (AgainJob cx job l delay s) (wj_id job) = Some (again_row (ws_db s) delay l r)"
proof -
  define f where "f = (\<lambda>db. if delay > 0 then on_table (pg_again_job (sd_schema db) (sd_now db) (wj_id job) l delay) db
      else on_table (pg_rollback_job (sd_schema db) (sd_now db) (wj_id job)) db)"
  have t: "ws_try f s = (fst (f (ws_db s)), s\<lparr>ws_db := snd (f (ws_db s))\<rparr>)" by (rule ws_try_works [OF assms(1)]) simp
  let ?s1 = "s\<lparr>ws_db := snd (f (ws_db s))\<rparr>"
  have "sd_jobs (ws_db (AgainJob cx job l delay s)) = sd_jobs (snd (f (ws_db s)))"
    using t ws_db_notify [of ?s1] by (cases "fst (f (ws_db s))"; cases "pg_notify ?s1"; cases "fst (pg_notify ?s1)")
      (simp_all add: AgainJob_def f_def [symmetric])
  then show ?thesis using assms row_of_key [OF assms(2)]
    by (simp add: f_def pg_again_job_def pg_rollback_job_def sql_again_job_def sql_rollback_job_def row_of_update
        release_row_def set_time_modified_def again_row_def)
qed

lemma AddJobCpuUsage_works:
  fixes cx d
  assumes "db_works s" "row_in s (wj_id job) = Some r"
  defines "s' \<equiv> AddJobCpuUsage cx job d s"
  shows "db_works s'" "row_in s' (wj_id job) = Some (r\<lparr>cpu_usage := Some ((case cpu_usage r of None \<Rightarrow> 0 | Some u \<Rightarrow> u) + d * 1000)\<rparr>)"
    "sd_schema (ws_db s') = sd_schema (ws_db s)" "sd_now (ws_db s') = sd_now (ws_db s)"
proof -
  define f where "f = on_table (PgAddJobCpuUsage (wj_id job) d)"
  have t: "ws_try f s = (fst (f (ws_db s)), s\<lparr>ws_db := snd (f (ws_db s))\<rparr>)" by (rule ws_try_works [OF assms(1)]) simp
  obtain x where x: "x \<in> set (sd_jobs (ws_db s))" "job_id x = wj_id job" using row_of_SomeD [OF assms(2)] by auto
  then have "0 < length (filter (\<lambda>r. job_id r = wj_id job) (sd_jobs (ws_db s)))" by (auto simp: filter_empty_conv)
  then have "fst (f (ws_db s)) = Inr ()" by (simp add: f_def PgAddJobCpuUsage_def sql_add_cpu_usage_def sql_update_def)
  then have s': "s' = s\<lparr>ws_db := snd (f (ws_db s))\<rparr>" using t by (simp add: s'_def AddJobCpuUsage_def ws_exec_def f_def [symmetric])
  show "db_works s'" "sd_schema (ws_db s') = sd_schema (ws_db s)" "sd_now (ws_db s') = sd_now (ws_db s)"
    using assms(1) by (simp_all add: s' db_works_def f_def)
  show "row_in s' (wj_id job) = Some (r\<lparr>cpu_usage := Some ((case cpu_usage r of None \<Rightarrow> 0 | Some u \<Rightarrow> u) + d * 1000)\<rparr>)"
    using assms(2) row_of_key [OF assms(2)] by (simp add: s' f_def PgAddJobCpuUsage_def sql_add_cpu_usage_def row_of_update)
qed

lemma row_fun_cong:
  "sd_schema db' = sd_schema db \<Longrightarrow> sd_now db' = sd_now db \<Longrightarrow> done_row db' = done_row db \<and> again_row db' = again_row db"
  by (simp add: done_row_def again_row_def fun_eq_iff)

lemma usage_row_fields [simp]: "node_name (usage_row a b r) = node_name r" "time_done (usage_row a b r) = time_done r"
  by (simp_all add: usage_row_def split: option.splits)

lemma Operator_report_row:
  assumes "db_works s" "row_in s (wj_id (op_job op)) = Some r"
  shows "op_again op < 0 \<Longrightarrow> row_in (Operator_report cx status usage op s) (wj_id (op_job op))
      = Some (done_row (ws_db s) (exit_status_of status) (log_text_of cx (op_log op)) (usage_row (op_cpu_usage_start op) usage r))"
    and "0 \<le> op_again op \<Longrightarrow> node_name r \<noteq> None \<Longrightarrow> time_done r = None \<Longrightarrow> row_in (Operator_report cx status usage op s) (wj_id (op_job op))
      = Some (again_row (ws_db s) (op_again op) (log_text_of cx (op_log op)) (usage_row (op_cpu_usage_start op) usage r))"
proof -
  define s1 where "s1 = (case (op_cpu_usage_start op, usage) of
      (Some a, Some b) \<Rightarrow> if 0 \<le> a then AddJobCpuUsage cx (op_job op) (int b - a) s else s | _ \<Rightarrow> s)"
  let ?r = "usage_row (op_cpu_usage_start op) usage r"
  have s1: "db_works s1 \<and> row_in s1 (wj_id (op_job op)) = Some ?r \<and> done_row (ws_db s1) = done_row (ws_db s) \<and> again_row (ws_db s1) = again_row (ws_db s)"
    using assms AddJobCpuUsage_works [OF assms] by (auto simp: s1_def usage_row_def intro!: row_fun_cong split: option.splits)
  have e: "Operator_report cx status usage op s = (if 0 \<le> op_again op then AgainJob cx (op_job op) (log_text_of cx (op_log op)) (op_again op) s1
      else SetJobDone cx (op_job op) (exit_status_of status) (log_text_of cx (op_log op)) s1)"
    by (simp add: Operator_report_def s1_def Let_def)
  show "op_again op < 0 \<Longrightarrow> row_in (Operator_report cx status usage op s) (wj_id (op_job op))
      = Some (done_row (ws_db s) (exit_status_of status) (log_text_of cx (op_log op)) ?r)"
    using SetJobDone_row [of s1 "op_job op" ?r] s1 by (simp add: e)
  show "0 \<le> op_again op \<Longrightarrow> node_name r \<noteq> None \<Longrightarrow> time_done r = None \<Longrightarrow> row_in (Operator_report cx status usage op s) (wj_id (op_job op))
      = Some (again_row (ws_db s) (op_again op) (log_text_of cx (op_log op)) ?r)"
    using AgainJob_row [of s1 "op_job op" ?r] s1 by (simp add: e)
qed

lemma OnExit_result: "row_in (Workplace_OnExit cx k s) jid = row_in s jid \<and> find_operator k (Workplace_OnExit cx k s) = None"
proof -
  have "ops_of (Workplace_OnExit cx k s) = filter (\<lambda>op. op_key op \<noteq> k) (ops_of s)"
    unfolding Workplace_OnExit_eq using exit_gate(1) [OF refl, of cx "\<lambda>op. op_key op = k" s] .
  then have "find_operator k (Workplace_OnExit cx k s) = None" by (simp add: find_operator_def find_None_iff)
  then show ?thesis by (simp add: Workplace_OnExit_eq)
qed

lemma drain_operator:
  assumes "find_operator k s = Some op"
  shows "find_operator k (Operator_drain cx k [] rest s) = Some (op\<lparr>op_exited := True, op_log := fold Log_OnPipeLine rest (op_log op)\<rparr>)"
    "ws_db (Operator_drain cx k [] rest s) = ws_db s" "db_works (Operator_drain cx k [] rest s) = db_works s"
proof -
  have upd: "find_operator k (upd_operator k g t) = map_option g (find_operator k t)" if "\<And>x. op_key (g x) = op_key x" for g t
  proof -
    have "find (\<lambda>op. op_key op = k) (map (\<lambda>op. if op_key op = k then g op else op) xs) = map_option g (find (\<lambda>op. op_key op = k) xs)" for xs
      by (induction xs) (auto simp: that)
    then show ?thesis by (simp add: find_operator_def upd_operator_def on_ww_def)
  qed
  show "find_operator k (Operator_drain cx k [] rest s) = Some (op\<lparr>op_exited := True, op_log := fold Log_OnPipeLine rest (op_log op)\<rparr>)"
    using assms by (simp add: Operator_drain_def Let_def upd)
  show "ws_db (Operator_drain cx k [] rest s) = ws_db s" "db_works (Operator_drain cx k [] rest s) = db_works s"
    by (simp_all add: Operator_drain_def Let_def split: option.splits)
qed


definition sample_ws_job :: workshop_job where
  "sample_ws_job = \<lparr>wj_id = ''1'', wj_plan_name = ''ab'', wj_sticky_id = [], wj_args = [], wj_env = [], wj_stdin = None\<rparr>"

definition sample_ws_node :: ws_node where
  "sample_ws_node = add_operator sample_ws_job plan_init (on_wq (\<lambda>q. q\<lparr>wq_db_ready := True\<rparr>) (Partition_init sample_ws_setup [] sample_ws_db))"



section \<open>The plan lists the workplace hands to the queue\<close>

text \<open>
  The reference: the names of the running plans in order without repetitions, and those among them
  whose limit is reached by the number of operators that run them.
\<close>

definition running_names :: "workshop_operator list \<Rightarrow> string list" where
  "running_names ops = sort (remdups (map GetPlanName ops))"

definition full_names :: "(string \<Rightarrow> nat) \<Rightarrow> workshop_operator list \<Rightarrow> string list" where
  "full_names lim ops = filter (\<lambda>n. 0 < lim n \<and> lim n \<le> count_list (map GetPlanName ops) n) (running_names ops)"

lemma count_list_plan_count: "count_list (map GetPlanName ops) n = plan_count n ops"
  by (induction ops) (simp_all add: plan_count_def)

lemma running_plans_fold:
  "sorted l \<Longrightarrow> distinct l \<Longrightarrow>
   let l' = fold (\<lambda>op l. snd (set_emplace (GetPlanName op) l)) ops l
   in sorted l' \<and> distinct l' \<and> set l' = GetPlanName ` set ops \<union> set l"
proof (induction ops arbitrary: l)
  case (Cons op ops)
  show ?case using Cons.IH [of "snd (set_emplace (GetPlanName op) l)"] set_emplace_sorted [OF Cons.prems, of "GetPlanName op"]
    by (simp add: Let_def)
qed simp

lemma running_plans_names: "running_plans ops = running_names ops"
  using running_plans_fold [of "[]" ops]
  by (intro sorted_distinct_set_unique) (simp_all add: running_plans_def running_names_def Let_def)

lemma full_plans_names:
  assumes "conforming lim ops"
  shows "full_plans ops = full_names lim ops"
proof (rule sorted_distinct_set_unique)
  have "n \<in> GetPlanName ` set ops" if "plan_count n ops \<noteq> 0" for n
    using that by (auto simp: plan_count_def filter_empty_conv)
  moreover have "plan_count (GetPlanName op) ops \<noteq> 0" if "op \<in> set ops" for op
    using that by (auto simp: plan_count_def filter_empty_conv)
  ultimately show "set (full_plans ops) = set (full_names lim ops)"
    using full_plans_iff(1) [OF assms] by (auto simp: full_names_def running_names_def count_list_plan_count)
qed (use full_plans_iff(2,3) [OF assms] in \<open>simp_all add: full_names_def running_names_def sorted_wrt_filter\<close>)

text \<open>
  C30: the plan lists of the workplace. The arrays that GetRunningPlanNames() and
  GetFullPlanNames() build in one pass over the operators, with a counter per plan, reach the
  database as what they stand for: the running plans in order and each once, and exactly those of
  them that as many operators run as their limit allows, provided that operators of the same plan
  have the same limit.
\<close>

theorem plan_lists_reference:
  assumes "pg_text pg" and "conforming lim (ww_operators w)"
  shows "array_in pg (GetRunningPlanNames pg w) = Some (running_names (ww_operators w))
    \<and> array_in pg (GetFullPlanNames pg w) = Some (full_names lim (ww_operators w))"
proof -
  have "list_all array_plain (running_names (ww_operators w))"
    using assms(2) valid_name_plain by (auto simp: running_names_def list_all_iff conforming_def)
  then show ?thesis
    using pg_text.array_in_Encode [OF assms(1)] full_plans_plain [OF assms(2)]
    by (simp add: GetRunningPlanNames_def GetFullPlanNames_def running_plans_names full_plans_names [OF assms(2)])
qed

theorem plan_lists_reference_witness:
  "\<exists>w. length (ww_operators w) = 3 \<and> array_in plain_pg (GetRunningPlanNames plain_pg w) = Some [''ab'', ''cd'']
     \<and> array_in plain_pg (GetFullPlanNames plain_pg w) = Some [''ab'']"
proof -
  let ?op = "\<lambda>k n c. operator_init k (sample_ws_job\<lparr>wj_plan_name := n\<rparr>) (plan_init\<lparr>p_concurrency := c\<rparr>)"
  let ?ops = "[?op 0 ''cd'' 3, ?op 1 ''ab'' 2, ?op 2 ''ab'' 2]" and ?lim = "\<lambda>n. if n = ''ab'' then 2 else 3 :: nat"
  let ?w = "\<lparr>ww_operators = ?ops, ww_next_key = 3, ww_max_operators = 4, ww_enable_journal = False\<rparr>"
  have n: "running_names ?ops = [''ab'', ''cd'']" "full_names ?lim ?ops = [''ab'']"
    by (simp_all add: running_names_def full_names_def GetPlanName_def)
  have "conforming ?lim (ww_operators ?w)"
    by (simp add: conforming_def GetPlanName_def is_valid_plan_name_char_def is_alnum_def is_digit_def)
  from plan_lists_reference [OF plain_pg.pg_text_axioms this]
  have "array_in plain_pg (GetRunningPlanNames plain_pg ?w) = Some [''ab'', ''cd'']
     \<and> array_in plain_pg (GetFullPlanNames plain_pg ?w) = Some [''ab'']"
    unfolding ws_workplace.select_convs n .
  then show ?thesis by (intro exI [of _ ?w]) simp
qed

end
