(* ===== verification/Workshop_Instance.thy ===== *)
theory Workshop_Instance
  imports Workshop_Result Cron_Run
begin

text \<open>
  The instance (\<open>src/Instance.cxx\<close>): the two lists of partitions, the library that the workshop
  partitions share, the control channel of the daemon, signals and the orderly shutdown.
\<close>

section \<open>State\<close>

text \<open>
  The actions of a partition are those of the last call of that partition. The state of the event
  loop is reduced to which events are registered.
\<close>

record instance_state =
  is_library :: "multi_library option"
  is_partitions :: "ws_node list"
  is_cron_partitions :: "cron_node list"
  is_control_servers :: nat
  is_should_exit :: bool
  is_shutdown_listener :: bool
  is_sighup_event :: bool
  is_defer_idle_check :: bool
  is_spawn_shutdown :: bool
  is_log_level :: nat

text \<open>
  What an event of the instance finds: the environments of the partitions, and
  \<open>StateDirectories::GetBool()\<close> with its default value.
\<close>

record instance_ctx =
  ix_ws :: ws_ctx
  ix_cron :: cron_ctx
  ix_get_bool :: "string \<Rightarrow> bool \<Rightarrow> bool"

text \<open>The commands of the control protocol.\<close>

datatype control_command = NOP | TCACHE_INVALIDATE | EXPIRE_TCACHE_TAG | DUMP_POOLS | ENABLE_NODE | FADE_NODE | NODE_STATUS | STATS
  | FADE_CHILDREN | DISABLE_ZEROCONF | ENABLE_ZEROCONF | FLUSH_NFS_CACHE | FLUSH_FILTER_CACHE | STOPWATCH_PIPE | DISCARD_SESSION
  | FLUSH_HTTP_CACHE | DISCONNECT_DATABASE | DISABLE_URING | RESET_LIMITER | REJECT_CLIENT | TARPIT_CLIENT | VERBOSE
  | TERMINATE_CHILDREN | DISABLE_QUEUE | ENABLE_QUEUE | RELOAD_STATE | CANCEL_JOB

datatype control_error = MalformedVerbose

definition on_partitions :: "(ws_node \<Rightarrow> ws_node) \<Rightarrow> instance_state \<Rightarrow> instance_state" where
  "on_partitions f s = s\<lparr>is_partitions := map f (is_partitions s)\<rparr>"

definition on_cron_partitions :: "(cron_node \<Rightarrow> cron_node) \<Rightarrow> instance_state \<Rightarrow> instance_state" where
  "on_cron_partitions f s = s\<lparr>is_cron_partitions := map f (is_cron_partitions s)\<rparr>"

text \<open>A call of a partition: its actions are recorded from the start.\<close>

definition ws_begin :: "ws_node \<Rightarrow> ws_node" where
  "ws_begin p = p\<lparr>ws_actions := []\<rparr>"

definition cron_begin :: "cron_node \<Rightarrow> cron_node" where
  "cron_begin p = p\<lparr>cn_actions := []\<rparr>"

text \<open>The partitions refer to the one library of the instance.\<close>

definition share :: "multi_library \<Rightarrow> ws_node \<Rightarrow> ws_node" where
  "share lib p = p\<lparr>ws_library := lib\<rparr>"

section \<open>Operations\<close>

definition Instance_init :: "ws_setup list \<Rightarrow> cron_partition_setup list \<Rightarrow> nat \<Rightarrow> multi_library option \<Rightarrow> ws_db \<Rightarrow> cron_db \<Rightarrow> instance_state" where
  "Instance_init ws cs listeners lib wdb cdb =
     \<lparr>is_library = lib, is_partitions = rev (map (\<lambda>c. Partition_init c (case lib of None \<Rightarrow> [] | Some l \<Rightarrow> l) wdb) ws),
      is_cron_partitions = rev (map (\<lambda>c. CronPartition_init c cdb) cs), is_control_servers = listeners, is_should_exit = False,
      is_shutdown_listener = True, is_sighup_event = True, is_defer_idle_check = False, is_spawn_shutdown = False, is_log_level = 0\<rparr>"

definition Instance_UpdateFilter :: "instance_ctx \<Rightarrow> bool \<Rightarrow> instance_state \<Rightarrow> instance_state" where
  "Instance_UpdateFilter ix library_modified = on_partitions (\<lambda>p. UpdateFilter (ix_ws ix) library_modified (ws_begin p))"

text \<open>Only called with a library.\<close>

definition Instance_UpdateLibraryAndFilter :: "instance_ctx \<Rightarrow> bool \<Rightarrow> instance_state \<Rightarrow> instance_state" where
  "Instance_UpdateLibraryAndFilter ix force s =
     (case is_library s of
        None \<Rightarrow> s
      | Some lib \<Rightarrow>
          (let cx = ix_ws ix; (modified, lib') = MultiLibrary_Update (wx_sys cx) (wx_fs cx) (wx_steady cx) force lib
           in Instance_UpdateFilter ix modified (on_partitions (share lib') (s\<lparr>is_library := Some lib'\<rparr>))))"

definition ReloadState :: "instance_ctx \<Rightarrow> instance_state \<Rightarrow> instance_state" where
  "ReloadState ix s =
     on_cron_partitions (\<lambda>p. if cn_name p = [] then p
         else CronPartition_SetStateEnabled (ix_get_bool ix (''workshop/cron/'' @ cn_name p @ ''/enabled'') True) (cron_begin p))
       (on_partitions (\<lambda>p. Partition_SetStateEnabled (ix_get_bool ix (''workshop/workshop/'' @ ws_name p @ ''/enabled'') True) (ws_begin p)) s)"

definition Instance_Start :: "instance_ctx \<Rightarrow> instance_state \<Rightarrow> instance_state" where
  "Instance_Start ix s =
     (let s1 = on_partitions (\<lambda>p. Partition_Start (ws_begin p)) (ReloadState ix s)
      in if is_library s1 \<noteq> None then Instance_UpdateLibraryAndFilter ix True s1 else s1)"

definition Instance_OnReload :: "instance_ctx \<Rightarrow> instance_state \<Rightarrow> instance_state" where
  "Instance_OnReload ix s =
     ReloadState ix (if is_library s \<noteq> None then Instance_UpdateLibraryAndFilter ix True s else s)"

definition OnPartitionIdle :: "instance_state \<Rightarrow> instance_state" where
  "OnPartitionIdle s = (if is_should_exit s then s\<lparr>is_defer_idle_check := True\<rparr> else s)"

text \<open>The idle callback of a partition has been invoked during its last call.\<close>

definition ws_idle_called :: "ws_node \<Rightarrow> bool" where
  "ws_idle_called p \<longleftrightarrow> WsIdle \<in> set (ws_actions p)"

definition cron_idle_called :: "cron_node \<Rightarrow> bool" where
  "cron_idle_called p \<longleftrightarrow> IdleCallback \<in> set (cn_actions p)"

definition RemoveIdlePartitions :: "instance_state \<Rightarrow> instance_state" where
  "RemoveIdlePartitions s = s\<lparr>is_partitions := filter (\<lambda>p. \<not> Workshop_IsIdle p) (is_partitions s),
     is_cron_partitions := filter (\<lambda>p. \<not> CronPartition_IsIdle p) (is_cron_partitions s)\<rparr>"

definition Instance_OnExit :: "instance_ctx \<Rightarrow> instance_state \<Rightarrow> instance_state" where
  "Instance_OnExit ix s =
     (if is_should_exit s then s
      else (let s1 = s\<lparr>is_should_exit := True, is_shutdown_listener := False, is_sighup_event := False, is_spawn_shutdown := True\<rparr>;
                s2 = on_cron_partitions (\<lambda>p. CronPartition_BeginShutdown (ix_cron ix) (cron_begin p))
                       (on_partitions (\<lambda>p. Workshop_BeginShutdown (ws_begin p)) s1);
                s3 = (if list_ex cron_idle_called (is_cron_partitions s2) then OnPartitionIdle s2 else s2)
            in (RemoveIdlePartitions s3)\<lparr>is_control_servers := 0\<rparr>))"

text \<open>The deferred event.\<close>

definition OnIdleCheck :: "instance_state \<Rightarrow> instance_state" where
  "OnIdleCheck s = RemoveIdlePartitions (s\<lparr>is_defer_idle_check := False\<rparr>)"

text \<open>
  After partition \<open>i\<close> has become \<open>p'\<close>: the library that it has updated is the library of all, and
  when \<open>refresh\<close> says so it has made the instance update the filters of all the others
  (\<open>Instance::UpdateLibraryAndFilter()\<close>, called from \<open>OnChildProcessExit()\<close>).
\<close>

definition after_call :: "instance_ctx \<Rightarrow> bool option \<Rightarrow> nat \<Rightarrow> ws_node \<Rightarrow> instance_state \<Rightarrow> instance_state" where
  "after_call ix refresh i p' s =
     (let others = (\<lambda>q. case refresh of None \<Rightarrow> share (ws_library p') q
            | Some m \<Rightarrow> UpdateFilter (ix_ws ix) m (ws_begin (share (ws_library p') q)));
          s' = s\<lparr>is_library := map_option (\<lambda>_. ws_library p') (is_library s), is_partitions := (map others (is_partitions s))[i := p']\<rparr>
      in if ws_idle_called p' then OnPartitionIdle s' else s')"

text \<open>Cancel the matching operators of one partition.\<close>

definition cancel_in :: "instance_ctx \<Rightarrow> (workshop_operator \<Rightarrow> bool) \<Rightarrow> nat \<Rightarrow> instance_state \<Rightarrow> instance_state" where
  "cancel_in ix P i s =
     (let cx = ix_ws ix; p = is_partitions s ! i; p' = cancel_operators cx P (ws_begin p);
          modified = fst (MultiLibrary_Update (wx_sys cx) (wx_fs cx) (wx_steady cx) False (ws_library p))
      in after_call ix (if list_ex P (ww_operators (ws_workplace p)) then Some modified else None) i p' s)"

definition after_cron_call :: "nat \<Rightarrow> cron_node \<Rightarrow> instance_state \<Rightarrow> instance_state" where
  "after_cron_call i p' s =
     (let s' = s\<lparr>is_cron_partitions := (is_cron_partitions s)[i := p']\<rparr> in if cron_idle_called p' then OnPartitionIdle s' else s')"

definition Instance_TerminateChildren :: "instance_ctx \<Rightarrow> string \<Rightarrow> instance_state \<Rightarrow> instance_state" where
  "Instance_TerminateChildren ix tag s =
     (let s1 = fold (cancel_in ix (IsChildTag (ix_ws ix) tag)) [0..<length (is_partitions s)] s
      in fold (\<lambda>i s. after_cron_call i (CronPartition_TerminateChildren (ix_cron ix) tag (cron_begin (is_cron_partitions s ! i))) s)
           [0..<length (is_cron_partitions s1)] s1)"

definition Instance_CancelJob :: "instance_ctx \<Rightarrow> string \<Rightarrow> string \<Rightarrow> instance_state \<Rightarrow> instance_state" where
  "Instance_CancelJob ix partition_name jid s =
     fold (\<lambda>i s. if partition_name = ws_name (is_partitions s ! i) then cancel_in ix (IsId jid) i s else s) [0..<length (is_partitions s)] s"

text \<open>\<open>Split()\<close>: the text before and after the first separator.\<close>

definition Split :: "char \<Rightarrow> string \<Rightarrow> string \<times> string" where
  "Split c t = (takeWhile (\<lambda>x. x \<noteq> c) t, drop 1 (dropWhile (\<lambda>x. x \<noteq> c) t))"

text \<open>\<open>uid\<close> is the user of a client on this host, or negative.\<close>

definition OnControlPacket :: "instance_ctx \<Rightarrow> control_command \<Rightarrow> string \<Rightarrow> int \<Rightarrow> instance_state \<Rightarrow> control_error + instance_state" where
  "OnControlPacket ix command payload uid s =
     (let is_privileged = 0 \<le> uid
      in case command of
           VERBOSE \<Rightarrow>
             if is_privileged
             then (if length payload \<noteq> 1 then Inl MalformedVerbose else Inr (s\<lparr>is_log_level := of_char (hd payload)\<rparr>))
             else Inr s
         | TERMINATE_CHILDREN \<Rightarrow> Inr (if payload \<noteq> [] then Instance_TerminateChildren ix payload s else s)
         | DISABLE_QUEUE \<Rightarrow>
             if \<not> is_privileged then Inr s
             else if payload = []
             then Inr (on_cron_partitions (\<lambda>p. CronPartition_DisableQueue (cron_begin p)) (on_partitions (\<lambda>p. Partition_DisableQueue (ws_begin p)) s))
             else Inr (on_cron_partitions (\<lambda>p. if payload = cn_name p then CronPartition_DisableQueue (cron_begin p) else p)
                    (on_partitions (\<lambda>p. if payload = ws_name p then Partition_DisableQueue (ws_begin p) else p) s))
         | ENABLE_QUEUE \<Rightarrow>
             if \<not> is_privileged then Inr s
             else if payload = []
             then Inr (on_cron_partitions (\<lambda>p. CronPartition_EnableQueue (cron_begin p)) (on_partitions (\<lambda>p. Partition_EnableQueue (ws_begin p)) s))
             else Inr (on_cron_partitions (\<lambda>p. if payload = cn_name p then CronPartition_EnableQueue (cron_begin p) else p)
                    (on_partitions (\<lambda>p. if payload = ws_name p then Partition_EnableQueue (ws_begin p) else p) s))
         | RELOAD_STATE \<Rightarrow> Inr (if is_privileged then ReloadState ix s else s)
         | CANCEL_JOB \<Rightarrow>
             (let (partition_name, jid) = Split NUL payload
              in Inr (if jid \<noteq> [] then Instance_CancelJob ix partition_name jid s else s))
         | _ \<Rightarrow> Inr s)"

section \<open>Winding down\<close>

text \<open>
  What a list of partitions promises while the instance shuts down. \<open>call\<close> is any call of a
  partition except the one that enables it again; \<open>held\<close> are the processes that it has;
  \<open>called\<close> tells that its last call has invoked the idle callback.
\<close>

locale winding_down =
  fixes call :: "'p \<Rightarrow> 'p \<Rightarrow> bool" and held :: "'p \<Rightarrow> 'k list" and adm :: "'p \<Rightarrow> bool" and called :: "'p \<Rightarrow> bool"
  assumes call_admin: "call p p' \<Longrightarrow> \<not> adm p \<Longrightarrow> \<not> adm p'"
    and call_jobs: "call p p' \<Longrightarrow> \<not> adm p \<Longrightarrow> set (held p') \<subseteq> set (held p)"
    and call_idle: "call p p' \<Longrightarrow> \<not> adm p \<Longrightarrow> held p' = [] \<Longrightarrow> held p = [] \<or> called p'"

text \<open>Every partition is closed, and one without processes is going to be removed.\<close>

definition pool_ok :: "('p \<Rightarrow> 'k list) \<Rightarrow> ('p \<Rightarrow> bool) \<Rightarrow> bool \<Rightarrow> 'p list \<Rightarrow> bool" where
  "pool_ok held adm idle_check ps \<longleftrightarrow> (\<forall>p\<in>set ps. \<not> adm p \<and> (held p = [] \<longrightarrow> idle_check))"

lemma pool_ok_filter: "(\<forall>p\<in>set ps. \<not> adm p) \<Longrightarrow> pool_ok held adm d (filter (\<lambda>p. held p \<noteq> []) ps)"
  by (auto simp: pool_ok_def)

context winding_down
begin

lemma pool_call:
  assumes "list_all2 (\<lambda>p p'. call p p' \<and> (called p' \<longrightarrow> d' \<or> held p' = held p)) ps ps'" "pool_ok held adm d ps" "d \<longrightarrow> d'"
  shows "pool_ok held adm d' ps' \<and> (\<forall>p'\<in>set ps'. \<exists>p\<in>set ps. set (held p') \<subseteq> set (held p))"
proof -
  have "\<exists>p\<in>set ps. \<not> adm p' \<and> set (held p') \<subseteq> set (held p) \<and> (held p' = [] \<longrightarrow> d')" if "p' \<in> set ps'" for p'
  proof -
    obtain p where p: "p \<in> set ps" "call p p'" "called p' \<longrightarrow> d' \<or> held p' = held p"
      using assms(1) \<open>p' \<in> set ps'\<close> unfolding list_all2_conv_all_nth in_set_conv_nth by metis
    have a: "\<not> adm p" "held p = [] \<Longrightarrow> d'" using p(1) assms(2,3) by (auto simp: pool_ok_def)
    show ?thesis using call_admin [OF p(2) a(1)] call_jobs [OF p(2) a(1)] call_idle [OF p(2) a(1)] p a(2) by metis
  qed
  then show ?thesis by (auto simp: pool_ok_def)
qed

end

section \<open>Partitions that wind down\<close>

definition ws_jobs :: "ws_node \<Rightarrow> (nat \<times> workshop_job) list" where
  "ws_jobs p = map (\<lambda>op. (op_key op, op_job op)) (ww_operators (ws_workplace p))"

definition ws_admin :: "ws_node \<Rightarrow> bool" where
  "ws_admin p = wq_enabled_admin (ws_queue p)"

inductive ws_call :: "ws_node \<Rightarrow> ws_node \<Rightarrow> bool" where
  WsHandled: "e \<noteq> WsEnableQueue \<Longrightarrow> ws_handle cx e (ws_begin (share lib p)) = Some p' \<Longrightarrow> ws_call p p'"
| WsShared: "ws_call p (share lib p)"

definition quiet :: "ws_node \<Rightarrow> ws_node \<Rightarrow> bool" where
  "quiet s s' \<longleftrightarrow> ws_jobs s' = ws_jobs s \<and> ws_admin s' = ws_admin s"

lemma quiet_refl [simp]: "quiet s s"
  by (simp add: quiet_def)

lemma quiet_trans: "quiet s s' \<Longrightarrow> quiet s' s'' \<Longrightarrow> quiet s s''"
  by (simp add: quiet_def)

lemma quiet_core: "core s' = core s \<Longrightarrow> quiet s s'"
  using coreD [of s' s] by (simp add: quiet_def ws_jobs_def ws_admin_def)

lemma quiet_place: "same_place s s' \<Longrightarrow> quiet s s'"
  by (simp add: quiet_def ws_jobs_def ws_admin_def same_place_def)

lemma quiet_upd: "(\<And>op. op_key (f op) = op_key op \<and> op_job (f op) = op_job op) \<Longrightarrow> quiet s (upd_operator k f s)"
  by (auto simp: quiet_def ws_jobs_def ws_admin_def upd_operator_def on_ww_def)

lemma quiet_begin [simp]: "quiet p (ws_begin p)" "quiet p (share lib p)"
  by (simp_all add: quiet_def ws_jobs_def ws_admin_def ws_begin_def share_def)

text \<open>Processes go, and the last one is reported.\<close>

definition going :: "ws_node \<Rightarrow> ws_node \<Rightarrow> bool" where
  "going s s' \<longleftrightarrow> ws_admin s' = ws_admin s \<and> set (ws_jobs s') \<subseteq> set (ws_jobs s) \<and> (ws_jobs s' = [] \<longrightarrow> ws_jobs s = [] \<or> ws_idle_called s')"

lemma going_quiet: "quiet s s' \<Longrightarrow> going s s'"
  by (simp add: quiet_def going_def)

lemma quiet_going: "quiet s s' \<Longrightarrow> going s' s'' \<Longrightarrow> going s s''"
  by (simp add: quiet_def going_def)

lemma exit_reports_idle: "ws_jobs (Workshop_OnChildProcessExit cx s) = [] \<Longrightarrow> ws_idle_called (Workshop_OnChildProcessExit cx s)"
proof -
  define s2 where "s2 = (let s1 = UpdateLibraryAndFilter cx False (ScheduleReapFinished s)
    in if \<not> Workplace_IsFull (ws_workplace s1) then on_wq Workshop_EnableFull s1 else s1)"
  have eq: "Workshop_OnChildProcessExit cx s = (if Workshop_IsIdle s2 then ws_act WsIdle s2 else s2)"
    by (simp add: Workshop_OnChildProcessExit_def s2_def Let_def)
  show "ws_jobs (Workshop_OnChildProcessExit cx s) = [] \<Longrightarrow> ws_idle_called (Workshop_OnChildProcessExit cx s)"
    unfolding eq by (auto simp: ws_jobs_def ws_idle_called_def ws_act_def Workshop_IsIdle_def Workplace_IsEmpty_def split: if_splits)
qed

lemma going_exit: "core s1 = core (remove_operators P s) \<Longrightarrow> going s (Workshop_OnChildProcessExit cx s1)"
  using exit_gate(1) [of s1 P s cx] exit_reports_idle [of cx s1] OnChildProcessExit_fields(1) [of s1 cx, unfolded same_place_def] coreD(8) [of s1 "remove_operators P s"]
  by (auto simp: going_def ws_jobs_def ws_admin_def)

lemma going_OnExit: "going s (Workplace_OnExit cx k s)"
  unfolding Workplace_OnExit_eq by (rule going_exit) (rule refl)

lemma going_cancel: "going s (cancel_operators cx P s)"
proof -
  obtain s2 where s2: "core s2 = core (remove_operators P s)"
    "cancel_operators cx P s = (if filter P (ops_of s) = [] then s2 else Workshop_OnChildProcessExit cx s2)"
    by (rule cancel_operators_eq)
  show ?thesis
  proof (cases "filter P (ops_of s) = []")
    case True
    then have "filter (\<lambda>op. \<not> P op) (ops_of s) = ops_of s" by (simp add: filter_empty_conv filter_id_conv)
    then show ?thesis using coreD(1,8) [OF s2(1)] True by (intro going_quiet) (simp add: s2(2) quiet_def ws_jobs_def ws_admin_def)
  next
    case False
    show ?thesis using False going_exit [OF s2(1)] by (simp only: s2(2) if_False)
  qed
qed

lemma quiet_OnControl: "quiet s (Operator_OnControl cx k c s)"
proof -
  have progress: "quiet s (Operator_OnProgress cx k n s)" for n
    unfolding Operator_OnProgress_def
    by (auto simp: Operator_ScheduleTimeout_def split: option.splits intro!: quiet_trans [OF quiet_core [OF core_SetJobProgress] quiet_upd])
  show ?thesis
    by (auto simp: Operator_OnControl_def OnControlClosed_def OnControlAgain_def OnControlSetEnv_def progress
        split: option.splits control_outcome.splits intro!: quiet_upd quiet_core [OF core_reports(2)])
qed

lemma quiet_ReceiveAll: "quiet s (ReceiveAll cx k cs s)"
proof (induction cx k cs s rule: ReceiveAll.induct)
  case (2 cx k cs s)
  show ?case by (auto simp: OnControlClosed_def intro!: quiet_upd)
next
  case (3 cx k c cs s)
  show ?case using quiet_trans [OF quiet_OnControl 3] by simp
qed simp

lemma quiet_drain: "quiet s (Operator_drain cx k pending rest s)"
proof -
  let ?s1 = "upd_operator k (\<lambda>op. op\<lparr>op_exited := True\<rparr>) s"
  have 1: "quiet s ?s1" by (rule quiet_upd) simp
  have 2: "quiet s (case find_operator k ?s1 of Some op \<Rightarrow> if op_control_channel op then ReceiveAll cx k pending ?s1 else ?s1 | None \<Rightarrow> ?s1)"
    using 1 quiet_trans [OF 1 quiet_ReceiveAll] by (simp split: option.splits)
  show ?thesis unfolding Operator_drain_def Let_def by (rule quiet_trans [OF 2 quiet_upd]) simp
qed

lemma going_process_exit: "going s (Operator_OnChildProcessExit cx k st pending rest usage s)"
  using quiet_going [OF quiet_trans [OF quiet_drain quiet_core [OF core_Operator_report]] going_OnExit]
  by (auto simp: Operator_OnChildProcessExit_def Let_def going_quiet split: option.splits)

lemma going_completion: "going s (OnTaskCompletion cx k err s)"
  using quiet_going [OF quiet_core [OF core_SetJobDone] going_OnExit]
  by (auto simp: OnTaskCompletion_def going_quiet split: option.splits)

lemma going_timeout: "going s (Operator_OnTimeout cx k s)"
proof -
  have "core (ws_act (WsKill j) (SetJobDone cx job st l s)) = core s" for j job st l by (simp add: frame)
  then show ?thesis using quiet_going [OF quiet_core going_OnExit]
    by (auto simp: Operator_OnTimeout_def Workplace_OnTimeout_def going_quiet split: option.splits)
qed

lemma quiet_sticky: "quiet s (EnableDisableSticky s)"
  by (simp add: EnableDisableSticky_def quiet_def ws_jobs_def ws_admin_def split: option.splits)

lemma quiet_wq: "wq_enabled_admin (f (ws_queue s)) = wq_enabled_admin (ws_queue s) \<Longrightarrow> quiet s (on_wq f s)"
  by (simp add: quiet_def ws_jobs_def ws_admin_def on_wq_def)

lemma quiet_other: "quiet s (s\<lparr>ws_sticky := m\<rparr>)" "quiet s (s\<lparr>ws_db := db\<rparr>)"
  by (simp_all add: quiet_def ws_jobs_def ws_admin_def)

lemma OnNotify_admin: "wq_enabled_admin (Workshop_OnNotify n q) = wq_enabled_admin q"
  by (cases "drop (length n - length ''new_job'') n = ''new_job''") (simp_all add: Workshop_OnNotify_def Workshop_Reschedule_def Workshop_ScheduleTimer_def)

text \<open>A handler that closes the queue keeps it closed.\<close>

lemma closing_fields:
  "ws_jobs (Partition_DisableQueue s) = ws_jobs s" "\<not> ws_admin (Partition_DisableQueue s)"
  "ws_jobs (Workshop_BeginShutdown s) = ws_jobs s" "\<not> ws_admin (Workshop_BeginShutdown s)"
  using quiet_sticky [of "on_wq Workshop_DisableAdmin s"]
  by (simp_all add: Partition_DisableQueue_def quiet_def)
    (simp_all add: Workshop_BeginShutdown_def ws_jobs_def ws_admin_def on_wq_def Workshop_DisableAdmin_def Workshop_CheckEnabled_def)

lemma ws_handle_going:
  assumes "e \<noteq> WsEnableQueue" "ws_handle cx e s = Some s'" "\<not> ws_admin s"
  shows "\<not> ws_admin s' \<and> set (ws_jobs s') \<subseteq> set (ws_jobs s) \<and> (ws_jobs s' = [] \<longrightarrow> ws_jobs s = [] \<or> ws_idle_called s')"
proof -
  have "going s s' \<or> e = WsDisableQueue \<or> e = WsBeginShutdown"
  proof (cases e)
    case WsTimer
    then show ?thesis using assms(2,3)
      by (intro disjI1 going_quiet quiet_core) (auto simp: Workshop_OnTimer_def Workshop_Run_def Workshop_IsEnabled_def ws_admin_def core_wq on_wq_def core_def)
  next
    case WsReapTimer
    then show ?thesis using assms(2) by (intro disjI1 going_quiet quiet_core) (simp add: OnReapTimer_core)
  next
    case WsConnected
    then have "s' = snd (Workshop_OnConnect cx (on_wq (\<lambda>q. q\<lparr>wq_db_ready := True\<rparr>) s))" using assms(2) by simp
    then show ?thesis by (intro disjI1 going_quiet quiet_core) (simp only: core_OnConnect, simp add: core_def on_wq_def)
  next
    case (WsSetStateEnabled b)
    have "quiet s (on_wq (Workshop_SetStateEnabled b) s)"
      by (rule quiet_wq) (simp add: Workshop_SetStateEnabled_def Workshop_CheckEnabled_def Workshop_Reschedule_def Workshop_ScheduleTimer_def)
    then show ?thesis using assms(2) WsSetStateEnabled quiet_trans [OF _ quiet_sticky]
      by (intro disjI1 going_quiet) (auto simp: Partition_SetStateEnabled_def)
  next
    case (WsUpdateFilter m)
    then show ?thesis using assms(2) UpdateFilter_fields(1) [of s cx m] by (intro disjI1 going_quiet quiet_place) auto
  next
    case (WsUpdateLibrary f)
    then show ?thesis using assms(2) UpdateLibraryAndFilter_fields(1) [of s cx f] by (intro disjI1 going_quiet quiet_place) auto
  next
    case WsRateLimitTimer
    have "quiet s (s\<lparr>ws_rate_limit_timer := None\<rparr>)" by (simp add: quiet_def ws_jobs_def ws_admin_def)
    then show ?thesis using assms(2) WsRateLimitTimer quiet_trans [OF _ quiet_place [OF UpdateFilter_fields(1)]]
      by (intro disjI1 going_quiet) (auto simp: OnRateLimitTimer_def)
  next
    case (WsProgress k n)
    then have "s' = Operator_OnControl cx k (Some (CtlProgress n)) s" using assms(2) by (simp add: Operator_OnControl_def)
    then show ?thesis by (intro disjI1 going_quiet) (simp add: quiet_OnControl)
  qed (use assms in \<open>auto intro!: going_completion going_timeout going_process_exit going_cancel going_quiet quiet_OnControl quiet_upd
      quiet_core [OF core_OnProgressNotifyTimer] quiet_core [OF core_reports(5)] quiet_wq quiet_other simp: Workplace_CancelJob_def
      Workplace_CancelTag_def Workshop_OnStickyChanged_def Workshop_OnDisconnect_def OnNotify_admin Operator_spawned_def InitControl_def InitLog_def Let_def\<close>)
  then show ?thesis
  proof (elim disjE)
    assume "going s s'"
    then show ?thesis using assms(3) by (simp add: going_def)
  qed (use assms(2) closing_fields [of s] in auto)
qed

interpretation workshop_drain: winding_down ws_call ws_jobs ws_admin ws_idle_called
proof
  fix p p' assume "ws_call p p'" "\<not> ws_admin p"
  then have "\<not> ws_admin p' \<and> set (ws_jobs p') \<subseteq> set (ws_jobs p) \<and> (ws_jobs p' = [] \<longrightarrow> ws_jobs p = [] \<or> ws_idle_called p')"
  proof cases
    case (WsHandled e cx lib)
    have q: "quiet p (ws_begin (share lib p))" by (rule quiet_trans [OF quiet_begin(2) quiet_begin(1)])
    show ?thesis using ws_handle_going [OF WsHandled] q \<open>\<not> ws_admin p\<close> by (simp add: quiet_def)
  next
    case (WsShared lib)
    then show ?thesis using \<open>\<not> ws_admin p\<close> quiet_begin(2) [of p lib] by (simp add: quiet_def)
  qed
  then show "\<not> ws_admin p'" "set (ws_jobs p') \<subseteq> set (ws_jobs p)" "ws_jobs p' = [] \<Longrightarrow> ws_jobs p = [] \<or> ws_idle_called p'" by auto
qed

text \<open>The same for cron partitions.\<close>

definition cron_jobs :: "cron_node \<Rightarrow> (nat \<times> cron_job) list" where
  "cron_jobs p = map (\<lambda>r. (rn_key r, rn_job r)) (wp_running (cn_workplace p))"

definition cron_admin :: "cron_node \<Rightarrow> bool" where
  "cron_admin p = cq_enabled_admin (cn_queue p)"

inductive cron_call :: "cron_node \<Rightarrow> cron_node \<Rightarrow> bool" where
  CronHandled: "ev \<noteq> EvEnableQueue \<Longrightarrow> cron_step cx ev (cron_begin p) p' \<Longrightarrow> cron_call p p'"
| CronCancelTag: "cron_call p (CronPartition_TerminateChildren cx tag (cron_begin p))"
| CronUntouched: "cron_call p p"

definition cron_going :: "cron_node \<Rightarrow> cron_node \<Rightarrow> bool" where
  "cron_going s s' \<longleftrightarrow> (cron_admin s' \<longrightarrow> cron_admin s) \<and> set (cron_jobs s') \<subseteq> set (cron_jobs s)
     \<and> (cron_jobs s' = [] \<longrightarrow> cron_jobs s = [] \<or> cron_idle_called s')"

lemma cron_going_frame:
  "cn_workplace s' = cn_workplace s \<Longrightarrow> fst (snd (cq_flags s')) = fst (snd (cq_flags s)) \<Longrightarrow> cron_going s s'"
  by (simp add: cron_going_def cron_jobs_def cron_admin_def cq_flags_def)

lemma cron_going_exit:
  assumes "set (wp_running (cn_workplace t)) \<subseteq> set (wp_running (cn_workplace s))" "cq_enabled_admin (cn_queue t) = cq_enabled_admin (cn_queue s)"
  shows "cron_going s (CronPartition_OnChildProcessExit t)"
proof -
  define t1 where "t1 = (if \<not> CronWorkplace_IsFull (cn_workplace t) then CronQueue_EnableFull t else t)"
  have t1: "cn_workplace t1 = cn_workplace t" "cron_admin t1 = cron_admin t"
    by (simp_all add: t1_def CronQueue_EnableFull_def cron_admin_def on_queue_def CronQueue_CheckEnabled_def act_def CronQueue_ScheduleClaim_def Let_def)
  have eq: "CronPartition_OnChildProcessExit t = (if CronPartition_IsIdle t1 then act IdleCallback t1 else t1)"
    by (simp add: CronPartition_OnChildProcessExit_def t1_def Let_def)
  show ?thesis unfolding eq using assms t1
    by (auto simp: cron_going_def cron_jobs_def cron_admin_def CronPartition_IsIdle_def CronWorkplace_IsEmpty_def cron_idle_called_def act_def)
qed

lemma cancel_running_frame:
  "set (wp_running (cn_workplace (cancel_running cx rs s))) \<subseteq> set (wp_running (cn_workplace s)) \<and> cq_flags (cancel_running cx rs s) = cq_flags s"
proof (induction rs arbitrary: s)
  case (Cons r rs)
  show ?case using Cons [of "Running_Cancel cx r (remove_running (rn_key r) s)"]
    by (auto simp: Running_Cancel_def remove_running_def)
qed simp

lemma cron_going_OnCompletion: "cron_going s (CronWorkplace_OnCompletion r (Running_SetResult cx r res s))"
proof -
  have "cq_flags (Running_SetResult cx r res s) = cq_flags s" by simp
  then show ?thesis unfolding CronWorkplace_OnCompletion_def by (intro cron_going_exit) (auto simp: remove_running_def cq_flags_def)
qed

lemma cron_going_cancel: "cron_going s (CronPartition_OnChildProcessExit (cancel_running cx rs s))"
  using cancel_running_frame [of cx rs s] by (intro cron_going_exit) (auto simp: cq_flags_def)

lemma cron_going_exits: "cron_going s (cron_exit_run cx k s)"
  by (cases k) (auto simp: Running_OnCompletion_def Running_OnTimeout_def CronWorkplace_CancelAll_def CronWorkplace_CancelTag_def Let_def
      cron_going_OnCompletion cron_going_cancel split: sum.splits intro: cron_going_frame)

lemma BeginShutdown_going:
  "cron_going s (CronPartition_BeginShutdown cx s) \<and> \<not> cron_admin (CronPartition_BeginShutdown cx s)"
proof -
  let ?t = "(CronQueue_DisableAdmin (s\<lparr>cn_sticky := map_option Sticky_BeginShutdown (cn_sticky s)\<rparr>))\<lparr>cn_workplace := (cn_workplace s)\<lparr>wp_shutting_down := True\<rparr>\<rparr>"
  have t: "cron_jobs ?t = cron_jobs s" "\<not> cron_admin ?t" by (simp_all add: cron_jobs_def cron_admin_def CronQueue_DisableAdmin_def on_queue_def)
  have a: "cron_jobs (act a u) = cron_jobs u" "cron_admin (act a u) = cron_admin u" "cron_idle_called u \<Longrightarrow> cron_idle_called (act a u)" for a u
    by (simp_all add: cron_jobs_def cron_admin_def cron_idle_called_def act_def)
  show ?thesis unfolding BeginShutdown_eq using cron_going_exits [of ?t cx ExitCancelAll] t by (auto simp: cron_going_def a)
qed

lemma cron_step_going: "cron_step cx ev s s' \<Longrightarrow> ev \<noteq> EvEnableQueue \<Longrightarrow> \<not> cron_admin s \<Longrightarrow> cron_going s s'"
proof (induction rule: cron_step.induct)
  case (ClaimTimer s s')
  then show ?case by (simp add: CronQueue_RunClaim_def CronQueue_IsEnabled_def cron_admin_def cron_going_def)
next
  case (SchedulerTimer s s')
  then show ?case using CronQueue_RunScheduler_gate [of cx s s'] by (intro cron_going_frame) simp_all
next
  case (Connected s x s')
  let ?s0 = "on_queue (\<lambda>q. q\<lparr>cq_db_defined := True, cq_db_ready := True\<rparr>) s"
  show ?case using CronQueue_OnConnect_gate [of cx ?s0] Connected(1) by (intro cron_going_frame) (simp_all add: cq_flags_def)
next
  case (Exited s k)
  show ?case by (rule cron_going_exits)
next
  case (StickyChanged s)
  show ?case by (rule cron_going_frame) (simp_all add: CronPartition_OnStickyChanged_def)
next
  case (Shutdown s)
  show ?case using BeginShutdown_going by blast
next
  case (DisableQueue s)
  show ?case using switch_frame(3,4) [of s] by (simp add: cron_going_def cron_jobs_def cron_admin_def cq_flags_def)
next
  case (Disconnected s d)
  show ?case by (rule cron_going_frame) (simp_all add: cq_flags_def CronQueue_OnDisconnect_def)
next
  case (Notified s name)
  show ?case by (rule cron_going_frame) (simp_all add: cq_flags_def CronQueue_OnNotify_def CronQueue_ScheduleScheduler_def CronQueue_ScheduleClaim_def)
next
  case (SetStateEnabled s b)
  show ?case using switch_frame(1,2) [of b s] by (intro cron_going_frame) (simp_all add: cq_flags_def)
qed (simp_all add: cron_going_frame)

interpretation cron_drain: winding_down cron_call cron_jobs cron_admin cron_idle_called
proof
  fix p p' assume "cron_call p p'" "\<not> cron_admin p"
  then have "cron_going (cron_begin p) p' \<or> p' = p"
  proof cases
    case (CronHandled ev cx)
    then show ?thesis using cron_step_going [of cx ev "cron_begin p" p'] \<open>\<not> cron_admin p\<close> by (simp add: cron_admin_def cron_begin_def)
  next
    case (CronCancelTag cx tag)
    then show ?thesis using cron_going_exits [of "cron_begin p" cx "ExitCancelTag tag"] by (simp add: CronPartition_TerminateChildren_def)
  qed simp
  moreover have "cron_jobs (cron_begin p) = cron_jobs p" "cron_admin (cron_begin p) = cron_admin p"
    by (simp_all add: cron_jobs_def cron_admin_def cron_begin_def)
  ultimately have "\<not> cron_admin p' \<and> set (cron_jobs p') \<subseteq> set (cron_jobs p) \<and> (cron_jobs p' = [] \<longrightarrow> cron_jobs p = [] \<or> cron_idle_called p')"
    using \<open>\<not> cron_admin p\<close> by (auto simp: cron_going_def)
  then show "\<not> cron_admin p'" "set (cron_jobs p') \<subseteq> set (cron_jobs p)" "cron_jobs p' = [] \<Longrightarrow> cron_jobs p = [] \<or> cron_idle_called p'" by auto
qed

section \<open>Shutdown\<close>

text \<open>
  The events of an instance. Those of a partition are its own: timers, the database, its
  processes and its cluster; the rest comes through the instance. \<open>refresh\<close> is arbitrary: every call
  may have made the instance update all the filters.
\<close>

fun own_event :: "ws_event \<Rightarrow> bool" where
  "own_event (WsSetStateEnabled b) = False"
| "own_event WsDisableQueue = False"
| "own_event WsEnableQueue = False"
| "own_event WsBeginShutdown = False"
| "own_event (WsCancelJob j) = False"
| "own_event (WsTerminateChildren t) = False"
| "own_event (WsUpdateLibrary f) = False"
| "own_event (WsUpdateFilter m) = False"
| "own_event e = True"

inductive instance_step :: "instance_state \<Rightarrow> instance_state \<Rightarrow> bool" where
  Packet: "0 < is_control_servers s \<Longrightarrow> OnControlPacket ix command payload uid s = Inr s' \<Longrightarrow> instance_step s s'"
| ExitSignal: "is_shutdown_listener s \<Longrightarrow> instance_step s (Instance_OnExit ix s)"
| Hangup: "is_sighup_event s \<Longrightarrow> instance_step s (Instance_OnReload ix s)"
| PartitionEvent: "i < length (is_partitions s) \<Longrightarrow> own_event e \<Longrightarrow> ws_handle (ix_ws ix) e (ws_begin (is_partitions s ! i)) = Some p' \<Longrightarrow>
    instance_step s (after_call ix refresh i p' s)"
| CronEvent: "i < length (is_cron_partitions s) \<Longrightarrow> ev \<notin> {EvSetStateEnabled, EvDisableQueue, EvEnableQueue, EvShutdown} \<Longrightarrow>
    cron_step (ix_cron (ix :: instance_ctx)) ev (cron_begin (is_cron_partitions s ! i)) p' \<Longrightarrow> instance_step s (after_cron_call i p' s)"
| IdleCheck: "is_defer_idle_check s \<Longrightarrow> instance_step s (OnIdleCheck s)"

text \<open>What a step leaves alone unless it is the exit.\<close>

definition exit_part :: "instance_state \<Rightarrow> bool \<times> bool \<times> bool \<times> nat" where
  "exit_part s = (is_should_exit s, is_shutdown_listener s, is_sighup_event s, is_control_servers s)"

lemma exit_part_on [simp]:
  "exit_part (on_partitions f s) = exit_part s" "exit_part (on_cron_partitions g s) = exit_part s" "exit_part (ReloadState ix s) = exit_part s"
  "exit_part (Instance_UpdateFilter ix m s) = exit_part s" "exit_part (OnPartitionIdle s) = exit_part s" "exit_part (OnIdleCheck s) = exit_part s"
  "exit_part (after_call ix r i p' s) = exit_part s" "exit_part (after_cron_call i q' s) = exit_part s" "exit_part (s\<lparr>is_library := l\<rparr>) = exit_part s"
  by (simp_all add: exit_part_def on_partitions_def on_cron_partitions_def ReloadState_def Instance_UpdateFilter_def OnPartitionIdle_def
      OnIdleCheck_def RemoveIdlePartitions_def after_call_def after_cron_call_def Let_def)

lemma exit_part_update [simp]:
  "exit_part (Instance_UpdateLibraryAndFilter ix f s) = exit_part s" "exit_part (Instance_OnReload ix s) = exit_part s"
proof -
  show u: "exit_part (Instance_UpdateLibraryAndFilter ix f s) = exit_part s" for f s
    by (simp add: Instance_UpdateLibraryAndFilter_def Let_def case_prod_beta split: option.splits)
  show "exit_part (Instance_OnReload ix s) = exit_part s" by (simp add: Instance_OnReload_def u)
qed

lemma exit_part_fold: "(\<And>i s. exit_part (f i s) = exit_part s) \<Longrightarrow> exit_part (fold f xs s) = exit_part s"
  by (induction xs arbitrary: s) simp_all

lemma exit_part_cancel [simp]: "exit_part (cancel_in ix P i s) = exit_part s"
  by (simp add: cancel_in_def Let_def)

lemma exit_part_packet: "OnControlPacket ix command payload uid s = Inr s' \<Longrightarrow> exit_part s' = exit_part s"
proof -
  assume a: "OnControlPacket ix command payload uid s = Inr s'"
  have "exit_part (Instance_TerminateChildren ix tag s) = exit_part s" "exit_part (Instance_CancelJob ix n j s) = exit_part s" for tag n j
    by (simp_all add: Instance_TerminateChildren_def Instance_CancelJob_def Let_def exit_part_fold)
  moreover have "exit_part (s\<lparr>is_log_level := n\<rparr>) = exit_part s" for n by (simp add: exit_part_def)
  ultimately show ?thesis using a by (cases command) (auto simp: OnControlPacket_def Let_def case_prod_beta split: if_splits)
qed

text \<open>The invariant.\<close>

definition exit_ok :: "instance_state \<Rightarrow> bool" where
  "exit_ok s \<longleftrightarrow> (is_should_exit s \<longrightarrow> \<not> is_shutdown_listener s \<and> \<not> is_sighup_event s \<and> is_control_servers s = 0
     \<and> pool_ok ws_jobs ws_admin (is_defer_idle_check s) (is_partitions s) \<and> pool_ok cron_jobs cron_admin (is_defer_idle_check s) (is_cron_partitions s))"

lemma idle_jobs: "Workshop_IsIdle p \<longleftrightarrow> ws_jobs p = []" "CronPartition_IsIdle q \<longleftrightarrow> cron_jobs q = []"
  by (simp_all add: Workshop_IsIdle_def Workplace_IsEmpty_def ws_jobs_def CronPartition_IsIdle_def CronWorkplace_IsEmpty_def cron_jobs_def)

lemma exit_ok_OnExit: "\<not> is_should_exit s \<Longrightarrow> exit_ok (Instance_OnExit ix s)"
proof -
  assume "\<not> is_should_exit s"
  then have p: "is_partitions (Instance_OnExit ix s) = filter (\<lambda>p. ws_jobs p \<noteq> []) (map (\<lambda>p. Workshop_BeginShutdown (ws_begin p)) (is_partitions s))"
    and q: "is_cron_partitions (Instance_OnExit ix s) = filter (\<lambda>p. cron_jobs p \<noteq> []) (map (\<lambda>p. CronPartition_BeginShutdown (ix_cron ix) (cron_begin p)) (is_cron_partitions s))"
    and rest: "is_control_servers (Instance_OnExit ix s) = 0" "\<not> is_shutdown_listener (Instance_OnExit ix s)" "\<not> is_sighup_event (Instance_OnExit ix s)"
    by (simp_all add: Instance_OnExit_def Let_def RemoveIdlePartitions_def OnPartitionIdle_def on_partitions_def on_cron_partitions_def idle_jobs)
  have "pool_ok ws_jobs ws_admin d (is_partitions (Instance_OnExit ix s))" "pool_ok cron_jobs cron_admin d (is_cron_partitions (Instance_OnExit ix s))" for d
    unfolding p q by (rule pool_ok_filter; simp add: closing_fields BeginShutdown_going)+
  then show ?thesis using rest by (simp add: exit_ok_def)
qed

text \<open>The processes of the whole instance.\<close>

definition running_here :: "instance_state \<Rightarrow> ((nat \<times> workshop_job) + (nat \<times> cron_job)) set" where
  "running_here s = Inl ` (\<Union>p\<in>set (is_partitions s). set (ws_jobs p)) \<union> Inr ` (\<Union>p\<in>set (is_cron_partitions s). set (cron_jobs p))"

lemma running_here_mono:
  assumes "(\<Union>p\<in>set (is_partitions s'). set (ws_jobs p)) \<subseteq> (\<Union>p\<in>set (is_partitions s). set (ws_jobs p))"
    "(\<Union>p\<in>set (is_cron_partitions s'). set (cron_jobs p)) \<subseteq> (\<Union>p\<in>set (is_cron_partitions s). set (cron_jobs p))"
  shows "running_here s' \<subseteq> running_here s"
  unfolding running_here_def using assms by (intro Un_mono image_mono)

lemma exit_ok_calls:
  assumes "exit_ok s" "is_should_exit s" "exit_part s' = exit_part s" "is_defer_idle_check s \<longrightarrow> is_defer_idle_check s'"
    "list_all2 (\<lambda>p p'. ws_call p p' \<and> (ws_idle_called p' \<longrightarrow> is_defer_idle_check s' \<or> ws_jobs p' = ws_jobs p)) (is_partitions s) (is_partitions s')"
    "list_all2 (\<lambda>p p'. cron_call p p' \<and> (cron_idle_called p' \<longrightarrow> is_defer_idle_check s' \<or> cron_jobs p' = cron_jobs p)) (is_cron_partitions s) (is_cron_partitions s')"
  shows "exit_ok s' \<and> running_here s' \<subseteq> running_here s"
proof -
  have pools: "pool_ok ws_jobs ws_admin (is_defer_idle_check s) (is_partitions s)" "pool_ok cron_jobs cron_admin (is_defer_idle_check s) (is_cron_partitions s)"
    using assms(1,2) by (simp_all add: exit_ok_def)
  note w = workshop_drain.pool_call [OF assms(5) pools(1) assms(4)] and c = cron_drain.pool_call [OF assms(6) pools(2) assms(4)]
  have "exit_ok s'" using w c assms(1-3) by (simp add: exit_ok_def exit_part_def)
  moreover have "(\<Union>p\<in>set (is_partitions s'). set (ws_jobs p)) \<subseteq> (\<Union>p\<in>set (is_partitions s). set (ws_jobs p))" using conjunct2 [OF w] by blast
  moreover have "(\<Union>p\<in>set (is_cron_partitions s'). set (cron_jobs p)) \<subseteq> (\<Union>p\<in>set (is_cron_partitions s). set (cron_jobs p))" using conjunct2 [OF c] by blast
  ultimately show ?thesis by (intro conjI running_here_mono)
qed

lemma ws_call_UpdateFilter: "ws_call p (UpdateFilter cx m (ws_begin (share lib p)))"
  by (rule WsHandled [where e = "WsUpdateFilter m" and cx = cx and lib = lib]) simp_all

lemma ws_jobs_UpdateFilter: "ws_jobs (UpdateFilter cx m (ws_begin (share lib p))) = ws_jobs p"
  using quiet_trans [OF quiet_trans [OF quiet_begin(2) quiet_begin(1)] quiet_place [OF UpdateFilter_fields(1) [of "ws_begin (share lib p)" cx m]]]
  by (simp add: quiet_def)

lemma ws_jobs_share [simp]: "ws_jobs (share lib p) = ws_jobs p"
  using quiet_begin(2) [of p lib] by (simp add: quiet_def)

lemma cron_all_untouched: "list_all2 (\<lambda>p p'. cron_call p p' \<and> (cron_idle_called p' \<longrightarrow> d \<or> cron_jobs p' = cron_jobs p)) ps ps"
  by (simp add: list_all2_same CronUntouched)

lemma ws_all_untouched: "list_all2 (\<lambda>p p'. ws_call p p' \<and> (ws_idle_called p' \<longrightarrow> d \<or> ws_jobs p' = ws_jobs p)) ps ps"
proof -
  have "ws_call p p" for p using WsShared [of p "ws_library p"] by (simp add: share_def)
  then show ?thesis by (simp add: list_all2_same)
qed

lemma exit_ok_after_call:
  assumes "exit_ok s" "is_should_exit s" "i < length (is_partitions s)" "ws_call (is_partitions s ! i) p'"
  shows "exit_ok (after_call ix refresh i p' s) \<and> running_here (after_call ix refresh i p' s) \<subseteq> running_here s"
proof -
  let ?s = "after_call ix refresh i p' s"
  let ?o = "\<lambda>q. case refresh of None \<Rightarrow> share (ws_library p') q | Some m \<Rightarrow> UpdateFilter (ix_ws ix) m (ws_begin (share (ws_library p') q))"
  have ps: "is_partitions ?s = (map ?o (is_partitions s))[i := p']" and cs: "is_cron_partitions ?s = is_cron_partitions s"
    and d: "is_defer_idle_check ?s \<longleftrightarrow> is_defer_idle_check s \<or> ws_idle_called p'"
    using assms(2) by (auto simp: after_call_def Let_def OnPartitionIdle_def)
  have o: "ws_call q (?o q) \<and> ws_jobs (?o q) = ws_jobs q" for q
    by (cases refresh) (simp_all add: WsShared ws_call_UpdateFilter ws_jobs_UpdateFilter)
  have "list_all2 (\<lambda>p p'. ws_call p p' \<and> (ws_idle_called p' \<longrightarrow> is_defer_idle_check ?s \<or> ws_jobs p' = ws_jobs p)) (is_partitions s) (is_partitions ?s)"
    unfolding ps list_all2_conv_all_nth using assms(3,4) o d by (auto simp: nth_list_update)
  moreover have "list_all2 (\<lambda>p p'. cron_call p p' \<and> (cron_idle_called p' \<longrightarrow> is_defer_idle_check ?s \<or> cron_jobs p' = cron_jobs p)) (is_cron_partitions s) (is_cron_partitions ?s)"
    unfolding cs by (rule cron_all_untouched)
  ultimately show ?thesis using d by (intro exit_ok_calls [OF assms(1,2)]) simp_all
qed

lemma exit_ok_after_cron_call:
  assumes "exit_ok s" "is_should_exit s" "i < length (is_cron_partitions s)" "cron_call (is_cron_partitions s ! i) p'"
  shows "exit_ok (after_cron_call i p' s) \<and> running_here (after_cron_call i p' s) \<subseteq> running_here s"
proof -
  let ?s = "after_cron_call i p' s"
  have ps: "is_cron_partitions ?s = (is_cron_partitions s)[i := p']" and cs: "is_partitions ?s = is_partitions s"
    and d: "is_defer_idle_check ?s \<longleftrightarrow> is_defer_idle_check s \<or> cron_idle_called p'"
    using assms(2) by (auto simp: after_cron_call_def Let_def OnPartitionIdle_def)
  have "list_all2 (\<lambda>p p'. cron_call p p' \<and> (cron_idle_called p' \<longrightarrow> is_defer_idle_check ?s \<or> cron_jobs p' = cron_jobs p)) (is_cron_partitions s) (is_cron_partitions ?s)"
    unfolding ps list_all2_conv_all_nth using assms(3,4) d by (auto simp: nth_list_update CronUntouched)
  moreover have "list_all2 (\<lambda>p p'. ws_call p p' \<and> (ws_idle_called p' \<longrightarrow> is_defer_idle_check ?s \<or> ws_jobs p' = ws_jobs p)) (is_partitions s) (is_partitions ?s)"
    unfolding cs by (rule ws_all_untouched)
  ultimately show ?thesis using d by (intro exit_ok_calls [OF assms(1,2)]) simp_all
qed

lemma exit_ok_OnIdleCheck: "exit_ok s \<Longrightarrow> is_should_exit s \<Longrightarrow> exit_ok (OnIdleCheck s) \<and> running_here (OnIdleCheck s) \<subseteq> running_here s"
  by (auto simp: exit_ok_def OnIdleCheck_def RemoveIdlePartitions_def idle_jobs pool_ok_def running_here_def)

lemma shutdown_step:
  assumes "instance_step s s'" "exit_ok s" "is_should_exit s"
  shows "exit_ok s' \<and> running_here s' \<subseteq> running_here s"
  using assms(1)
proof cases
  case (PartitionEvent i e ix p' refresh)
  have "share (ws_library q) q = q" for q by (simp add: share_def)
  then have "ws_call (is_partitions s ! i) p'" using PartitionEvent(3,4) by (intro WsHandled [where lib = "ws_library (is_partitions s ! i)"]) auto
  then show ?thesis unfolding PartitionEvent(1) by (rule exit_ok_after_call [OF assms(2,3) PartitionEvent(2)])
next
  case (CronEvent i ev ix p')
  then show ?thesis using exit_ok_after_cron_call [OF assms(2,3)] CronHandled [of ev "ix_cron ix"] by auto
next
  case IdleCheck
  then show ?thesis using exit_ok_OnIdleCheck [OF assms(2,3)] by simp
qed (use assms(2,3) in \<open>simp_all add: exit_ok_def\<close>)

lemma instance_step_ok: "instance_step s s' \<Longrightarrow> exit_ok s \<Longrightarrow> exit_ok s'"
proof (cases "is_should_exit s")
  case False
  assume "instance_step s s'"
  then show ?thesis
  proof cases
    case (ExitSignal ix)
    then show ?thesis using exit_ok_OnExit [OF False] by simp
  next
    case (Packet ix command payload uid)
    then show ?thesis using exit_part_packet [OF Packet(2)] False by (simp add: exit_ok_def exit_part_def)
  next
    case (Hangup ix)
    then show ?thesis using exit_part_update(2) [of ix s] False by (simp add: exit_ok_def exit_part_def)
  next
    case (PartitionEvent i e ix p' refresh)
    then show ?thesis using exit_part_on(7) [of ix refresh i p' s] False by (simp add: exit_ok_def exit_part_def)
  next
    case (CronEvent i ev ix p')
    then show ?thesis using exit_part_on(8) [of i p' s] False by (simp add: exit_ok_def exit_part_def)
  next
    case IdleCheck
    then show ?thesis using exit_part_on(6) [of s] False by (simp add: exit_ok_def exit_part_def)
  qed
qed (simp add: shutdown_step)

lemma shutdown_steps:
  assumes "instance_step\<^sup>*\<^sup>* s s'" "exit_ok s" "is_should_exit s"
  shows "exit_ok s' \<and> is_should_exit s' \<and> running_here s' \<subseteq> running_here s"
  using assms(1)
proof (induction rule: rtranclp_induct)
  case (step t u)
  have "is_should_exit u"
    using step.hyps(2) step.IH
  proof cases
    case (Packet ix command payload uid)
    then show ?thesis using exit_part_packet [OF Packet(2)] step.IH by (simp add: exit_part_def)
  qed (use exit_part_on(6-8) exit_part_update(2) in \<open>auto simp: exit_part_def Instance_OnExit_def\<close>)
  then show ?case using shutdown_step [OF step.hyps(2)] step.IH by blast
qed (use assms in simp)

lemma Start_not_exit: "\<not> is_should_exit (Instance_Start ix (Instance_init ws cs n lib wdb cdb))"
proof -
  let ?s = "Instance_init ws cs n lib wdb cdb"
  have "exit_part (Instance_Start ix ?s) = exit_part ?s" by (simp add: Instance_Start_def Let_def)
  then show ?thesis by (simp add: exit_part_def Instance_init_def)
qed


definition sample_ix :: instance_ctx where
  "sample_ix = \<lparr>ix_ws = sample_ws_ctx, ix_cron = sample_ctx, ix_get_bool = (\<lambda>path b. b)\<rparr>"

definition sample_instance :: instance_state where
  "sample_instance = Instance_init [sample_ws_setup] [sample_setup] 1 (Some [library_init]) sample_ws_db (cn_db (sample_node 1 [sample_pending]))"


section \<open>Who may do what\<close>

text \<open>The switches of all partitions.\<close>

definition switches :: "instance_state \<Rightarrow> (bool \<times> bool) list \<times> (bool \<times> bool) list" where
  "switches s = (map (\<lambda>p. (wq_enabled_state (ws_queue p), wq_enabled_admin (ws_queue p))) (is_partitions s),
     map (\<lambda>p. (cq_enabled_state (cn_queue p), cq_enabled_admin (cn_queue p))) (is_cron_partitions s))"

text \<open>Nothing but processes that end.\<close>

definition only_ends :: "instance_state \<Rightarrow> instance_state \<Rightarrow> bool" where
  "only_ends s s' \<longleftrightarrow> switches s' = switches s \<and> is_log_level s' = is_log_level s \<and> running_here s' \<subseteq> running_here s
     \<and> length (is_partitions s') = length (is_partitions s) \<and> length (is_cron_partitions s') = length (is_cron_partitions s)"

lemma only_ends_refl: "only_ends s s"
  by (simp add: only_ends_def)

lemma only_ends_trans: "only_ends s s' \<Longrightarrow> only_ends s' s'' \<Longrightarrow> only_ends s s''"
  unfolding only_ends_def by (metis subset_trans)

lemma only_ends_fold:
  "(\<And>i s'. i \<in> set xs \<Longrightarrow> only_ends s s' \<Longrightarrow> only_ends s' (f i s')) \<Longrightarrow> only_ends s s0 \<Longrightarrow> only_ends s (fold f xs s0)"
proof (induction xs arbitrary: s0)
  case (Cons x xs)
  have "only_ends s (f x s0)" using Cons.prems by (meson list.set_intros(1) only_ends_trans)
  then show ?case using Cons by simp
qed simp

definition ends_in :: "ws_node \<Rightarrow> ws_node \<Rightarrow> bool" where
  "ends_in p p' \<longleftrightarrow> wq_enabled_state (ws_queue p') = wq_enabled_state (ws_queue p) \<and> wq_enabled_admin (ws_queue p') = wq_enabled_admin (ws_queue p)
     \<and> set (ws_jobs p') \<subseteq> set (ws_jobs p)"

lemma ends_in_place: "same_place p p' \<Longrightarrow> ends_in p p'"
  by (simp add: ends_in_def same_place_def ws_jobs_def)

lemma ends_in_begin: "ends_in (share lib p) q \<longleftrightarrow> ends_in p q" "ends_in (ws_begin p) q \<longleftrightarrow> ends_in p q" "ends_in p (share lib p)"
  by (simp_all add: ends_in_def ws_begin_def share_def ws_jobs_def)

lemma ends_in_cancel: "ends_in p (cancel_operators cx P p)"
proof -
  obtain s2 where s2: "core s2 = core (remove_operators P p)"
    "cancel_operators cx P p = (if filter P (ops_of p) = [] then s2 else Workshop_OnChildProcessExit cx s2)"
    by (rule cancel_operators_eq)
  have "same_place s2 (cancel_operators cx P p)" using s2(2) OnChildProcessExit_fields(1) [of s2 cx] by simp
  moreover have "set (ws_jobs s2) \<subseteq> set (ws_jobs p)" using coreD(1) [OF s2(1)] by (auto simp: ws_jobs_def)
  ultimately show ?thesis using coreD(7,8) [OF s2(1)] by (simp add: ends_in_def same_place_def ws_jobs_def)
qed

lemma only_ends_after_call:
  assumes "i < length (is_partitions s)" "ends_in (is_partitions s ! i) p'"
  shows "only_ends s (after_call ix refresh i p' s)"
proof -
  let ?s = "after_call ix refresh i p' s"
  let ?o = "\<lambda>q. case refresh of None \<Rightarrow> share (ws_library p') q | Some m \<Rightarrow> UpdateFilter (ix_ws ix) m (ws_begin (share (ws_library p') q))"
  have ps: "is_partitions ?s = (map ?o (is_partitions s))[i := p']" and cs: "is_cron_partitions ?s = is_cron_partitions s" "is_log_level ?s = is_log_level s"
    by (simp_all add: after_call_def Let_def OnPartitionIdle_def)
  have o: "ends_in q (?o q)" for q
    using ends_in_place [OF UpdateFilter_fields(1) [of "ws_begin (share (ws_library p') q)" "ix_ws ix"]]
    by (cases refresh) (simp_all add: ends_in_begin)
  have e: "j < length (is_partitions s) \<Longrightarrow> ends_in (is_partitions s ! j) (is_partitions ?s ! j)" for j
    using assms o by (cases "j = i") (simp_all add: ps)
  have len: "length (is_partitions ?s) = length (is_partitions s)" by (simp add: ps)
  have "map (\<lambda>p. (wq_enabled_state (ws_queue p), wq_enabled_admin (ws_queue p))) (is_partitions ?s) =
      map (\<lambda>p. (wq_enabled_state (ws_queue p), wq_enabled_admin (ws_queue p))) (is_partitions s)"
    using e by (intro nth_equalityI) (simp_all add: len ends_in_def)
  moreover have "(\<Union>p\<in>set (is_partitions ?s). set (ws_jobs p)) \<subseteq> (\<Union>p\<in>set (is_partitions s). set (ws_jobs p))"
  proof -
    have "\<exists>q\<in>set (is_partitions s). set (ws_jobs p) \<subseteq> set (ws_jobs q)" if p: "p \<in> set (is_partitions ?s)" for p
    proof -
      obtain j where j: "j < length (is_partitions s)" "p = is_partitions ?s ! j" using p len unfolding in_set_conv_nth by auto
      show ?thesis using e [OF j(1)] nth_mem [OF j(1)] by (auto simp: j(2) ends_in_def)
    qed
    then show ?thesis by blast
  qed
  then have "running_here ?s \<subseteq> running_here s" by (rule running_here_mono) (simp add: cs)
  ultimately show ?thesis using len by (simp add: only_ends_def switches_def cs)
qed

lemma only_ends_cancel_in: "i < length (is_partitions s) \<Longrightarrow> only_ends s (cancel_in ix P i s)"
  using ends_in_cancel [of "ws_begin (is_partitions s ! i)" "ix_ws ix" P]
  by (simp add: cancel_in_def Let_def only_ends_after_call ends_in_begin)

lemma TerminateChildren_frame:
  "cron_going p (CronPartition_TerminateChildren cx tag (cron_begin p)) \<and>
   cq_enabled_state (cn_queue (CronPartition_TerminateChildren cx tag (cron_begin p))) = cq_enabled_state (cn_queue p) \<and>
   cq_enabled_admin (cn_queue (CronPartition_TerminateChildren cx tag (cron_begin p))) = cq_enabled_admin (cn_queue p)"
proof -
  have exit: "fst (cq_flags (CronPartition_OnChildProcessExit t)) = fst (cq_flags t) \<and> fst (snd (cq_flags (CronPartition_OnChildProcessExit t))) = fst (snd (cq_flags t))" for t
    by (simp add: CronPartition_OnChildProcessExit_def CronQueue_EnableFull_def on_queue_def CronQueue_CheckEnabled_def act_def
        CronQueue_ScheduleClaim_def cq_flags_def Let_def)
  have c: "cq_flags (cancel_running cx rs t) = cq_flags t" for rs t using cancel_running_frame by blast
  have "cron_going (cron_begin p) (CronPartition_TerminateChildren cx tag (cron_begin p))"
    using cron_going_exits [of "cron_begin p" cx "ExitCancelTag tag"] by (simp add: CronPartition_TerminateChildren_def)
  then have "cron_going p (CronPartition_TerminateChildren cx tag (cron_begin p))"
    by (simp add: cron_going_def cron_begin_def cron_jobs_def cron_admin_def)
  moreover have "fst (cq_flags (CronPartition_TerminateChildren cx tag (cron_begin p))) = fst (cq_flags (cron_begin p)) \<and>
      fst (snd (cq_flags (CronPartition_TerminateChildren cx tag (cron_begin p)))) = fst (snd (cq_flags (cron_begin p)))"
    by (simp add: CronPartition_TerminateChildren_def CronWorkplace_CancelTag_def Let_def exit c)
  ultimately show ?thesis by (simp add: cq_flags_def cron_begin_def)
qed

lemma only_ends_after_cron_call:
  assumes "i < length (is_cron_partitions s)"
  shows "only_ends s (after_cron_call i (CronPartition_TerminateChildren cx tag (cron_begin (is_cron_partitions s ! i))) s)"
proof -
  let ?p = "CronPartition_TerminateChildren cx tag (cron_begin (is_cron_partitions s ! i))"
  let ?s = "after_cron_call i ?p s"
  have ps: "is_cron_partitions ?s = (is_cron_partitions s)[i := ?p]" and cs: "is_partitions ?s = is_partitions s" "is_log_level ?s = is_log_level s"
    by (simp_all add: after_cron_call_def Let_def OnPartitionIdle_def)
  note t = TerminateChildren_frame [of "is_cron_partitions s ! i" cx tag]
  have "map (\<lambda>p. (cq_enabled_state (cn_queue p), cq_enabled_admin (cn_queue p))) (is_cron_partitions ?s) =
      map (\<lambda>p. (cq_enabled_state (cn_queue p), cq_enabled_admin (cn_queue p))) (is_cron_partitions s)"
    unfolding ps using t assms by (intro nth_equalityI) (auto simp: nth_list_update)
  moreover have "(\<Union>p\<in>set (is_cron_partitions ?s). set (cron_jobs p)) \<subseteq> (\<Union>p\<in>set (is_cron_partitions s). set (cron_jobs p))"
  proof -
    have "set (cron_jobs ?p) \<subseteq> set (cron_jobs (is_cron_partitions s ! i))" using t by (simp add: cron_going_def)
    moreover have "set (is_cron_partitions ?s) \<subseteq> insert ?p (set (is_cron_partitions s))" unfolding ps by (rule set_update_subset_insert)
    ultimately show ?thesis using nth_mem [OF assms] by blast
  qed
  then have "running_here ?s \<subseteq> running_here s" by (intro running_here_mono) (simp_all add: cs)
  ultimately show ?thesis by (simp add: only_ends_def switches_def cs) (simp add: ps)
qed

lemma only_ends_TerminateChildren: "only_ends s (Instance_TerminateChildren ix tag s)"
proof -
  have "only_ends s (fold (cancel_in ix P) [0..<length (is_partitions s)] s)" for P
    by (rule only_ends_fold) (auto simp: only_ends_refl only_ends_def [of s] intro: only_ends_cancel_in)
  moreover have "only_ends s1 (fold (\<lambda>i s. after_cron_call i (CronPartition_TerminateChildren (ix_cron ix) tag (cron_begin (is_cron_partitions s ! i))) s)
      [0..<length (is_cron_partitions s1)] s1)" for s1 tag
    by (rule only_ends_fold) (auto simp: only_ends_refl only_ends_def [of s1] intro: only_ends_after_cron_call)
  ultimately show ?thesis
    unfolding Instance_TerminateChildren_def Let_def by (rule only_ends_trans)
qed

text \<open>
  C34: only \<open>VERBOSE\<close> with a payload of a wrong size is refused with an error. A client that is not local (its
  user is unknown) changes neither the switches of any queue nor the log level and starts nothing: its commands are without
  any effect, except \<open>TERMINATE_CHILDREN\<close> and \<open>CANCEL_JOB\<close>, which only end processes.
\<close>

theorem OnControlPacket_unprivileged:
  "((\<exists>e. OnControlPacket ix command payload uid s = Inl e) \<longleftrightarrow> command = VERBOSE \<and> 0 \<le> uid \<and> length payload \<noteq> 1)
   \<and> (uid < 0 \<longrightarrow> (\<exists>s'. OnControlPacket ix command payload uid s = Inr s'
        \<and> (command \<noteq> TERMINATE_CHILDREN \<and> command \<noteq> CANCEL_JOB \<longrightarrow> s' = s)
        \<and> switches s' = switches s \<and> is_log_level s' = is_log_level s \<and> running_here s' \<subseteq> running_here s))"
proof -
  have c: "only_ends s (Instance_CancelJob ix n j s)" for n j
    unfolding Instance_CancelJob_def
    by (rule only_ends_fold) (auto simp: only_ends_refl only_ends_def [of s] intro: only_ends_cancel_in)
  have e: "(\<exists>e. OnControlPacket ix command payload uid s = Inl e) \<longleftrightarrow> command = VERBOSE \<and> 0 \<le> uid \<and> length payload \<noteq> 1"
    by (cases command) (auto simp: OnControlPacket_def Let_def case_prod_beta)
  have "\<exists>s'. OnControlPacket ix command payload uid s = Inr s' \<and> (command \<noteq> TERMINATE_CHILDREN \<and> command \<noteq> CANCEL_JOB \<longrightarrow> s' = s) \<and> only_ends s s'"
    if "uid < 0" using that only_ends_TerminateChildren c by (cases command) (auto simp: OnControlPacket_def Let_def case_prod_beta only_ends_refl)
  then show ?thesis unfolding e by (auto simp: only_ends_def)
qed

theorem OnControlPacket_unprivileged_witness:
  "\<exists>s'. OnControlPacket sample_ix DISABLE_QUEUE ''p'' (-1) sample_instance = Inr s' \<and> s' = sample_instance \<and> switches s' = switches sample_instance"
  using OnControlPacket_unprivileged [of sample_ix DISABLE_QUEUE "''p''" "-1" sample_instance] by auto

text \<open>
  A cron partition without a name: nothing ever enables it, neither the start nor the control command.
\<close>

theorem anonymous_cron_disabled:
  assumes "cp_name c = []"
  shows "is_cron_partitions (Instance_Start ix (Instance_init ws [c] n lib wdb cdb)) = [CronPartition_init c cdb]
    \<and> is_cron_partitions (ReloadState ix (Instance_init ws [c] n lib wdb cdb)) = [CronPartition_init c cdb]
    \<and> \<not> CronQueue_IsEnabled (cn_queue (CronPartition_init c cdb)) \<and> \<not> CronQueue_IsEnabled (cn_queue (CronPartition_EnableQueue (CronPartition_init c cdb)))"
proof -
  have "is_cron_partitions (Instance_UpdateLibraryAndFilter ix f s) = is_cron_partitions s" for f s
    by (simp add: Instance_UpdateLibraryAndFilter_def Instance_UpdateFilter_def on_partitions_def Let_def case_prod_beta split: option.splits)
  then show ?thesis using assms
    by (simp add: Instance_Start_def ReloadState_def on_partitions_def on_cron_partitions_def Instance_init_def Let_def CronPartition_init_def
        CronQueue_IsEnabled_def CronQueue_init_def CronPartition_EnableQueue_def CronQueue_EnableAdmin_def)
qed

end
