(* ===== verification/Daemon_Config.thy ===== *)
theory Daemon_Config
  imports Workshop_Instance
begin

text \<open>
  The configuration of the daemon (\<open>src/Config.cxx\<close>, \<open>src/workshop/Config.cxx\<close>,
  \<open>src/cron/Config.cxx\<close>) and the instance that is made from it. The file reader and the block
  structure (\<open>NestedConfigParser\<close> with its comments, variables and includes) and the parsers of single
  values belong to \<open>libcommon\<close>: the input is the sequence of calls that the block structure
  makes, the value parsers are arguments. The model is that of a build with Avahi.
\<close>

section \<open>Configuration\<close>

record partition_config =
  wc_name :: string
  wc_zeroconf :: string
  wc_connect :: string
  wc_schema :: string
  wc_translation_socket :: "string option"
  wc_tag :: string
  wc_max_log :: nat
  wc_enable_journal :: bool
  wc_sticky :: bool

record cron_config =
  cc_name :: string
  cc_tag :: string
  cc_zeroconf :: string
  cc_connect :: string
  cc_schema :: string
  cc_translation_socket :: "string option"
  cc_qmqp_server :: "string option"
  cc_default_email_sender :: string
  cc_pond_server :: "string option"
  cc_default_timeout :: int
  cc_sticky :: bool
  cc_use_qrelay :: bool

record control_listener =
  li_bind_address :: "string option"
  li_multicast_group :: "string option"
  li_interface :: string

record spawn_config =
  sp_allow_any_uid_gid :: bool
  sp_allowed_uids :: "nat set"
  sp_allowed_gids :: "nat set"

record daemon_config =
  cf_node_name :: string
  cf_concurrency :: nat
  cf_spawn :: spawn_config
  cf_partitions :: "partition_config list"
  cf_cron_partitions :: "cron_config list"
  cf_control_listen :: "control_listener list"

definition partition_config_init :: "string \<Rightarrow> partition_config" where
  "partition_config_init name = \<lparr>wc_name = name, wc_zeroconf = [], wc_connect = [], wc_schema = [], wc_translation_socket = None, wc_tag = [],
     wc_max_log = 8192, wc_enable_journal = False, wc_sticky = False\<rparr>"

definition cron_config_init :: "string \<Rightarrow> cron_config" where
  "cron_config_init name = \<lparr>cc_name = name, cc_tag = [], cc_zeroconf = [], cc_connect = [], cc_schema = [], cc_translation_socket = None,
     cc_qmqp_server = None, cc_default_email_sender = ''cm4all-workshop'', cc_pond_server = None, cc_default_timeout = 300 * ns,
     cc_sticky = False, cc_use_qrelay = False\<rparr>"

definition daemon_config_init :: "spawn_config \<Rightarrow> daemon_config" where
  "daemon_config_init sp = \<lparr>cf_node_name = [], cf_concurrency = 2, cf_spawn = sp, cf_partitions = [], cf_cron_partitions = [], cf_control_listen = []\<rparr>"

section \<open>Parsing\<close>

datatype config_error = ConfigSyntax | ConfigUnknownOption string | BadValue | BadEmailAddress | BadTimeout | MissingDatabase | MissingZeroconf
  | MissingTranslationServer | QmqpAndQrelay | MissingBindAddress | NoAllowUser | NoAllowGroup | NoPartitions | GethostnameFailed

text \<open>
  \<open>cl_zeroconf\<close> is \<open>Avahi::ServiceConfig::ParseLine()\<close>: \<open>None\<close> when the word is not one of its
  options, otherwise an error or the new value. \<open>cl_resolve\<close> gets a host and a default port.
\<close>

record config_lib =
  cl_line :: line_lib
  cl_ExpectValue :: "string \<Rightarrow> (string \<times> string) option"
  cl_ExpectSymbolAndEol :: "char \<Rightarrow> string \<Rightarrow> bool"
  cl_ParseSize :: "string \<Rightarrow> nat option"
  cl_ParsePositiveLong :: "string \<Rightarrow> nat \<Rightarrow> nat option"
  cl_ParseIntervalS :: "string \<Rightarrow> int option"
  cl_VerifyEmailAddress :: "string \<Rightarrow> bool"
  cl_resolve :: "string \<Rightarrow> nat \<Rightarrow> string option"
  cl_ParseSocketAddress :: "string \<Rightarrow> nat \<Rightarrow> bool \<Rightarrow> string option"
  cl_Fixup :: "control_listener \<Rightarrow> control_listener"
  cl_zeroconf :: "string \<Rightarrow> string \<Rightarrow> string \<Rightarrow> (unit + string) option"
  cl_zeroconf_enabled :: "string \<Rightarrow> bool"
  cl_spawn_line :: "string \<Rightarrow> spawn_config \<Rightarrow> spawn_config option"
  cl_control_port :: nat
  cl_pond_port :: nat

definition value_end :: "config_lib \<Rightarrow> string \<Rightarrow> config_error + string" where
  "value_end cl rest = require ConfigSyntax (ExpectValueAndEnd (cl_line cl) rest)"

definition bool_end :: "config_lib \<Rightarrow> string \<Rightarrow> config_error + bool" where
  "bool_end cl rest =
     then_do (require ConfigSyntax (NextBool (cl_line cl) rest)) (\<lambda>(b, r). if IsEnd (cl_line cl) r then Inr b else Inl ConfigSyntax)"

definition zeroconf_option :: "config_lib \<Rightarrow> string \<Rightarrow> string \<Rightarrow> string \<Rightarrow> config_error + string" where
  "zeroconf_option cl word rest z =
     (case cl_zeroconf cl word rest z of None \<Rightarrow> Inl (ConfigUnknownOption word) | Some (Inl _) \<Rightarrow> Inl BadValue | Some (Inr z') \<Rightarrow> Inr z')"

definition Partition_ParseLine :: "config_lib \<Rightarrow> string \<Rightarrow> partition_config \<Rightarrow> config_error + partition_config" where
  "Partition_ParseLine cl line c =
     then_do (require ConfigSyntax (ExpectWord (cl_line cl) line)) (\<lambda>(word, rest).
       if word = ''database'' then then_do (value_end cl rest) (\<lambda>v. Inr (c\<lparr>wc_connect := v\<rparr>))
       else if word = ''database_schema'' then then_do (value_end cl rest) (\<lambda>v. Inr (c\<lparr>wc_schema := v\<rparr>))
       else if word = ''translation_server'' then then_do (value_end cl rest) (\<lambda>v. Inr (c\<lparr>wc_translation_socket := Some v\<rparr>))
       else if word = ''tag'' then then_do (value_end cl rest) (\<lambda>v. Inr (c\<lparr>wc_tag := v\<rparr>))
       else if word = ''max_log''
       then then_do (value_end cl rest) (\<lambda>v. then_do (require BadValue (cl_ParseSize cl v)) (\<lambda>n. Inr (c\<lparr>wc_max_log := n\<rparr>)))
       else if word = ''journal'' then then_do (bool_end cl rest) (\<lambda>b. Inr (c\<lparr>wc_enable_journal := b\<rparr>))
       else if word = ''sticky'' then then_do (bool_end cl rest) (\<lambda>b. Inr (c\<lparr>wc_sticky := b\<rparr>))
       else then_do (zeroconf_option cl word rest (wc_zeroconf c)) (\<lambda>z. Inr (c\<lparr>wc_zeroconf := z\<rparr>)))"

definition ResolveStreamConnect :: "config_lib \<Rightarrow> string \<Rightarrow> nat \<Rightarrow> config_error + string" where
  "ResolveStreamConnect cl host default_port =
     (if cderef host = CHR ''/'' \<or> cderef host = CHR ''@'' then Inr host else require BadValue (cl_resolve cl host default_port))"

definition CronPartition_ParseLine :: "config_lib \<Rightarrow> string \<Rightarrow> cron_config \<Rightarrow> config_error + cron_config" where
  "CronPartition_ParseLine cl line c =
     then_do (require ConfigSyntax (ExpectWord (cl_line cl) line)) (\<lambda>(word, rest).
       if word = ''database'' then then_do (value_end cl rest) (\<lambda>v. Inr (c\<lparr>cc_connect := v\<rparr>))
       else if word = ''database_schema'' then then_do (value_end cl rest) (\<lambda>v. Inr (c\<lparr>cc_schema := v\<rparr>))
       else if word = ''translation_server'' then then_do (value_end cl rest) (\<lambda>v. Inr (c\<lparr>cc_translation_socket := Some v\<rparr>))
       else if word = ''qmqp_server''
       then then_do (value_end cl rest) (\<lambda>v. then_do (ResolveStreamConnect cl v 628) (\<lambda>a. Inr (c\<lparr>cc_qmqp_server := Some a\<rparr>)))
       else if word = ''default_email_sender''
       then then_do (value_end cl rest)
              (\<lambda>v. if \<not> cl_VerifyEmailAddress cl v then Inl BadEmailAddress else Inr (c\<lparr>cc_default_email_sender := v\<rparr>))
       else if word = ''pond_server''
       then then_do (value_end cl rest) (\<lambda>v. then_do (ResolveStreamConnect cl v (cl_pond_port cl)) (\<lambda>a. Inr (c\<lparr>cc_pond_server := Some a\<rparr>)))
       else if word = ''tag'' then then_do (value_end cl rest) (\<lambda>v. Inr (c\<lparr>cc_tag := v\<rparr>))
       else if word = ''default_timeout''
       then then_do (value_end cl rest) (\<lambda>v. then_do (require BadValue (cl_ParseIntervalS cl v))
              (\<lambda>d. if d \<le> 0 then Inl BadTimeout else Inr (c\<lparr>cc_default_timeout := d * ns\<rparr>)))
       else if word = ''use_qrelay'' then then_do (bool_end cl rest) (\<lambda>b. Inr (c\<lparr>cc_use_qrelay := b\<rparr>))
       else if word = ''sticky'' then then_do (bool_end cl rest) (\<lambda>b. Inr (c\<lparr>cc_sticky := b\<rparr>))
       else then_do (zeroconf_option cl word rest (cc_zeroconf c)) (\<lambda>z. Inr (c\<lparr>cc_zeroconf := z\<rparr>)))"

definition Control_ParseLine :: "config_lib \<Rightarrow> string \<Rightarrow> control_listener \<Rightarrow> config_error + control_listener" where
  "Control_ParseLine cl line c =
     then_do (require ConfigSyntax (ExpectWord (cl_line cl) line)) (\<lambda>(word, rest).
       if word = ''bind''
       then then_do (value_end cl rest) (\<lambda>v. then_do (require BadValue (cl_ParseSocketAddress cl v (cl_control_port cl) True))
              (\<lambda>a. Inr (c\<lparr>li_bind_address := Some a\<rparr>)))
       else if word = ''multicast_group''
       then then_do (value_end cl rest) (\<lambda>v. then_do (require BadValue (cl_ParseSocketAddress cl v 0 False))
              (\<lambda>a. Inr (c\<lparr>li_multicast_group := Some a\<rparr>)))
       else if word = ''interface'' then then_do (value_end cl rest) (\<lambda>v. Inr (c\<lparr>li_interface := v\<rparr>))
       else Inl (ConfigUnknownOption word))"

section \<open>Checks and the block structure\<close>

definition PartitionConfig_Check :: "config_lib \<Rightarrow> partition_config \<Rightarrow> config_error + unit" where
  "PartitionConfig_Check cl c =
     (if wc_connect c = [] then Inl MissingDatabase
      else if wc_sticky c \<and> \<not> cl_zeroconf_enabled cl (wc_zeroconf c) then Inl MissingZeroconf
      else Inr ())"

definition CronConfig_Check :: "config_lib \<Rightarrow> cron_config \<Rightarrow> config_error + unit" where
  "CronConfig_Check cl c =
     (if cc_connect c = [] then Inl MissingDatabase
      else if cc_translation_socket c = None then Inl MissingTranslationServer
      else if cc_qmqp_server c \<noteq> None \<and> cc_use_qrelay c then Inl QmqpAndQrelay
      else if cc_sticky c \<and> \<not> cl_zeroconf_enabled cl (cc_zeroconf c) then Inl MissingZeroconf
      else Inr ())"

datatype config_child = ChildPartition partition_config | ChildCron cron_config | ChildControl control_listener | ChildSpawn

record config_parser =
  kp_config :: daemon_config
  kp_child :: "config_child option"

text \<open>A block opens with an optional quoted name.\<close>

definition block_name :: "config_lib \<Rightarrow> string \<Rightarrow> config_error + string" where
  "block_name cl rest =
     then_do (if cderef rest = CHR 0x22 then require ConfigSyntax (cl_ExpectValue cl rest) else Inr ([], rest))
       (\<lambda>(name, r). if cl_ExpectSymbolAndEol cl (CHR ''{'') r then Inr name else Inl ConfigSyntax)"

definition ParseLine2 :: "config_lib \<Rightarrow> string \<Rightarrow> config_parser \<Rightarrow> config_error + config_parser" where
  "ParseLine2 cl line p =
     then_do (require ConfigSyntax (ExpectWord (cl_line cl) line)) (\<lambda>(word, rest).
       if word = ''workshop'' then then_do (block_name cl rest) (\<lambda>n. Inr (p\<lparr>kp_child := Some (ChildPartition (partition_config_init n))\<rparr>))
       else if word = ''cron'' then then_do (block_name cl rest) (\<lambda>n. Inr (p\<lparr>kp_child := Some (ChildCron (cron_config_init n))\<rparr>))
       else if word = ''node_name''
       then then_do (value_end cl rest) (\<lambda>v. Inr (p\<lparr>kp_config := (kp_config p)\<lparr>cf_node_name := v\<rparr>\<rparr>))
       else if word = ''concurrency''
       then then_do (value_end cl rest) (\<lambda>v. then_do (require BadValue (cl_ParsePositiveLong cl v 256))
              (\<lambda>n. Inr (p\<lparr>kp_config := (kp_config p)\<lparr>cf_concurrency := n\<rparr>\<rparr>)))
       else if word = ''spawn''
       then (if cl_ExpectSymbolAndEol cl (CHR ''{'') rest then Inr (p\<lparr>kp_child := Some ChildSpawn\<rparr>) else Inl ConfigSyntax)
       else if word = ''control''
       then (if cl_ExpectSymbolAndEol cl (CHR ''{'') rest
             then Inr (p\<lparr>kp_child := Some (ChildControl \<lparr>li_bind_address = None, li_multicast_group = None, li_interface = []\<rparr>)\<rparr>)
             else Inl ConfigSyntax)
       else Inl (ConfigUnknownOption word))"

text \<open>The calls of the block structure: a line, passed to the open block if there is one, and the end of the block.\<close>

datatype config_call = ConfigLine string | ConfigBlockEnd

definition Child_ParseLine :: "config_lib \<Rightarrow> string \<Rightarrow> config_child \<Rightarrow> config_parser \<Rightarrow> config_error + config_parser" where
  "Child_ParseLine cl line ch p =
     (case ch of
        ChildPartition c \<Rightarrow> then_do (Partition_ParseLine cl line c) (\<lambda>c'. Inr (p\<lparr>kp_child := Some (ChildPartition c')\<rparr>))
      | ChildCron c \<Rightarrow> then_do (CronPartition_ParseLine cl line c) (\<lambda>c'. Inr (p\<lparr>kp_child := Some (ChildCron c')\<rparr>))
      | ChildControl c \<Rightarrow> then_do (Control_ParseLine cl line c) (\<lambda>c'. Inr (p\<lparr>kp_child := Some (ChildControl c')\<rparr>))
      | ChildSpawn \<Rightarrow> then_do (require BadValue (cl_spawn_line cl line (cf_spawn (kp_config p))))
          (\<lambda>sp. Inr (p\<lparr>kp_config := (kp_config p)\<lparr>cf_spawn := sp\<rparr>\<rparr>)))"

definition Partition_Finish :: "config_lib \<Rightarrow> partition_config \<Rightarrow> config_parser \<Rightarrow> config_error + config_parser" where
  "Partition_Finish cl c p =
     then_do (PartitionConfig_Check cl c) (\<lambda>_. Inr (p\<lparr>kp_config := (kp_config p)\<lparr>cf_partitions := c # cf_partitions (kp_config p)\<rparr>\<rparr>))"

definition CronPartition_Finish :: "config_lib \<Rightarrow> cron_config \<Rightarrow> config_parser \<Rightarrow> config_error + config_parser" where
  "CronPartition_Finish cl c p =
     then_do (CronConfig_Check cl c) (\<lambda>_. Inr (p\<lparr>kp_config := (kp_config p)\<lparr>cf_cron_partitions := c # cf_cron_partitions (kp_config p)\<rparr>\<rparr>))"

definition Control_Finish :: "config_lib \<Rightarrow> control_listener \<Rightarrow> config_parser \<Rightarrow> config_error + config_parser" where
  "Control_Finish cl c p =
     (if li_bind_address c = None then Inl MissingBindAddress
      else Inr (p\<lparr>kp_config := (kp_config p)\<lparr>cf_control_listen := cl_Fixup cl c # cf_control_listen (kp_config p)\<rparr>\<rparr>))"

definition Child_Finish :: "config_lib \<Rightarrow> config_child \<Rightarrow> config_parser \<Rightarrow> config_error + config_parser" where
  "Child_Finish cl ch p =
     then_do (case ch of ChildPartition c \<Rightarrow> Partition_Finish cl c p | ChildCron c \<Rightarrow> CronPartition_Finish cl c p
                | ChildControl c \<Rightarrow> Control_Finish cl c p | ChildSpawn \<Rightarrow> Inr p)
       (\<lambda>p'. Inr (p'\<lparr>kp_child := None\<rparr>))"

lemmas Finish_defs = Partition_Finish_def CronPartition_Finish_def Control_Finish_def Child_Finish_def

fun config_calls :: "config_lib \<Rightarrow> config_call list \<Rightarrow> config_parser \<Rightarrow> config_error + config_parser" where
  "config_calls cl [] p = (if kp_child p = None then Inr p else Inl ConfigSyntax)"
| "config_calls cl (ConfigLine l # cs) p =
     then_do (case kp_child p of None \<Rightarrow> ParseLine2 cl l p | Some ch \<Rightarrow> Child_ParseLine cl l ch p) (config_calls cl cs)"
| "config_calls cl (ConfigBlockEnd # cs) p =
     then_do (case kp_child p of None \<Rightarrow> Inl ConfigSyntax | Some ch \<Rightarrow> Child_Finish cl ch p) (config_calls cl cs)"

definition LoadConfigFile :: "config_lib \<Rightarrow> config_call list \<Rightarrow> daemon_config \<Rightarrow> config_error + daemon_config" where
  "LoadConfigFile cl calls c = then_do (config_calls cl calls \<lparr>kp_config = c, kp_child = None\<rparr>) (\<lambda>p. Inr (kp_config p))"

fun check_all :: "('c \<Rightarrow> config_error + unit) \<Rightarrow> 'c list \<Rightarrow> config_error + unit" where
  "check_all f [] = Inr ()"
| "check_all f (c # cs) = then_do (f c) (\<lambda>_. check_all f cs)"

definition Config_Check :: "config_lib \<Rightarrow> bool \<Rightarrow> string option \<Rightarrow> daemon_config \<Rightarrow> config_error + daemon_config" where
  "Config_Check cl debug_mode hostname c0 =
     then_do (if cf_node_name c0 = [] then then_do (require GethostnameFailed hostname) (\<lambda>h. Inr (c0\<lparr>cf_node_name := h\<rparr>)) else Inr c0) (\<lambda>c1.
       if cf_cron_partitions c1 \<noteq> [] \<and> \<not> sp_allow_any_uid_gid (cf_spawn c1) \<and> \<not> debug_mode \<and> sp_allowed_uids (cf_spawn c1) = {} then Inl NoAllowUser
       else if cf_cron_partitions c1 \<noteq> [] \<and> \<not> sp_allow_any_uid_gid (cf_spawn c1) \<and> \<not> debug_mode \<and> sp_allowed_gids (cf_spawn c1) = {} then Inl NoAllowGroup
       else (let c2 = (if debug_mode then c1\<lparr>cf_spawn := (cf_spawn c1)\<lparr>sp_allowed_gids := insert 0 (sp_allowed_gids (cf_spawn c1))\<rparr>\<rparr> else c1)
             in if cf_partitions c2 = [] \<and> cf_cron_partitions c2 = [] then Inl NoPartitions
                else then_do (check_all (PartitionConfig_Check cl) (cf_partitions c2)) (\<lambda>_.
                     then_do (check_all (CronConfig_Check cl) (cf_cron_partitions c2)) (\<lambda>_. Inr c2))))"

section \<open>The instance of a configuration\<close>

definition ws_setup_of :: "daemon_config \<Rightarrow> partition_config \<Rightarrow> ws_setup" where
  "ws_setup_of c p = \<lparr>wu_name = wc_name p, wu_node_name = cf_node_name c, wu_sticky = wc_sticky p, wu_concurrency = cf_concurrency c,
     wu_enable_journal = wc_enable_journal p, wu_max_log = wc_max_log p\<rparr>"

definition cron_setup_of :: "daemon_config \<Rightarrow> cron_config \<Rightarrow> cron_partition_setup" where
  "cron_setup_of c p = \<lparr>cp_name = cc_name p, cp_tag = cc_tag p, cp_sticky = cc_sticky p, cp_use_qrelay = cc_use_qrelay p,
     cp_pond = (cc_pond_server p \<noteq> None), cp_default_timeout = cc_default_timeout p, cp_node_name = cf_node_name c, cp_concurrency = cf_concurrency c\<rparr>"

text \<open>\<open>Run()\<close>: the library exists when there is a workshop partition.\<close>

definition make_instance :: "daemon_config \<Rightarrow> ws_db \<Rightarrow> cron_db \<Rightarrow> instance_state" where
  "make_instance c wdb cdb =
     Instance_init (map (ws_setup_of c) (cf_partitions c)) (map (cron_setup_of c) (cf_cron_partitions c)) (length (cf_control_listen c))
       (if cf_partitions c \<noteq> [] then Some (MultiLibrary_InsertPath (MultiLibrary_InsertPath [])) else None) wdb cdb"

section \<open>What a loaded configuration guarantees\<close>

definition cron_config_ok :: "config_lib \<Rightarrow> cron_config \<Rightarrow> bool" where
  "cron_config_ok cl c \<longleftrightarrow> 0 < cc_default_timeout c
     \<and> (cc_default_email_sender c = ''cm4all-workshop'' \<or> cl_VerifyEmailAddress cl (cc_default_email_sender c))"

definition listener_ok :: "config_lib \<Rightarrow> control_listener \<Rightarrow> bool" where
  "listener_ok cl l \<longleftrightarrow> (\<exists>l0. li_bind_address l0 \<noteq> None \<and> l = cl_Fixup cl l0)"

definition config_ok :: "config_lib \<Rightarrow> daemon_config \<Rightarrow> bool" where
  "config_ok cl c \<longleftrightarrow> 0 < cf_concurrency c \<and> cf_concurrency c \<le> 256 \<and> (\<forall>p\<in>set (cf_cron_partitions c). cron_config_ok cl p)
     \<and> (\<forall>l\<in>set (cf_control_listen c). listener_ok cl l)"

definition parser_ok :: "config_lib \<Rightarrow> config_parser \<Rightarrow> bool" where
  "parser_ok cl p \<longleftrightarrow> config_ok cl (kp_config p) \<and> (\<forall>c. kp_child p = Some (ChildCron c) \<longrightarrow> cron_config_ok cl c)"

lemma CronPartition_ParseLine_ok: "CronPartition_ParseLine cl line c = Inr c' \<Longrightarrow> cron_config_ok cl c \<Longrightarrow> cron_config_ok cl c'"
proof -
  assume a: "CronPartition_ParseLine cl line c = Inr c'" and ok: "cron_config_ok cl c"
  obtain word rest where w: "ExpectWord (cl_line cl) line = Some (word, rest)"
    using a by (cases "ExpectWord (cl_line cl) line") (auto simp only: CronPartition_ParseLine_def require_simps then_do_Inl sum.distinct)
  show ?thesis using a ok unfolding CronPartition_ParseLine_def w require_simps then_do_Inr prod.case
    by (simp split: if_split_asm; clarsimp simp: then_do_eq_Inr cron_config_ok_def split: if_split_asm)
qed

lemma ParseLine2_ok:
  assumes "\<And>s n. cl_ParsePositiveLong cl s 256 = Some n \<Longrightarrow> 0 < n \<and> n \<le> 256" "ParseLine2 cl line p = Inr p'" "parser_ok cl p" "kp_child p = None"
  shows "parser_ok cl p'"
proof -
  have "cron_config_ok cl (cron_config_init n)" for n by (simp add: cron_config_ok_def cron_config_init_def)
  then show ?thesis using assms by (auto simp: ParseLine2_def then_do_eq_Inr parser_ok_def config_ok_def split: if_splits)
qed

lemma Child_ParseLine_ok: "Child_ParseLine cl line ch p = Inr p' \<Longrightarrow> parser_ok cl p \<Longrightarrow> kp_child p = Some ch \<Longrightarrow> parser_ok cl p'"
  by (cases ch) (auto simp: Child_ParseLine_def then_do_eq_Inr parser_ok_def config_ok_def CronPartition_ParseLine_ok)

lemma listener_ok_Fixup: "li_bind_address l = Some a \<Longrightarrow> listener_ok cl (cl_Fixup cl l)"
  by (auto simp: listener_ok_def)

lemma Child_Finish_ok: "Child_Finish cl ch p = Inr p' \<Longrightarrow> parser_ok cl p \<Longrightarrow> kp_child p = Some ch \<Longrightarrow> parser_ok cl p'"
  by (cases ch) (auto simp: Finish_defs Let_def then_do_eq_Inr parser_ok_def config_ok_def listener_ok_Fixup split: if_splits)

lemma config_calls_ok:
  "config_calls cl calls p = Inr p' \<Longrightarrow> parser_ok cl p \<Longrightarrow> (\<And>s n. cl_ParsePositiveLong cl s 256 = Some n \<Longrightarrow> 0 < n \<and> n \<le> 256) \<Longrightarrow> parser_ok cl p'"
proof (induction cl calls p rule: config_calls.induct [case_names Nil Line End])
  case (Line cl l cs p)
  then obtain q where q: "(case kp_child p of None \<Rightarrow> ParseLine2 cl l p | Some ch \<Rightarrow> Child_ParseLine cl l ch p) = Inr q" "config_calls cl cs q = Inr p'"
    by (auto simp: then_do_eq_Inr)
  have "parser_ok cl q"
    using q(1) Line.prems(2) ParseLine2_ok [OF Line.prems(3)] by (auto split: option.splits intro: Child_ParseLine_ok)
  then show ?case using Line.IH [OF q] Line.prems(3) by blast
next
  case (End cl cs p)
  then show ?case by (cases "kp_child p") (auto simp: then_do_eq_Inr intro: Child_Finish_ok)
qed (auto split: if_splits)

lemma check_all_Inr: "check_all f cs = Inr u \<longleftrightarrow> (\<forall>c\<in>set cs. f c = Inr ())"
  by (induction cs) (auto simp: then_do_eq_Inr)

lemma LoadConfigFile_ok:
  assumes "LoadConfigFile cl calls (daemon_config_init sp) = Inr c" "\<And>s n. cl_ParsePositiveLong cl s 256 = Some n \<Longrightarrow> 0 < n \<and> n \<le> 256"
  shows "config_ok cl c"
proof -
  let ?p = "\<lparr>kp_config = daemon_config_init sp, kp_child = None\<rparr>"
  obtain p where p: "config_calls cl calls ?p = Inr p" "c = kp_config p" using assms(1) by (auto simp: LoadConfigFile_def then_do_eq_Inr)
  have "parser_ok cl ?p" by (simp add: parser_ok_def config_ok_def daemon_config_init_def)
  from config_calls_ok [OF p(1) this assms(2)] show ?thesis by (simp add: parser_ok_def p(2))
qed

lemma Config_Check_Inr:
  assumes "Config_Check cl debug_mode hostname c = Inr c'"
  obtains sp h where "c' = c\<lparr>cf_node_name := h, cf_spawn := sp\<rparr>" "cf_node_name c \<noteq> [] \<and> h = cf_node_name c \<or> cf_node_name c = [] \<and> hostname = Some h"
    "cf_partitions c \<noteq> [] \<or> cf_cron_partitions c \<noteq> []" "\<forall>p\<in>set (cf_partitions c). PartitionConfig_Check cl p = Inr ()"
    "\<forall>p\<in>set (cf_cron_partitions c). CronConfig_Check cl p = Inr ()"
    "\<not> debug_mode \<longrightarrow> sp = cf_spawn c"
    "cf_cron_partitions c \<noteq> [] \<and> \<not> sp_allow_any_uid_gid (cf_spawn c) \<and> \<not> debug_mode \<longrightarrow> sp_allowed_uids (cf_spawn c) \<noteq> {} \<and> sp_allowed_gids (cf_spawn c) \<noteq> {}"
proof -
  obtain c1 where c1: "(if cf_node_name c = [] then then_do (require GethostnameFailed hostname) (\<lambda>h. Inr (c\<lparr>cf_node_name := h\<rparr>)) else Inr c) = Inr c1"
    using assms by (auto simp: Config_Check_def then_do_eq_Inr)
  then obtain h where h: "c1 = c\<lparr>cf_node_name := h\<rparr>" "cf_node_name c \<noteq> [] \<and> h = cf_node_name c \<or> cf_node_name c = [] \<and> hostname = Some h"
    by (auto simp: then_do_eq_Inr split: if_splits)
  let ?sp = "if debug_mode then (cf_spawn c)\<lparr>sp_allowed_gids := insert 0 (sp_allowed_gids (cf_spawn c))\<rparr> else cf_spawn c"
  have "c' = c\<lparr>cf_node_name := h, cf_spawn := ?sp\<rparr>" "cf_partitions c \<noteq> [] \<or> cf_cron_partitions c \<noteq> []"
    "\<forall>p\<in>set (cf_partitions c). PartitionConfig_Check cl p = Inr ()" "\<forall>p\<in>set (cf_cron_partitions c). CronConfig_Check cl p = Inr ()"
    "cf_cron_partitions c \<noteq> [] \<Longrightarrow> \<not> sp_allow_any_uid_gid (cf_spawn c) \<Longrightarrow> \<not> debug_mode \<Longrightarrow> sp_allowed_uids (cf_spawn c) \<noteq> {} \<and> sp_allowed_gids (cf_spawn c) \<noteq> {}"
    using assms unfolding Config_Check_def c1 then_do_Inr
    by (auto simp: h(1) Let_def then_do_eq_Inr check_all_Inr split: if_splits)
  with h(2) show ?thesis by (intro that [of ?sp h]) auto
qed

text \<open>
  C36: what the daemon runs with after its configuration was accepted. It has a name and at
  least one partition; every partition has a database, every cron partition a translation server and a
  positive default timeout, not two mail relays, and a cluster when it is sticky; every control socket
  has an address; cron jobs without restriction of their users are possible only if that was
  configured. Every partition of the instance runs between 1 and 256 processes at a time, and the
  instance has a library exactly if it has a workshop partition.
\<close>

theorem config_loaded:
  assumes "\<And>s n. cl_ParsePositiveLong cl s 256 = Some n \<Longrightarrow> 0 < n \<and> n \<le> 256"
    and "LoadConfigFile cl calls (daemon_config_init sp) = Inr c0" and "Config_Check cl False hostname c0 = Inr c"
  shows "(cf_partitions c \<noteq> [] \<or> cf_cron_partitions c \<noteq> []) \<and> (cf_node_name c = [] \<longrightarrow> hostname = Some [])
    \<and> (\<forall>p\<in>set (cf_partitions c). wc_connect p \<noteq> [] \<and> (wc_sticky p \<longrightarrow> cl_zeroconf_enabled cl (wc_zeroconf p)))
    \<and> (\<forall>p\<in>set (cf_cron_partitions c). cc_connect p \<noteq> [] \<and> cc_translation_socket p \<noteq> None \<and> 0 < cc_default_timeout p
         \<and> (cc_qmqp_server p = None \<or> \<not> cc_use_qrelay p) \<and> (cc_sticky p \<longrightarrow> cl_zeroconf_enabled cl (cc_zeroconf p)))
    \<and> (\<forall>l\<in>set (cf_control_listen c). \<exists>l0. li_bind_address l0 \<noteq> None \<and> l = cl_Fixup cl l0)
    \<and> (cf_cron_partitions c \<noteq> [] \<longrightarrow> sp_allow_any_uid_gid (cf_spawn c) \<or> sp_allowed_uids (cf_spawn c) \<noteq> {} \<and> sp_allowed_gids (cf_spawn c) \<noteq> {})
    \<and> (\<forall>p\<in>set (is_partitions (make_instance c wdb cdb)). 0 < ww_max_operators (ws_workplace p) \<and> ww_max_operators (ws_workplace p) \<le> 256)
    \<and> (\<forall>p\<in>set (is_cron_partitions (make_instance c wdb cdb)). 0 < wp_max_operators (cn_workplace p) \<and> wp_max_operators (cn_workplace p) \<le> 256)
    \<and> (is_library (make_instance c wdb cdb) \<noteq> None \<longleftrightarrow> is_partitions (make_instance c wdb cdb) \<noteq> [])"
proof -
  have ok: "config_ok cl c0" by (rule LoadConfigFile_ok [OF assms(2,1)])
  obtain sp' h where c': "c = c0\<lparr>cf_node_name := h, cf_spawn := sp'\<rparr>"
    and h: "cf_node_name c0 \<noteq> [] \<and> h = cf_node_name c0 \<or> cf_node_name c0 = [] \<and> hostname = Some h"
    and ne: "cf_partitions c0 \<noteq> [] \<or> cf_cron_partitions c0 \<noteq> []" and wp: "\<forall>p\<in>set (cf_partitions c0). PartitionConfig_Check cl p = Inr ()"
    and cp: "\<forall>p\<in>set (cf_cron_partitions c0). CronConfig_Check cl p = Inr ()"
    and c'': "\<not> False \<longrightarrow> sp' = cf_spawn c0"
    and sp: "cf_cron_partitions c0 \<noteq> [] \<and> \<not> sp_allow_any_uid_gid (cf_spawn c0) \<and> \<not> False \<longrightarrow>
      sp_allowed_uids (cf_spawn c0) \<noteq> {} \<and> sp_allowed_gids (cf_spawn c0) \<noteq> {}"
    by (rule Config_Check_Inr [OF assms(3)])
  have c: "c = c0\<lparr>cf_node_name := h, cf_spawn := cf_spawn c0\<rparr>" using c' c'' by simp
  have w: "wc_connect p \<noteq> [] \<and> (wc_sticky p \<longrightarrow> cl_zeroconf_enabled cl (wc_zeroconf p))" if "p \<in> set (cf_partitions c)" for p
    using wp that by (auto simp: c PartitionConfig_Check_def split: if_splits)
  have k: "cc_connect p \<noteq> [] \<and> cc_translation_socket p \<noteq> None \<and> 0 < cc_default_timeout p
      \<and> (cc_qmqp_server p = None \<or> \<not> cc_use_qrelay p) \<and> (cc_sticky p \<longrightarrow> cl_zeroconf_enabled cl (cc_zeroconf p))"
    if "p \<in> set (cf_cron_partitions c)" for p
    using cp ok that by (auto simp: c CronConfig_Check_def config_ok_def cron_config_ok_def split: if_splits)
  have n: "0 < cf_concurrency c \<and> cf_concurrency c \<le> 256" using ok by (simp add: c config_ok_def)
  have l: "\<forall>l\<in>set (cf_control_listen c). \<exists>l0. li_bind_address l0 \<noteq> None \<and> l = cl_Fixup cl l0" using ok by (simp add: c config_ok_def listener_ok_def)
  have i: "\<forall>p\<in>set (is_partitions (make_instance c wdb cdb)). ww_max_operators (ws_workplace p) = cf_concurrency c"
    "\<forall>p\<in>set (is_cron_partitions (make_instance c wdb cdb)). wp_max_operators (cn_workplace p) = cf_concurrency c"
    "is_library (make_instance c wdb cdb) \<noteq> None \<longleftrightarrow> is_partitions (make_instance c wdb cdb) \<noteq> []"
    by (auto simp: make_instance_def Instance_init_def Partition_init_def CronPartition_init_def CronWorkplace_init_def ScheduleReapFinished_def
        ws_setup_of_def cron_setup_of_def)
  have e: "(cf_partitions c \<noteq> [] \<or> cf_cron_partitions c \<noteq> []) \<and> (cf_node_name c = [] \<longrightarrow> hostname = Some [])"
    using ne h by (auto simp: c)
  have u: "cf_cron_partitions c \<noteq> [] \<longrightarrow> sp_allow_any_uid_gid (cf_spawn c) \<or> sp_allowed_uids (cf_spawn c) \<noteq> {} \<and> sp_allowed_gids (cf_spawn c) \<noteq> {}"
    using sp by (auto simp: c)
  show ?thesis using w k n l i e u by simp
qed

definition sample_config_lib :: config_lib where
  "sample_config_lib = \<lparr>cl_line = space_lib, cl_ExpectValue = (\<lambda>s. None), cl_ExpectSymbolAndEol = (\<lambda>c s. s = [c]), cl_ParseSize = (\<lambda>s. Some (fst (strtoul 10 s))),
     cl_ParsePositiveLong = (\<lambda>s m. let n = fst (strtoul 10 s) in if 0 < n \<and> n \<le> m then Some n else None), cl_ParseIntervalS = (\<lambda>s. None),
     cl_VerifyEmailAddress = (\<lambda>s. False), cl_resolve = (\<lambda>h p. None), cl_ParseSocketAddress = (\<lambda>s p b. Some s), cl_Fixup = (\<lambda>l. l),
     cl_zeroconf = (\<lambda>w r z. None), cl_zeroconf_enabled = (\<lambda>z. z \<noteq> []), cl_spawn_line = (\<lambda>l sp. None), cl_control_port = 5478, cl_pond_port = 5479\<rparr>"

definition sample_config_file :: "config_call list" where
  "sample_config_file = [ConfigLine ''node_name a'', ConfigLine ''workshop {'', ConfigLine ''database dbname=w'', ConfigBlockEnd,
     ConfigLine ''control {'', ConfigLine ''bind @c'', ConfigBlockEnd]"

lemma sample_config_loads:
  "LoadConfigFile sample_config_lib sample_config_file (daemon_config_init \<lparr>sp_allow_any_uid_gid = False, sp_allowed_uids = {}, sp_allowed_gids = {}\<rparr>) =
     Inr \<lparr>cf_node_name = ''a'', cf_concurrency = 2, cf_spawn = \<lparr>sp_allow_any_uid_gid = False, sp_allowed_uids = {}, sp_allowed_gids = {}\<rparr>,
       cf_partitions = [(partition_config_init [])\<lparr>wc_connect := ''dbname=w''\<rparr>], cf_cron_partitions = [],
       cf_control_listen = [\<lparr>li_bind_address = Some ''@c'', li_multicast_group = None, li_interface = []\<rparr>]\<rparr>"
  by (simp add: LoadConfigFile_def sample_config_file_def daemon_config_init_def ParseLine2_def sample_config_lib_def space_lib_def after_word_def
      value_end_def block_name_def Child_ParseLine_def Partition_ParseLine_def Finish_defs PartitionConfig_Check_def partition_config_init_def
      Control_ParseLine_def)

theorem config_loaded_witness:
  "\<exists>c0 c. LoadConfigFile sample_config_lib sample_config_file (daemon_config_init \<lparr>sp_allow_any_uid_gid = False, sp_allowed_uids = {}, sp_allowed_gids = {}\<rparr>) = Inr c0
     \<and> Config_Check sample_config_lib False None c0 = Inr c \<and> length (cf_partitions c) = 1
     \<and> (\<forall>p\<in>set (is_partitions (make_instance c sample_ws_db (cn_db (sample_node 1 [])))). 0 < ww_max_operators (ws_workplace p))"
proof -
  obtain c0 where c0: "LoadConfigFile sample_config_lib sample_config_file (daemon_config_init \<lparr>sp_allow_any_uid_gid = False, sp_allowed_uids = {}, sp_allowed_gids = {}\<rparr>) = Inr c0"
    "cf_node_name c0 = ''a''" "cf_cron_partitions c0 = []" "cf_partitions c0 = [(partition_config_init [])\<lparr>wc_connect := ''dbname=w''\<rparr>]"
    using sample_config_loads by simp
  have c: "Config_Check sample_config_lib False None c0 = Inr c0"
    using c0 by (simp add: Config_Check_def PartitionConfig_Check_def partition_config_init_def)
  have "cl_ParsePositiveLong sample_config_lib s 256 = Some n \<Longrightarrow> 0 < n \<and> n \<le> 256" for s n
    by (simp add: sample_config_lib_def Let_def split: if_splits)
  from config_loaded [OF this c0(1) c, where wdb = sample_ws_db and cdb = "cn_db (sample_node 1 [])"] c0 c show ?thesis by auto
qed


section \<open>The start of the daemon\<close>

text \<open>
  The command line: \<open>opts\<close> are the characters that \<open>getopt_long()\<close> returns, \<open>rest\<close> the other arguments. The result is an
  exit status or the log level.
\<close>

fun getopt_loop :: "nat \<Rightarrow> string \<Rightarrow> int + nat" where
  "getopt_loop log_level [] = Inr log_level"
| "getopt_loop log_level (c # cs) =
     (if c = CHR ''h'' \<or> c = CHR ''V'' then Inl 0
      else if c = CHR ''v'' then getopt_loop ((log_level + 1) mod 2 ^ 32) cs
      else if c = CHR ''q'' then getopt_loop 0 cs
      else Inl 1)"

definition ParseCommandLine :: "string \<Rightarrow> string list \<Rightarrow> int + nat" where
  "ParseCommandLine opts rest = then_do (getopt_loop 1 opts) (\<lambda>level. if rest \<noteq> [] then Inl 1 else Inr level)"

text \<open>
  What \<open>main()\<close> finds: the version of the kernel is sufficient, the user, the settings of the spawner
  (none when its user does not exist), the name of the host and the calls of the parser of the configuration file.
\<close>

record daemon_env =
  de_kernel_ok :: bool
  de_euid :: nat
  de_debug_mode :: bool
  de_spawn :: "spawn_config option"
  de_hostname :: "string option"
  de_calls :: "config_call list"

text \<open>The instance that starts with its log level, or the exit status; 78 is \<open>EX_CONFIG\<close>.\<close>

definition daemon_main ::
  "config_lib \<Rightarrow> daemon_env \<Rightarrow> instance_ctx \<Rightarrow> ws_db \<Rightarrow> cron_db \<Rightarrow> string \<Rightarrow> string list \<Rightarrow> int + nat \<times> instance_state" where
  "daemon_main cl e ix wdb cdb opts rest =
     (if \<not> de_kernel_ok e \<or> de_euid e = 0 then Inl 1
      else case de_spawn e of
        None \<Rightarrow> Inl 1
      | Some sp \<Rightarrow>
          then_do (ParseCommandLine opts rest) (\<lambda>level.
            case then_do (LoadConfigFile cl (de_calls e) (daemon_config_init sp)) (Config_Check cl (de_debug_mode e) (de_hostname e)) of
              Inl _ \<Rightarrow> Inl 78
            | Inr c \<Rightarrow> Inr (level, Instance_Start ix (make_instance c wdb cdb))))"

lemma Config_Check_partitions:
  "Config_Check cl d h c0 = Inr c \<Longrightarrow> cf_partitions c \<noteq> [] \<or> cf_cron_partitions c \<noteq> []"
  by (auto simp: Config_Check_def Let_def then_do_eq_Inr split: if_splits)

lemma Instance_Start_frame:
  "length (is_partitions (Instance_Start ix s)) = length (is_partitions s)"
  "length (is_cron_partitions (Instance_Start ix s)) = length (is_cron_partitions s)"
  "is_should_exit (Instance_Start ix s) = is_should_exit s"
  by (simp_all add: Instance_Start_def Instance_UpdateLibraryAndFilter_def Instance_UpdateFilter_def ReloadState_def on_partitions_def on_cron_partitions_def
      Let_def case_prod_beta split: option.splits)

text \<open>
  The daemon starts only as an ordinary user on a recent kernel, with a configuration that has at least one
  partition, and nothing has asked it to exit; otherwise it ends with 0, 1 or 78.
\<close>

theorem daemon_starts:
  "case daemon_main cl e ix wdb cdb opts rest of
     Inl status \<Rightarrow> status \<in> {0, 1, 78}
   | Inr (level, s) \<Rightarrow> de_kernel_ok e \<and> de_euid e \<noteq> 0 \<and> rest = [] \<and> (is_partitions s \<noteq> [] \<or> is_cron_partitions s \<noteq> []) \<and> \<not> is_should_exit s"
proof (cases "daemon_main cl e ix wdb cdb opts rest")
  case (Inl status)
  have "getopt_loop l os = Inl x \<Longrightarrow> x \<in> {0, 1}" for l os x by (induction l os rule: getopt_loop.induct) (auto split: if_splits)
  then show ?thesis using Inl
    by (auto simp: daemon_main_def ParseCommandLine_def then_do_eq_Inl split: if_splits option.splits sum.splits)
next
  case (Inr r)
  obtain level s where r: "r = (level, s)" by (cases r)
  then obtain c0 c where c: "Config_Check cl (de_debug_mode e) (de_hostname e) c0 = Inr c" "s = Instance_Start ix (make_instance c wdb cdb)"
    and e: "de_kernel_ok e" "de_euid e \<noteq> 0" "rest = []"
    using Inr by (auto simp: daemon_main_def ParseCommandLine_def then_do_eq_Inr split: if_splits option.splits sum.splits)
  have "length (is_partitions s) = length (cf_partitions c)" "length (is_cron_partitions s) = length (cf_cron_partitions c)" "\<not> is_should_exit s"
    by (simp_all add: c(2) Instance_Start_frame make_instance_def Instance_init_def)
  then show ?thesis using Inr r e Config_Check_partitions [OF c(1)] by auto
qed

end
