(* ===== verification/Translation_Client.thy ===== *)
theory Translation_Client
  imports Process_Spawn
begin

text \<open>
  The client of the translation server (\<open>src/translation/\<close>): the marshaller with its fixed
  buffer, the two requests, sending and receiving. The representation of a packet header
  (\<open>TranslationHeader\<close> of \<open>libcommon\<close>, a length of 16 bits and a command) and the parser of the response
  are arguments. Writing past the end of the buffer is an error value.
\<close>

section \<open>The marshaller\<close>

datatype translation_command = T_BEGIN | T_END | T_CRON | T_LISTENER_TAG | T_USER | T_URI | T_PARAM | T_EXECUTE | T_PLAN | T_SERVICE | T_APPEND

datatype translation_error = MarshalOverflow | UserNameTooLong | ParameterTooLong | SendFailed | ShortSend
  | TranslationTimeout | SocketError | ResponseBufferFull | ReceiveFailed | ClosedPrematurely | ParserFailed | ExcessiveData

type_synonym header_format = "nat \<Rightarrow> translation_command \<Rightarrow> string"

definition Marshal_bytes :: "string \<Rightarrow> string \<Rightarrow> translation_error + string" where
  "Marshal_bytes src m = (if 8192 < length m + length src then Inl MarshalOverflow else Inr (m @ src))"

definition WriteHeader :: "header_format \<Rightarrow> translation_command \<Rightarrow> nat \<Rightarrow> string \<Rightarrow> translation_error + string" where
  "WriteHeader hdr cmd len m = Marshal_bytes (hdr (len mod 2 ^ 16) cmd) m"

definition Marshal_Write :: "header_format \<Rightarrow> translation_command \<Rightarrow> string \<Rightarrow> string \<Rightarrow> translation_error + string" where
  "Marshal_Write hdr cmd payload m = then_do (WriteHeader hdr cmd (length payload) m) (Marshal_bytes payload)"

text \<open>A sequence of calls of \<open>Write()\<close>.\<close>

fun Marshal_all :: "header_format \<Rightarrow> (translation_command \<times> string) list \<Rightarrow> string \<Rightarrow> translation_error + string" where
  "Marshal_all hdr [] m = Inr m"
| "Marshal_all hdr ((c, p) # ps) m = then_do (Marshal_Write hdr c p m) (Marshal_all hdr ps)"

section \<open>Requests\<close>

text \<open>The result of \<open>send()\<close> is an argument.\<close>

definition SendFull :: "int \<Rightarrow> string \<Rightarrow> translation_error + string" where
  "SendFull nbytes buffer = (if nbytes < 0 then Inl SendFailed else if nbytes \<noteq> int (length buffer) then Inl ShortSend else Inr buffer)"

definition cron_packets :: "string \<Rightarrow> string option \<Rightarrow> string \<Rightarrow> string option \<Rightarrow> string option \<Rightarrow> (translation_command \<times> string) list" where
  "cron_packets partition_name listener_tag user uri param =
     [(T_BEGIN, []), (T_CRON, partition_name)] @ (case listener_tag of None \<Rightarrow> [] | Some t \<Rightarrow> [(T_LISTENER_TAG, t)]) @ [(T_USER, user)]
     @ (case uri of None \<Rightarrow> [] | Some u \<Rightarrow> [(T_URI, u)]) @ (case param of None \<Rightarrow> [] | Some p \<Rightarrow> [(T_PARAM, p)]) @ [(T_END, [])]"

definition SendTranslateCron ::
  "header_format \<Rightarrow> (string \<Rightarrow> int) \<Rightarrow> string \<Rightarrow> string option \<Rightarrow> string \<Rightarrow> string option \<Rightarrow> string option \<Rightarrow> translation_error + string" where
  "SendTranslateCron hdr send partition_name listener_tag user uri param =
     (if 256 < length user then Inl UserNameTooLong
      else if (case param of None \<Rightarrow> False | Some p \<Rightarrow> 4096 < length p) then Inl ParameterTooLong
      else then_do (Marshal_all hdr (cron_packets partition_name listener_tag user uri param) []) (\<lambda>m. SendFull (send m) m))"

definition spawn_packets :: "string option \<Rightarrow> string \<Rightarrow> string \<Rightarrow> string option \<Rightarrow> string list \<Rightarrow> (translation_command \<times> string) list" where
  "spawn_packets tag plan execute param params =
     [(T_BEGIN, []), (T_EXECUTE, execute), (T_PLAN, plan), (T_SERVICE, ''workshop'')] @ (case param of None \<Rightarrow> [] | Some p \<Rightarrow> [(T_PARAM, p)])
     @ (case tag of None \<Rightarrow> [] | Some t \<Rightarrow> [(T_LISTENER_TAG, t)]) @ map (\<lambda>a. (T_APPEND, a)) params @ [(T_END, [])]"

definition SendTranslateSpawn ::
  "header_format \<Rightarrow> (string \<Rightarrow> int) \<Rightarrow> string option \<Rightarrow> string \<Rightarrow> string \<Rightarrow> string option \<Rightarrow> string list \<Rightarrow> translation_error + string" where
  "SendTranslateSpawn hdr send tag plan execute param params =
     (if 1024 < length execute then Inl ParameterTooLong
      else if (case param of None \<Rightarrow> False | Some p \<Rightarrow> 4096 < length p) then Inl ParameterTooLong
      else then_do (Marshal_all hdr (spawn_packets tag plan execute param params) []) (\<lambda>m. SendFull (send m) m))"

section \<open>The response\<close>

text \<open>
  The parser of the response with its state \<open>'p\<close>: \<open>tp_Feed\<close> returns the number of bytes that it has
  consumed, \<open>tp_Process\<close> fails or tells whether the response is complete.
\<close>

record 'p response_parser =
  tp_Feed :: "string \<Rightarrow> 'p \<Rightarrow> nat \<times> 'p"
  tp_Process :: "'p \<Rightarrow> (bool \<times> 'p) option"
  tp_response :: "'p \<Rightarrow> translate_response"

function consume_buffer :: "'p response_parser \<Rightarrow> 'p \<Rightarrow> string \<Rightarrow> translation_error + (translate_response option \<times> 'p \<times> string)" where
  "consume_buffer tp ps buffer =
     (if buffer = [] then Inr (None, ps, buffer)
      else (case tp_Feed tp buffer ps of (consumed, ps1) \<Rightarrow>
              if consumed = 0 then Inr (None, ps1, buffer)
              else (case tp_Process tp ps1 of
                      None \<Rightarrow> Inl ParserFailed
                    | Some (finished, ps2) \<Rightarrow>
                        if \<not> finished then consume_buffer tp ps2 (drop consumed buffer)
                        else if drop consumed buffer \<noteq> [] then Inl ExcessiveData
                        else Inr (Some (tp_response tp ps2), ps2, []))))"
  by pat_completeness auto
termination by (relation "measure (\<lambda>(tp, ps, buffer). length buffer)") auto

declare consume_buffer.simps [simp del]

text \<open>What a call of \<open>recv()\<close> returns: an error, the end of the stream, or at most as many bytes as there is room for.\<close>

datatype recv_result = RecvError | RecvEnd | RecvData string

text \<open>\<open>None\<close>: the client still waits after the given results of \<open>recv()\<close>.\<close>

fun receive_loop :: "'p response_parser \<Rightarrow> recv_result list \<Rightarrow> 'p \<Rightarrow> string \<Rightarrow> (translation_error + translate_response) option" where
  "receive_loop tp rs ps buffer =
     (if 8192 \<le> length buffer then Some (Inl ResponseBufferFull)
      else (case rs of
              [] \<Rightarrow> None
            | RecvError # _ \<Rightarrow> Some (Inl ReceiveFailed)
            | RecvEnd # _ \<Rightarrow> Some (Inl ClosedPrematurely)
            | RecvData d # rs' \<Rightarrow>
                (case consume_buffer tp ps (buffer @ take (8192 - length buffer) d) of
                   Inl e \<Rightarrow> Some (Inl e)
                 | Inr (Some response, _) \<Rightarrow> Some (Inr response)
                 | Inr (None, ps', buffer') \<Rightarrow> receive_loop tp rs' ps' buffer')))"

declare receive_loop.simps [simp del]

text \<open>\<open>wait_result\<close> is the result of waiting 30 seconds for data.\<close>

definition ReceiveTranslateResponse :: "'p response_parser \<Rightarrow> 'p \<Rightarrow> int \<Rightarrow> recv_result list \<Rightarrow> (translation_error + translate_response) option" where
  "ReceiveTranslateResponse tp ps wait_result rs =
     (if wait_result = 0 then Some (Inl TranslationTimeout) else if wait_result < 0 then Some (Inl SocketError) else receive_loop tp rs ps [])"

definition TranslateCron ::
  "header_format \<Rightarrow> (string \<Rightarrow> int) \<Rightarrow> 'p response_parser \<Rightarrow> 'p \<Rightarrow> int \<Rightarrow> recv_result list \<Rightarrow> string \<Rightarrow> string option \<Rightarrow> string \<Rightarrow> string option \<Rightarrow> string option
    \<Rightarrow> (translation_error + translate_response) option" where
  "TranslateCron hdr send tp ps wait rs partition_name listener_tag user uri param =
     (case SendTranslateCron hdr send partition_name listener_tag user uri param of
        Inl e \<Rightarrow> Some (Inl e)
      | Inr _ \<Rightarrow> ReceiveTranslateResponse tp ps wait rs)"

definition TranslateSpawn ::
  "header_format \<Rightarrow> (string \<Rightarrow> int) \<Rightarrow> 'p response_parser \<Rightarrow> 'p \<Rightarrow> int \<Rightarrow> recv_result list \<Rightarrow> string option \<Rightarrow> string \<Rightarrow> string \<Rightarrow> string option \<Rightarrow> string list
    \<Rightarrow> (translation_error + translate_response) option" where
  "TranslateSpawn hdr send tp ps wait rs tag plan execute param params =
     (case SendTranslateSpawn hdr send tag plan execute param params of
        Inl e \<Rightarrow> Some (Inl e)
      | Inr _ \<Rightarrow> ReceiveTranslateResponse tp ps wait rs)"

section \<open>What is on the wire\<close>

text \<open>The bytes of a sequence of packets, and how they are read back with the inverse of the header format.\<close>

definition wire :: "header_format \<Rightarrow> (translation_command \<times> string) list \<Rightarrow> string" where
  "wire hdr ps = concat (map (\<lambda>(c, p). hdr (length p mod 2 ^ 16) c @ p) ps)"

definition wire_size :: "(translation_command \<times> string) list \<Rightarrow> nat" where
  "wire_size ps = sum_list (map (\<lambda>(c, p). 4 + length p) ps)"

fun read_packets :: "(string \<Rightarrow> (nat \<times> translation_command \<times> string) option) \<Rightarrow> nat \<Rightarrow> string \<Rightarrow> (translation_command \<times> string) list option" where
  "read_packets unhdr 0 bytes = (if bytes = [] then Some [] else None)"
| "read_packets unhdr (Suc k) bytes =
     (case unhdr bytes of
        None \<Rightarrow> None
      | Some (n, c, r) \<Rightarrow> if length r < n then None else map_option (Cons (c, take n r)) (read_packets unhdr k (drop n r)))"

lemma wire_simps [simp]: "wire hdr [] = []" "wire hdr ((c, p) # ps) = hdr (length p mod 2 ^ 16) c @ p @ wire hdr ps"
  by (simp_all add: wire_def)

lemma length_wire: "(\<And>n c. length (hdr n c) = 4) \<Longrightarrow> length (wire hdr ps) = wire_size ps"
  by (induction ps) (auto simp: wire_size_def)

lemma Marshal_all_wire:
  assumes "\<And>n c. length (hdr n c) = 4"
  shows "length m \<le> 8192 \<Longrightarrow> Marshal_all hdr ps m = (if length m + wire_size ps \<le> 8192 then Inr (m @ wire hdr ps) else Inl MarshalOverflow)"
proof (induction ps arbitrary: m)
  case (Cons cp ps)
  obtain c p where cp: "cp = (c, p)" by (cases cp)
  let ?m = "m @ hdr (length p mod 2 ^ 16) c @ p"
  have w: "Marshal_Write hdr c p m = (if length m + 4 + length p \<le> 8192 then Inr ?m else Inl MarshalOverflow)"
    by (simp add: Marshal_Write_def WriteHeader_def Marshal_bytes_def assms)
  show ?case using Cons.IH [of ?m] by (simp add: cp w wire_size_def assms)
qed (simp add: wire_size_def)

lemma read_packets_wire:
  assumes "\<And>n c r. n < 2 ^ 16 \<Longrightarrow> unhdr (hdr n c @ r) = Some (n, c, r)" "\<And>c p. (c, p) \<in> set ps \<Longrightarrow> length p < 2 ^ 16"
  shows "read_packets unhdr (length ps) (wire hdr ps) = Some ps"
  using assms(2)
proof (induction ps)
  case (Cons cp ps)
  obtain c p where cp: "cp = (c, p)" by (cases cp)
  have "length p < 2 ^ 16" using Cons.prems [of c p] by (simp add: cp)
  moreover have "read_packets unhdr (length ps) (wire hdr ps) = Some ps" using Cons.prems by (intro Cons.IH) (meson list.set_intros(2))
  ultimately show ?case by (simp add: cp assms(1))
qed simp

lemma wire_size_payload: "(c, p) \<in> set ps \<Longrightarrow> length p \<le> wire_size ps"
  by (induction ps) (auto simp: wire_size_def)

lemma request_sent:
  assumes "\<And>n c. length (hdr n c) = 4" "\<And>n c r. n < 2 ^ 16 \<Longrightarrow> unhdr (hdr n c @ r) = Some (n, c, r)"
  shows "then_do (Marshal_all hdr ps []) (\<lambda>m. SendFull (send m) m) = Inr b \<Longrightarrow> read_packets unhdr (length ps) b = Some ps \<and> length b \<le> 8192"
    and "then_do (Marshal_all hdr ps []) (\<lambda>m. SendFull (send m) m) = Inl MarshalOverflow \<longleftrightarrow> 8192 < wire_size ps"
    and "send (wire hdr ps) = int (length (wire hdr ps)) \<Longrightarrow> wire_size ps \<le> 8192 \<Longrightarrow> then_do (Marshal_all hdr ps []) (\<lambda>m. SendFull (send m) m) = Inr (wire hdr ps)"
proof -
  note m = Marshal_all_wire [of hdr "[]" ps, OF assms(1), simplified]
  show "then_do (Marshal_all hdr ps []) (\<lambda>m. SendFull (send m) m) = Inl MarshalOverflow \<longleftrightarrow> 8192 < wire_size ps"
    "send (wire hdr ps) = int (length (wire hdr ps)) \<Longrightarrow> wire_size ps \<le> 8192 \<Longrightarrow> then_do (Marshal_all hdr ps []) (\<lambda>m. SendFull (send m) m) = Inr (wire hdr ps)"
    by (simp_all add: m SendFull_def)
  assume a: "then_do (Marshal_all hdr ps []) (\<lambda>m. SendFull (send m) m) = Inr b"
  have b: "b = wire hdr ps" "wire_size ps \<le> 8192" using a by (auto simp: m SendFull_def split: if_splits)
  have "length p < 2 ^ 16" if "(c, p) \<in> set ps" for c p using wire_size_payload [OF that] b(2) by simp
  then show "read_packets unhdr (length ps) b = Some ps \<and> length b \<le> 8192"
    using read_packets_wire [of unhdr hdr ps, OF assms(2)] length_wire [of hdr ps, OF assms(1)] b by simp
qed

text \<open>
  C37: whatever the client sends to the translation server is read back as exactly the packets of
  the request, and it fits into the buffer of 8192 bytes. A request with accepted parameters
  overruns that buffer exactly if its packets have more bytes together: the lengths of the arguments,
  the plan name, the tags and the URI are not checked.
\<close>

theorem translation_request:
  assumes "\<And>n c. length (hdr n c) = 4" and "\<And>n c r. n < 2 ^ 16 \<Longrightarrow> unhdr (hdr n c @ r) = Some (n, c, r)"
  shows "(SendTranslateSpawn hdr send tag plan execute param params = Inr b \<longrightarrow> length b \<le> 8192
      \<and> read_packets unhdr (length (spawn_packets tag plan execute param params)) b = Some (spawn_packets tag plan execute param params))
    \<and> (length execute \<le> 1024 \<and> (\<forall>p. param = Some p \<longrightarrow> length p \<le> 4096) \<longrightarrow>
        (SendTranslateSpawn hdr send tag plan execute param params = Inl MarshalOverflow \<longleftrightarrow> 8192 < wire_size (spawn_packets tag plan execute param params)))
    \<and> (SendTranslateCron hdr send part ltag user uri param = Inr b \<longrightarrow> length b \<le> 8192
      \<and> read_packets unhdr (length (cron_packets part ltag user uri param)) b = Some (cron_packets part ltag user uri param))
    \<and> (length user \<le> 256 \<and> (\<forall>p. param = Some p \<longrightarrow> length p \<le> 4096) \<longrightarrow>
        (SendTranslateCron hdr send part ltag user uri param = Inl MarshalOverflow \<longleftrightarrow> 8192 < wire_size (cron_packets part ltag user uri param)))"
proof -
  note r = request_sent [of hdr unhdr, OF assms]
  show ?thesis
    using r(1,2) [where send = send and ps = "spawn_packets tag plan execute param params"] r(1,2) [where send = send and ps = "cron_packets part ltag user uri param"]
    by (auto simp: SendTranslateSpawn_def SendTranslateCron_def split: option.splits)
qed

text \<open>A header as four bytes.\<close>

definition command_code :: "translation_command \<Rightarrow> nat" where
  "command_code c = (case c of T_BEGIN \<Rightarrow> 1 | T_END \<Rightarrow> 2 | T_CRON \<Rightarrow> 3 | T_LISTENER_TAG \<Rightarrow> 4 | T_USER \<Rightarrow> 5 | T_URI \<Rightarrow> 6 | T_PARAM \<Rightarrow> 7
     | T_EXECUTE \<Rightarrow> 8 | T_PLAN \<Rightarrow> 9 | T_SERVICE \<Rightarrow> 10 | T_APPEND \<Rightarrow> 11)"

definition sample_header :: header_format where
  "sample_header n c = [char_of (n mod 256), char_of (n div 256), char_of (command_code c), NUL]"

definition sample_unheader :: "string \<Rightarrow> (nat \<times> translation_command \<times> string) option" where
  "sample_unheader s = (case s of a # b # c # d # r \<Rightarrow>
     map_option (\<lambda>cmd. (of_char a + 256 * of_char b, cmd, r))
       (find (\<lambda>x. command_code x = of_char c) [T_BEGIN, T_END, T_CRON, T_LISTENER_TAG, T_USER, T_URI, T_PARAM, T_EXECUTE, T_PLAN, T_SERVICE, T_APPEND])
   | _ \<Rightarrow> None)"

lemma sample_header_ok: "length (sample_header n c) = 4" "n < 2 ^ 16 \<Longrightarrow> sample_unheader (sample_header n c @ r) = Some (n, c, r)"
  by (simp add: sample_header_def) (cases c; simp add: sample_header_def sample_unheader_def command_code_def)

theorem translation_request_witness:
  "\<exists>b. SendTranslateSpawn sample_header (\<lambda>m. int (length m)) None ''ab'' ''x'' None [''y''] = Inr b
     \<and> read_packets sample_unheader 6 b = Some [(T_BEGIN, []), (T_EXECUTE, ''x''), (T_PLAN, ''ab''), (T_SERVICE, ''workshop''), (T_APPEND, ''y''), (T_END, [])]
     \<and> SendTranslateSpawn sample_header (\<lambda>m. int (length m)) None ''ab'' ''x'' None [replicate 9000 CHR ''a''] = Inl MarshalOverflow"
proof -
  let ?s = "\<lambda>m. int (length m)"
  have packets: "spawn_packets None ''ab'' ''x'' None [''y''] = [(T_BEGIN, []), (T_EXECUTE, ''x''), (T_PLAN, ''ab''), (T_SERVICE, ''workshop''), (T_APPEND, ''y''), (T_END, [])]"
    by (simp add: spawn_packets_def)
  have len: "length (spawn_packets None ''ab'' ''x'' None [''y'']) = 6" by (simp add: packets)
  obtain b where b: "SendTranslateSpawn sample_header ?s None ''ab'' ''x'' None [''y''] = Inr b"
    using request_sent(3) [of sample_header sample_unheader, OF sample_header_ok, where send = ?s and ps = "spawn_packets None ''ab'' ''x'' None [''y'']"]
    by (simp add: SendTranslateSpawn_def wire_size_def packets)
  note t = translation_request [of sample_header sample_unheader, OF sample_header_ok, where send = ?s and tag = None and plan = "''ab''"
      and execute = "''x''" and param = None and part = "[]" and ltag = None and user = "[]" and uri = None]
  have "read_packets sample_unheader 6 b = Some (spawn_packets None ''ab'' ''x'' None [''y''])"
    using conjunct1 [OF t [where params = "[''y'']" and b = b], unfolded len] b by blast
  moreover have "8192 < wire_size (spawn_packets None ''ab'' ''x'' None [replicate 9000 CHR ''a''])" by (simp add: spawn_packets_def wire_size_def)
  then have "SendTranslateSpawn sample_header ?s None ''ab'' ''x'' None [replicate 9000 CHR ''a''] = Inl MarshalOverflow"
    using conjunct1 [OF conjunct2 [OF t [where params = "[replicate 9000 CHR ''a'']" and b = b]]] by simp
  ultimately show ?thesis using b unfolding packets by blast
qed

end
