(* ===== verification/Cron_Operators.thy ===== *)
theory Cron_Operators
  imports Cron_Run Output_Capture Job_Channels
begin

text \<open>
  What executes a cron job and reports its result: the spawned process
  (\<open>src/cron/SpawnOperator.cxx\<close>), the HTTP request (\<open>src/cron/CurlOperator.cxx\<close>), the
  notification email (\<open>src/cron/Notification.cxx\<close>) and the service that sends it
  (\<open>src/EmailService.cxx\<close>). libcurl, the QMQP client, the spawner and the methods of
  \<open>PreparedChildProcess\<close> are arguments; a datagram between the parent and its child is a status and a
  body.
\<close>

section \<open>Spawned processes\<close>

datatype output_fd = OutUnset | OutGiven string | OutCapture

record cron_process =
  kp_stdout :: output_fd
  kp_stderr :: output_fd
  kp_home :: "string option"
  kp_env :: "string list"
  kp_chdir :: "string option"

text \<open>\<open>ToContainerPath()\<close>, \<open>HasEnv()\<close> and \<open>SetEnv()\<close> of \<open>PreparedChildProcess\<close>.\<close>

record process_lib =
  pl_ToContainerPath :: "cron_process \<Rightarrow> string \<Rightarrow> string option"
  pl_HasEnv :: "cron_process \<Rightarrow> string \<Rightarrow> bool"
  pl_SetEnv :: "cron_process \<Rightarrow> string \<Rightarrow> string \<Rightarrow> cron_process"

text \<open>The process that is spawned, and whether its output is captured.\<close>

definition CronSpawn_Spawn :: "process_lib \<Rightarrow> cron_process \<Rightarrow> bool \<times> cron_process" where
  "CronSpawn_Spawn lib p =
     (let capture = (kp_stderr p = OutUnset);
          p1 = (if capture then p\<lparr>kp_stderr := OutCapture, kp_stdout := (if kp_stdout p = OutUnset then OutCapture else kp_stdout p)\<rparr> else p);
          p2 = (case kp_home p1 of
                  None \<Rightarrow> p1
                | Some h \<Rightarrow>
                    (case pl_ToContainerPath lib p1 h of
                       None \<Rightarrow> p1
                     | Some home \<Rightarrow>
                         (let p3 = (if \<not> pl_HasEnv lib p1 ''HOME'' then pl_SetEnv lib p1 ''HOME'' home else p1)
                          in if kp_chdir p3 = None then p3\<lparr>kp_chdir := Some home\<rparr> else p3)))
      in (capture, p2))"

text \<open>
  The end of the process: the exit status and the log. \<open>status\<close> is that of \<open>waitpid()\<close> or a
  negative error code; \<open>-4\<close> is assigned to the exit status of a killed process and at once overwritten.
\<close>

definition CronSpawn_OnChildProcessExit :: "(string \<Rightarrow> bool) \<Rightarrow> int \<Rightarrow> capture_buffer option \<Rightarrow> string option \<times> int" where
  "CronSpawn_OnChildProcessExit ValidateUTF8 status output_capture =
     (let termsig = status mod 128;
          exit_status = (if status < 0 then status
             else if termsig \<noteq> 0 \<and> termsig \<noteq> 127 then -1
             else if termsig = 0 then status div 256 mod 256
             else -10);
          log = map_option NormalizeASCII output_capture
      in ((case log of None \<Rightarrow> None | Some t \<Rightarrow> if \<not> ValidateUTF8 t then Some ''Invalid UTF-8 output'' else Some t), exit_status))"

section \<open>HTTP requests\<close>

datatype curl_error = UrlReceiveFailed | UrlTooLong | TransferFailed string

record response_handler =
  rh_error :: "string option"
  rh_buffer :: string
  rh_status :: nat
  rh_is_text :: bool

definition response_handler_init :: response_handler where
  "response_handler_init = \<lparr>rh_error = None, rh_buffer = [], rh_status = 0, rh_is_text = False\<rparr>"

definition Curl_OnHeaders :: "nat \<Rightarrow> string option \<Rightarrow> response_handler \<Rightarrow> response_handler" where
  "Curl_OnHeaders status content_type h =
     (let h1 = h\<lparr>rh_status := status\<rparr>
      in case content_type of None \<Rightarrow> h1 | Some t \<Rightarrow> h1\<lparr>rh_is_text := starts_with ''text/'' t\<rparr>)"

definition Curl_OnData :: "string \<Rightarrow> response_handler \<Rightarrow> response_handler" where
  "Curl_OnData d h = (if \<not> rh_is_text h then h else h\<lparr>rh_buffer := rh_buffer h @ take (8192 - length (rh_buffer h)) d\<rparr>)"

definition Curl_OnError :: "string \<Rightarrow> response_handler \<Rightarrow> response_handler" where
  "Curl_OnError e h = h\<lparr>rh_error := Some e\<rparr>"

text \<open>The URL that the child receives: \<open>None\<close> is a failed \<open>recv()\<close>.\<close>

definition ReadRequest :: "string option \<Rightarrow> curl_error + string" where
  "ReadRequest received =
     (case received of
        None \<Rightarrow> Inl UrlReceiveFailed
      | Some d \<Rightarrow> if length (take 4096 d) = 4096 then Inl UrlTooLong else Inr (c_str d))"

text \<open>
  The child process. \<open>perform\<close> is the transfer: its callbacks on the handler, or a failure of its own;
  \<open>message\<close> is \<open>GetFullMessage()\<close>. The result is the datagram for the parent and the exit code.
\<close>

definition SpawnCurlFunction ::
  "(curl_error \<Rightarrow> string) \<Rightarrow> (string \<Rightarrow> response_handler \<Rightarrow> curl_error + response_handler) \<Rightarrow> string option \<Rightarrow> (nat \<times> string) \<times> nat" where
  "SpawnCurlFunction message perform received =
     (case then_do (ReadRequest received) (\<lambda>url. then_do (perform url response_handler_init)
             (\<lambda>h. case rh_error h of Some e \<Rightarrow> Inl (TransferFailed e) | None \<Rightarrow> Inr (rh_status h, rh_buffer h))) of
        Inl e \<Rightarrow> ((0, message e), 1)
      | Inr r \<Rightarrow> (r, 0))"

text \<open>In the parent: \<open>None\<close> is a datagram that is too short or a failed \<open>recv()\<close>; the body is cut at the size of the buffer.\<close>

definition Curl_OnSocketReady :: "(nat \<times> string) option \<Rightarrow> cron_result" where
  "Curl_OnSocketReady datagram =
     (case datagram of
        None \<Rightarrow> CronResult_Error ''Failed to read status''
      | Some (status, body) \<Rightarrow>
          \<lparr>res_log = NormalizeASCII (Capture_Append (take (Capture_Write (capture_init 8192)) body) (capture_init 8192)),
           res_exit_status = (if status = 0 then -1 else int status)\<rparr>)"

section \<open>Notification emails\<close>

record email =
  em_sender :: string
  em_recipients :: "string list"
  em_message :: string

definition newline :: string where
  "newline = [CHR 0x0A]"

definition email_header :: "string \<Rightarrow> cron_job \<Rightarrow> int \<Rightarrow> string list" where
  "email_header version job exit_status =
     [''X-CM4all-Workshop: '' @ version, ''X-CM4all-Workshop-Job: '' @ jb_id job, ''X-CM4all-Workshop-Account: '' @ jb_account_id job]
     @ (if 0 \<le> exit_status then [''X-CM4all-Workshop-Status: '' @ show_nat (nat exit_status)] else [])"

text \<open>\<open>log\<close> is \<open>None\<close> for a null pointer.\<close>

definition MakeNotificationEmail :: "string \<Rightarrow> string \<Rightarrow> cron_job \<Rightarrow> string option \<Rightarrow> int \<Rightarrow> email" where
  "MakeNotificationEmail version sender job log exit_status =
     \<lparr>em_sender = sender, em_recipients = [jb_notification job],
      em_message = concat (map (\<lambda>l. l @ newline) (email_header version job exit_status)) @ newline @ (case log of None \<Rightarrow> [] | Some t \<Rightarrow> t)\<rparr>"

datatype notify_error = MalformedEmail string | QrelayFailed | NoQmqpServer

text \<open>
  The jobs of the email service: an email that waits for the connection, or one that is being sent
  over a socket.
\<close>

datatype email_state = MailConnecting | MailSending

record email_service =
  es_has_relay :: bool
  es_jobs :: "(nat \<times> email \<times> email_state) list"
  es_next :: nat

definition Email_Submit :: "email_state \<Rightarrow> email \<Rightarrow> email_service \<Rightarrow> email_service" where
  "Email_Submit st e s = s\<lparr>es_jobs := (es_next s, e, st) # es_jobs s, es_next := es_next s + 1\<rparr>"

definition Email_DeleteJob :: "nat \<Rightarrow> email_service \<Rightarrow> email_service" where
  "Email_DeleteJob k s = s\<lparr>es_jobs := filter (\<lambda>j. fst j \<noteq> k) (es_jobs s)\<rparr>"

definition Email_CancelAll :: "email_service \<Rightarrow> email_service" where
  "Email_CancelAll s = s\<lparr>es_jobs := []\<rparr>"

definition Email_OnSocketConnectSuccess :: "nat \<Rightarrow> email_service \<Rightarrow> email_service" where
  "Email_OnSocketConnectSuccess k s = s\<lparr>es_jobs := map (\<lambda>(i, e, st). (i, e, if i = k then MailSending else st)) (es_jobs s)\<rparr>"

text \<open>\<open>qrelay\<close> tells whether the connection to the relay in the container could be made.\<close>

definition SendNotificationEmail ::
  "(string \<Rightarrow> bool) \<Rightarrow> string \<Rightarrow> bool \<Rightarrow> bool \<Rightarrow> string \<Rightarrow> cron_job \<Rightarrow> string option \<Rightarrow> int \<Rightarrow> email_service \<Rightarrow> notify_error + email_service" where
  "SendNotificationEmail VerifyEmailAddress version use_qrelay qrelay sender job log exit_status s =
     (if \<not> VerifyEmailAddress (jb_notification job) then Inl (MalformedEmail (jb_notification job))
      else if use_qrelay
      then (if qrelay then Inr (Email_Submit MailSending (MakeNotificationEmail version sender job log exit_status) s) else Inl QrelayFailed)
      else if es_has_relay s then Inr (Email_Submit MailConnecting (MakeNotificationEmail version sender job log exit_status) s)
      else Inl NoQmqpServer)"

section \<open>Results of HTTP requests\<close>

lemma Curl_OnData_fold:
  "length (rh_buffer h) \<le> 8192 \<Longrightarrow>
   fold Curl_OnData ds h = (if rh_is_text h then h\<lparr>rh_buffer := take 8192 (rh_buffer h @ concat ds)\<rparr> else h)"
proof (induction ds arbitrary: h)
  case (Cons d ds)
  let ?b = "rh_buffer h @ take (8192 - length (rh_buffer h)) d"
  have "take 8192 (?b @ concat ds) = take 8192 (rh_buffer h @ concat (d # ds))"
    using Cons.prems by (cases "length d \<le> 8192 - length (rh_buffer h)") simp_all
  then show ?case using Cons.IH [of "h\<lparr>rh_buffer := ?b\<rparr>"] Cons.IH [of h] Cons.prems by (simp add: Curl_OnData_def)
qed simp

lemma Normalize_captured:
  "NormalizeASCII (Capture_Append (take (Capture_Write (capture_init 8192)) body) (capture_init 8192)) =
     map (\<lambda>c. if IsDisallowedChar c then CHR '' '' else c) (take 8191 body)"
  by (auto simp: NormalizeASCII_def Capture_Append_def Capture_Write_def capture_init_def Let_def)

text \<open>
  C38: what a cron job with a URL reports. When the transfer succeeds, the exit status of the
  job is the HTTP status, and its log is the beginning of the response body if that is text, and empty
  otherwise: at most 8191 characters, everything that is not printable ASCII, a tab or the end of a line replaced by a space,
  whatever the pieces the body arrived in. When it fails, or the URL is too long, the exit status is
  -1 and the log is the error message.
\<close>

theorem curl_result:
  assumes "length url < 4096" and "NUL \<notin> set url"
    and "perform url response_handler_init = (case failure of Some e \<Rightarrow> Inl e
           | None \<Rightarrow> Inr (fold Curl_OnData chunks (Curl_OnHeaders status content_type response_handler_init)))"
  shows "Curl_OnSocketReady (Some (fst (SpawnCurlFunction message perform (Some url)))) =
     (case failure of
        Some e \<Rightarrow> \<lparr>res_log = map (\<lambda>c. if IsDisallowedChar c then CHR '' '' else c) (take 8191 (message e)), res_exit_status = -1\<rparr>
      | None \<Rightarrow> \<lparr>res_log = map (\<lambda>c. if IsDisallowedChar c then CHR '' '' else c)
            (take 8191 (if (case content_type of None \<Rightarrow> False | Some t \<Rightarrow> starts_with ''text/'' t) then concat chunks else [])),
           res_exit_status = (if status = 0 then -1 else int status)\<rparr>)
   \<and> (4096 \<le> length long_url \<longrightarrow> SpawnCurlFunction message perform (Some long_url) = ((0, message UrlTooLong), 1))"
proof -
  let ?text = "case content_type of None \<Rightarrow> False | Some t \<Rightarrow> starts_with ''text/'' t"
  let ?h = "fold Curl_OnData chunks (Curl_OnHeaders status content_type response_handler_init)"
  have u: "ReadRequest (Some url) = Inr url" using assms(1,2) by (simp add: ReadRequest_def)
  have h: "rh_error ?h = None" "rh_status ?h = status" "rh_buffer ?h = (if ?text then take 8192 (concat chunks) else [])"
    by (subst Curl_OnData_fold; auto simp: Curl_OnHeaders_def response_handler_init_def Let_def split: option.splits)+
  have "fst (SpawnCurlFunction message perform (Some url)) =
      (case failure of Some e \<Rightarrow> (0, message e) | None \<Rightarrow> (status, if ?text then take 8192 (concat chunks) else []))"
    by (cases failure) (simp_all add: SpawnCurlFunction_def u assms(3) h)
  moreover have "4096 \<le> length long_url \<Longrightarrow> SpawnCurlFunction message perform (Some long_url) = ((0, message UrlTooLong), 1)"
    by (simp add: SpawnCurlFunction_def ReadRequest_def)
  ultimately show ?thesis by (cases failure) (simp_all add: Curl_OnSocketReady_def Normalize_captured)
qed

theorem curl_result_witness:
  "Curl_OnSocketReady (Some (fst (SpawnCurlFunction (\<lambda>e. ''error'')
      (\<lambda>url h. Inr (fold Curl_OnData [''a'', [CHR 0x07]] (Curl_OnHeaders 200 (Some ''text/plain'') h))) (Some ''http://a/'')))) =
     \<lparr>res_log = ''a '', res_exit_status = 200\<rparr>"
  using curl_result [of "''http://a/''" "\<lambda>url h. Inr (fold Curl_OnData [''a'', [CHR 0x07]] (Curl_OnHeaders 200 (Some ''text/plain'') h))",
      where failure = None and chunks = "[''a'', [CHR 0x07]]" and status = 200 and content_type = "Some ''text/plain''" and message = "\<lambda>e. ''error''"]
  by (simp add: starts_with_def IsDisallowedChar_def IsPrintableASCII_def IsAllowedNonPrintableChar_def)

section \<open>Results of processes\<close>

text \<open>
  The exit status of a spawned cron job, and its log: since the captured text is normalized to
  ASCII, which is valid UTF-8, it is never replaced.
\<close>

theorem CronSpawn_result:
  assumes "\<And>t. list_all (\<lambda>c. IsPrintableASCII c \<or> IsAllowedNonPrintableChar c) t \<Longrightarrow> ValidateUTF8 t"
  shows "CronSpawn_OnChildProcessExit ValidateUTF8 status capture = (map_option NormalizeASCII capture, snd (CronSpawn_OnChildProcessExit ValidateUTF8 status capture))
    \<and> (0 \<le> status \<longrightarrow> snd (CronSpawn_OnChildProcessExit ValidateUTF8 status capture) \<in> {-10, -1} \<union> {0..255})
    \<and> (0 \<le> n \<and> n \<le> 255 \<longrightarrow> snd (CronSpawn_OnChildProcessExit ValidateUTF8 (n * 256) capture) = n)"
  using assms [OF NormalizeASCII_text(1)] by (auto simp: CronSpawn_OnChildProcessExit_def Let_def split: option.splits)

text \<open>A process that was killed by a signal: \<open>-EINTR\<close> is overwritten by \<open>-1\<close>.\<close>

theorem CronSpawn_killed: "snd (CronSpawn_OnChildProcessExit ValidateUTF8 9 capture) = -1"
  by (simp add: CronSpawn_OnChildProcessExit_def Let_def)

section \<open>Messages\<close>

text \<open>The lines up to the first empty one, and the text after it.\<close>

fun split_lines :: "string \<Rightarrow> string \<Rightarrow> string list \<times> string" where
  "split_lines line [] = ([line], [])"
| "split_lines line (c # cs) =
     (if c \<noteq> CHR 0x0A then split_lines (line @ [c]) cs
      else if line = [] then ([], cs)
      else (let (ls, body) = split_lines [] cs in (line # ls, body)))"

lemma split_lines_line:
  "CHR 0x0A \<notin> set l \<Longrightarrow> line @ l \<noteq> [] \<Longrightarrow> split_lines line (l @ newline @ t) = (let (ls, body) = split_lines [] t in ((line @ l) # ls, body))"
proof (induction l arbitrary: line)
  case (Cons c l)
  have "c \<noteq> CHR 0x0A" using Cons.prems(1) by auto
  then show ?case using Cons.IH [of "line @ [c]"] Cons.prems(1) by (simp add: newline_def)
qed (simp add: newline_def)

lemma split_lines_header:
  "(\<And>l. l \<in> set ls \<Longrightarrow> l \<noteq> [] \<and> CHR 0x0A \<notin> set l) \<Longrightarrow> split_lines [] (concat (map (\<lambda>l. l @ newline) ls) @ newline @ body) = (ls, body)"
proof (induction ls)
  case (Cons l ls)
  have "split_lines [] (concat (map (\<lambda>l. l @ newline) ls) @ newline @ body) = (ls, body)" using Cons by simp
  then show ?case using split_lines_line [of l "[]" "concat (map (\<lambda>l. l @ newline) ls) @ newline @ body"] Cons.prems [of l] by simp
qed (simp add: newline_def)

lemma show_nat_no_newline: "CHR 0x0A \<notin> set (show_nat n)"
proof
  assume "CHR 0x0A \<in> set (show_nat n)"
  then have "is_digit 10 (CHR 0x0A)" using show_nat_digits [of n] by blast
  then show False by (simp add: is_digit_def)
qed

text \<open>
  A notification has exactly the header lines of its job and its result, and the log as its
  body, unless an identifier contains the end of a line.
\<close>

theorem notification_message:
  assumes "CHR 0x0A \<notin> set version" "CHR 0x0A \<notin> set (jb_id job)" "CHR 0x0A \<notin> set (jb_account_id job)"
  shows "split_lines [] (em_message (MakeNotificationEmail version sender job (Some log) exit_status)) = (email_header version job exit_status, log)
    \<and> em_recipients (MakeNotificationEmail version sender job (Some log) exit_status) = [jb_notification job]"
proof -
  have "l \<noteq> [] \<and> CHR 0x0A \<notin> set l" if "l \<in> set (email_header version job exit_status)" for l
    using that assms show_nat_no_newline [of "nat exit_status"] by (auto simp: email_header_def split: if_splits)
  from split_lines_header [of "email_header version job exit_status", OF this] show ?thesis by (simp add: MakeNotificationEmail_def)
qed

end
