(* ===== verification/Control_Client.thy ===== *)
theory Control_Client
  imports Workshop_Instance
begin

text \<open>
  The program \<open>cm4all-workshop-control\<close> (\<open>src/control/Client.cxx\<close>): its command line and the
  packets it sends, and what they do to the instance that receives them. The connection and the
  format of a datagram belong to \<open>libcommon\<close>: whether connecting and sending succeeds are
  arguments, a datagram is the list of its packets.
\<close>

section \<open>The client\<close>

type_synonym packets = "(control_command \<times> string) list"

datatype client_error = Usage "string option" | ConnectFailed | SendFailed

record control_net =
  nt_connect :: "string \<Rightarrow> bool"
  nt_send :: "string \<Rightarrow> packets \<Rightarrow> bool"

text \<open>\<open>Client client{server}; client.Send(...)\<close>: the result is the server and the datagram it was sent.\<close>

definition Client_Send :: "control_net \<Rightarrow> string \<Rightarrow> packets \<Rightarrow> client_error + string \<times> packets" where
  "Client_Send net server pkts =
     (if \<not> nt_connect net server then Inl ConnectFailed
      else if \<not> nt_send net server pkts then Inl SendFailed
      else Inr (server, pkts))"

definition SimpleCommand :: "control_net \<Rightarrow> string \<Rightarrow> string list \<Rightarrow> control_command \<Rightarrow> client_error + string \<times> packets" where
  "SimpleCommand net server as cmd =
     (if as \<noteq> [] then Inl (Usage (Some ''Too many arguments'')) else Client_Send net server [(cmd, [])])"

definition OptionalPayloadCommand :: "control_net \<Rightarrow> string \<Rightarrow> string list \<Rightarrow> control_command \<Rightarrow> client_error + string \<times> packets" where
  "OptionalPayloadCommand net server as cmd =
     Client_Send net server (if as = [] then [(cmd, [])] else map (\<lambda>i. (cmd, i)) as)"

text \<open>\<open>atoi()\<close>: \<open>strtol()\<close> with its limits, converted to 32 bits.\<close>

definition strtol :: "string \<Rightarrow> int" where
  "strtol s =
     (let v = int (digits_value 10 (strtoul_digits 10 s))
      in max (- (2 ^ 63)) (min (2 ^ 63 - 1) (if cderef (dropWhile is_space s) = CHR ''-'' then - v else v)))"

definition atoi :: "string \<Rightarrow> int" where
  "atoi s = (strtol s + 2 ^ 31) mod 2 ^ 32 - 2 ^ 31"

text \<open>The log level is the lowest byte.\<close>

definition Verbose :: "control_net \<Rightarrow> string \<Rightarrow> string list \<Rightarrow> client_error + string \<times> packets" where
  "Verbose net server as =
     (case as of
        [] \<Rightarrow> Inl (Usage (Some ''Log level missing''))
      | s # rest \<Rightarrow>
          if rest \<noteq> [] then Inl (Usage (Some ''Too many arguments''))
          else Client_Send net server [(VERBOSE, [char_of (nat (atoi s mod 256))])])"

definition TerminateChildren :: "control_net \<Rightarrow> string \<Rightarrow> string list \<Rightarrow> client_error + string \<times> packets" where
  "TerminateChildren net server as =
     (if as = [] then Inl (Usage (Some ''Tag missing''))
      else Client_Send net server (map (\<lambda>tag. (TERMINATE_CHILDREN, tag)) as))"

fun client_options :: "string \<Rightarrow> string list \<Rightarrow> client_error + string \<times> string list" where
  "client_options server [] = Inr (server, [])"
| "client_options server (a # as) =
     (if cderef a \<noteq> CHR ''-'' then Inr (server, a # as)
      else if starts_with ''--server='' a then client_options (drop 9 a) as
      else Inl (Usage (Some ''Unknown option'')))"

definition client_command :: "control_net \<Rightarrow> string \<Rightarrow> string \<Rightarrow> string list \<Rightarrow> client_error + string \<times> packets" where
  "client_command net server cmd as =
     (if cmd = ''nop'' then SimpleCommand net server as NOP
      else if cmd = ''verbose'' then Verbose net server as
      else if cmd = ''reload-state'' then SimpleCommand net server as RELOAD_STATE
      else if cmd = ''disable-queue'' then OptionalPayloadCommand net server as DISABLE_QUEUE
      else if cmd = ''enable-queue'' then OptionalPayloadCommand net server as ENABLE_QUEUE
      else if cmd = ''terminate-children'' then TerminateChildren net server as
      else Inl (Usage (Some ''Unknown command'')))"

definition client_main :: "control_net \<Rightarrow> string list \<Rightarrow> client_error + string \<times> packets" where
  "client_main net as =
     then_do (client_options ''@cm4all-workshop.control'' as) (\<lambda>(server, rest).
       case rest of [] \<Rightarrow> Inl (Usage None) | cmd # as' \<Rightarrow> client_command net server cmd as')"

definition client_exit :: "client_error + string \<times> packets \<Rightarrow> int" where
  "client_exit r = (case r of Inl _ \<Rightarrow> 1 | Inr _ \<Rightarrow> 0)"

section \<open>What the instance does with a datagram\<close>

text \<open>The packets of a datagram in order, until one is refused.\<close>

fun receive_packets :: "instance_ctx \<Rightarrow> int \<Rightarrow> packets \<Rightarrow> instance_state \<Rightarrow> control_error + instance_state" where
  "receive_packets ix uid [] s = Inr s"
| "receive_packets ix uid ((c, p) # ps) s = then_do (OnControlPacket ix c p uid s) (receive_packets ix uid ps)"

text \<open>The names of the partitions with the switch that the administrator controls.\<close>

definition admin_switches :: "instance_state \<Rightarrow> (string \<times> bool) list \<times> (string \<times> bool) list" where
  "admin_switches s = (map (\<lambda>p. (ws_name p, ws_admin p)) (is_partitions s), map (\<lambda>p. (cn_name p, cron_admin p)) (is_cron_partitions s))"

text \<open>Whom a command with optional names means; an empty name means all, like no name.\<close>

definition addressed :: "string list \<Rightarrow> string \<Rightarrow> bool" where
  "addressed names n \<longleftrightarrow> names = [] \<or> [] \<in> set names \<or> n \<in> set names"

definition set_switches :: "bool \<Rightarrow> string list \<Rightarrow> (string \<times> bool) list \<times> (string \<times> bool) list \<Rightarrow> (string \<times> bool) list \<times> (string \<times> bool) list" where
  "set_switches b names = (let f = map (\<lambda>(n, a). (n, if addressed names n then b else a)) in map_prod f f)"

lemma ws_switch:
  "ws_admin (Partition_EnableQueue (ws_begin p))" "\<not> ws_admin (Partition_DisableQueue (ws_begin p))"
  "ws_name (Partition_EnableQueue (ws_begin p)) = ws_name p" "ws_name (Partition_DisableQueue (ws_begin p)) = ws_name p"
  by (simp_all add: ws_admin_def Partition_EnableQueue_def Partition_DisableQueue_def EnableDisableSticky_def ws_begin_def on_wq_def
      Workshop_EnableAdmin_def Workshop_DisableAdmin_def Workshop_CheckEnabled_def Workshop_Reschedule_def Workshop_ScheduleTimer_def Let_def split: option.splits)

lemma cron_switch:
  "cron_admin (CronPartition_EnableQueue (cron_begin p))" "\<not> cron_admin (CronPartition_DisableQueue (cron_begin p))"
  "cn_name (CronPartition_EnableQueue (cron_begin p)) = cn_name p" "cn_name (CronPartition_DisableQueue (cron_begin p)) = cn_name p"
  by (simp_all add: cron_admin_def CronPartition_EnableQueue_def CronPartition_DisableQueue_def CronPartition_EnableDisableSticky_def cron_begin_def
      on_queue_def CronQueue_EnableAdmin_def CronQueue_DisableAdmin_def CronQueue_CheckEnabled_def CronQueue_ScheduleClaim_def act_def Let_def split: option.splits)


lemma control_switch:
  assumes "0 \<le> uid"
  shows "\<exists>s1. OnControlPacket ix (if b then ENABLE_QUEUE else DISABLE_QUEUE) n uid s = Inr s1
    \<and> admin_switches s1 = set_switches b [n] (admin_switches s)"
  using assms
  by (cases b; cases "n = []")
    (simp_all add: OnControlPacket_def set_switches_def admin_switches_def on_partitions_def on_cron_partitions_def addressed_def
      ws_switch cron_switch Let_def)

lemma receive_switch:
  assumes "0 \<le> uid"
  shows "\<exists>s'. receive_packets ix uid (map (\<lambda>n. (if b then ENABLE_QUEUE else DISABLE_QUEUE, n)) names) s = Inr s' \<and>
     admin_switches s' = (if names = [] then admin_switches s else set_switches b names (admin_switches s))"
proof (induction names arbitrary: s)
  case (Cons n ns)
  obtain s1 where s1: "OnControlPacket ix (if b then ENABLE_QUEUE else DISABLE_QUEUE) n uid s = Inr s1"
    "admin_switches s1 = set_switches b [n] (admin_switches s)"
    using control_switch [OF assms] by blast
  obtain s' where s': "receive_packets ix uid (map (\<lambda>n. (if b then ENABLE_QUEUE else DISABLE_QUEUE, n)) ns) s1 = Inr s'"
    "admin_switches s' = (if ns = [] then admin_switches s1 else set_switches b ns (admin_switches s1))" using Cons.IH [of s1] by blast
  have "set_switches b ns (set_switches b [n] x) = set_switches b (n # ns) x" if "ns \<noteq> []" for x
    using that by (cases x) (auto simp: set_switches_def addressed_def Let_def split: if_splits)
  then show ?case using s1 s' by auto
qed simp

lemma receive_terminate:
  "\<exists>s'. receive_packets ix uid (map (\<lambda>t. (TERMINATE_CHILDREN, t)) tags) s = Inr s' \<and> only_ends s s'"
proof (induction tags arbitrary: s)
  case (Cons t ts)
  have "\<exists>s1. OnControlPacket ix TERMINATE_CHILDREN t uid s = Inr s1 \<and> only_ends s s1"
    by (auto simp: OnControlPacket_def Let_def only_ends_refl only_ends_TerminateChildren)
  then show ?case using Cons.IH by (fastforce intro: only_ends_trans)
qed (simp add: only_ends_refl)

lemma client_commandE:
  assumes "client_command net server cmd as = Inr (srv, pkts)"
  obtains "cmd = ''nop'' \<and> pkts = [(NOP, [])]"
  | "cmd = ''verbose'' \<and> (\<exists>l. as = [l] \<and> pkts = [(VERBOSE, [char_of (nat (atoi l mod 256))])])"
  | "cmd = ''reload-state'' \<and> pkts = [(RELOAD_STATE, [])]"
  | "cmd = ''disable-queue'' \<and> pkts = map (Pair DISABLE_QUEUE) (if as = [] then [[]] else as)"
  | "cmd = ''enable-queue'' \<and> pkts = map (Pair ENABLE_QUEUE) (if as = [] then [[]] else as)"
  | "cmd = ''terminate-children'' \<and> as \<noteq> [] \<and> pkts = map (Pair TERMINATE_CHILDREN) as"
  using assms
  by (auto simp: client_command_def SimpleCommand_def OptionalPayloadCommand_def Verbose_def TerminateChildren_def Client_Send_def
      split: if_splits list.splits)


section \<open>From the command line to the partitions\<close>

text \<open>
  C35: the commands of the control client, from its command line to the partitions. Whatever
  the client sends, the instance accepts every packet of it. Sent by a local user, \<open>enable-queue\<close> and
  \<open>disable-queue\<close> set the administrator's switch of exactly the partitions that are named, or of all
  of them when no name or an empty one is given; \<open>verbose\<close> sets the log level to the lowest byte of its
  argument; \<open>reload-state\<close> reloads the state; no other command changes a switch, and none starts a process.
\<close>

theorem client_commands:
  assumes "client_main net (cmd # as) = Inr (server, pkts)" and "cderef cmd \<noteq> CHR ''-''" and "0 \<le> uid"
  shows "\<exists>s'. receive_packets ix uid pkts s = Inr s' \<and> server = ''@cm4all-workshop.control''
    \<and> (cmd = ''enable-queue'' \<longrightarrow> admin_switches s' = set_switches True as (admin_switches s))
    \<and> (cmd = ''disable-queue'' \<longrightarrow> admin_switches s' = set_switches False as (admin_switches s))
    \<and> (cmd = ''verbose'' \<longrightarrow> s' = s\<lparr>is_log_level := nat (atoi (hd as) mod 256)\<rparr>)
    \<and> (cmd = ''reload-state'' \<longrightarrow> s' = ReloadState ix s)
    \<and> (cmd = ''nop'' \<longrightarrow> s' = s)
    \<and> (cmd = ''terminate-children'' \<longrightarrow> switches s' = switches s \<and> running_here s' \<subseteq> running_here s)"
proof -
  have c: "client_command net ''@cm4all-workshop.control'' cmd as = Inr (server, pkts)" using assms(1,2) by (simp add: client_main_def)
  then have srv: "server = ''@cm4all-workshop.control''"
    by (auto simp: client_command_def SimpleCommand_def OptionalPayloadCommand_def Verbose_def TerminateChildren_def Client_Send_def
      split: if_splits list.splits)
  have switch: "\<exists>s'. receive_packets ix uid (map (Pair (if b then ENABLE_QUEUE else DISABLE_QUEUE)) (if as = [] then [[]] else as)) s = Inr s'
      \<and> admin_switches s' = set_switches b as (admin_switches s)" for b
  proof -
    have "set_switches b [[]] x = set_switches b [] x" for x by (cases x) (simp add: set_switches_def addressed_def)
    then show ?thesis using receive_switch [OF assms(3), of ix b "if as = [] then [[]] else as" s] by (auto split: if_splits)
  qed
  note [simp] = srv
  from c show ?thesis
  proof (cases rule: client_commandE)
    case 4
    then show ?thesis using switch [of False] by simp
  next
    case 5
    then show ?thesis using switch [of True] by simp
  next
    case 6
    then show ?thesis using receive_terminate [of ix uid as s] by (auto simp: only_ends_def)
  qed (use assms(3) in \<open>auto simp: OnControlPacket_def\<close>)
qed

theorem client_commands_witness:
  "\<exists>s'. receive_packets sample_ix 1000 [(DISABLE_QUEUE, ''p'')] sample_instance = Inr s'
     \<and> admin_switches s' = set_switches False [''p''] (admin_switches sample_instance)"
proof -
  let ?net = "\<lparr>nt_connect = \<lambda>_. True, nt_send = \<lambda>_ _. True\<rparr>"
  have "client_main ?net [''disable-queue'', ''p''] = Inr (''@cm4all-workshop.control'', [(DISABLE_QUEUE, ''p'')])"
    by (simp add: client_main_def client_command_def OptionalPayloadCommand_def Client_Send_def)
  from client_commands [OF this, of 1000 sample_ix sample_instance] show ?thesis by auto
qed

end
