(* ===== verification/Channel_Server.thy ===== *)
theory Channel_Server
  imports Job_Channels
begin

text \<open>
  The server side of the control channel of a job over time
  (\<open>src/workshop/ControlChannelServer.cxx\<close>): the datagrams that wait in the socket, the task that a
  \<open>spawn\<close> command starts, and the replies. Receiving is disabled while a task is running. What
  the spawner and the sending of a reply report are the events.
\<close>

section \<open>The server\<close>

text \<open>The log holds the handled commands with the replies to each.\<close>

record channel_server =
  cv_queue :: "string list"
  cv_task :: bool
  cv_open :: bool
  cv_log :: "(control_outcome \<times> string list) list"

definition channel_init :: channel_server where
  "channel_init = \<lparr>cv_queue = [], cv_task = False, cv_open = True, cv_log = []\<rparr>"

text \<open>
  \<open>ChSpawned\<close>: the task continues with the error of \<open>OnControlSpawn()\<close> or its success, and with what sending the reply
  and sending the error reports; no text is success.
\<close>

datatype channel_event = ChArrive string | ChReady | ChSpawned "string option" "string option" "string option" | ChError

definition Channel_reply :: "string \<Rightarrow> channel_server \<Rightarrow> channel_server" where
  "Channel_reply r s = s\<lparr>cv_log := butlast (cv_log s) @ [(fst (List.last (cv_log s)), snd (List.last (cv_log s)) @ [r])]\<rparr>"

text \<open>A handled datagram; an empty one is the end of the connection.\<close>

definition Channel_handle :: "string \<Rightarrow> control_outcome option \<Rightarrow> channel_server \<Rightarrow> channel_server" where
  "Channel_handle version oc s =
     (case oc of
        None \<Rightarrow> s\<lparr>cv_open := False\<rparr>
      | Some c \<Rightarrow>
          (let s1 = s\<lparr>cv_log := cv_log s @ [(c, [])]\<rparr>
           in case c of
                CtlVersion \<Rightarrow> Channel_reply (''version '' @ version) s1
              | CtlSpawn _ _ \<Rightarrow> s1\<lparr>cv_task := True\<rparr>
              | _ \<Rightarrow> s1))"

definition OnTaskFinished :: "string option \<Rightarrow> channel_server \<Rightarrow> channel_server" where
  "OnTaskFinished error s = (case error of Some _ \<Rightarrow> s\<lparr>cv_task := False, cv_open := False\<rparr> | None \<Rightarrow> s\<lparr>cv_task := False\<rparr>)"

text \<open>The rest of \<open>OnSpawn()\<close>: a reply that could not be sent is an error like a failed spawn.\<close>

definition Channel_spawned :: "string option \<Rightarrow> string option \<Rightarrow> string option \<Rightarrow> channel_server \<Rightarrow> channel_server" where
  "Channel_spawned spawn_error send_ok send_error s =
     (let failed = (case spawn_error of Some m \<Rightarrow> Some m | None \<Rightarrow> send_ok)
      in case failed of
           None \<Rightarrow> OnTaskFinished None (Channel_reply ''ok'' s)
         | Some m \<Rightarrow>
             (case send_error of
                None \<Rightarrow> OnTaskFinished None (Channel_reply (''error '' @ m) s)
              | Some e \<Rightarrow> OnTaskFinished (Some e) s))"

definition Channel_step :: "(char \<Rightarrow> string \<Rightarrow> string list) \<Rightarrow> string \<Rightarrow> channel_event \<Rightarrow> channel_server \<Rightarrow> channel_server" where
  "Channel_step split version e s =
     (case e of
        ChArrive d \<Rightarrow> s\<lparr>cv_queue := cv_queue s @ [d]\<rparr>
      | ChReady \<Rightarrow>
          (if cv_open s \<and> \<not> cv_task s
           then (case cv_queue s of [] \<Rightarrow> s | d # q \<Rightarrow> Channel_handle version (OnUdpDatagram split d) (s\<lparr>cv_queue := q\<rparr>))
           else s)
      | ChSpawned a b c \<Rightarrow> if cv_task s then Channel_spawned a b c s else s
      | ChError \<Rightarrow> if cv_open s \<and> \<not> cv_task s then s\<lparr>cv_open := False\<rparr> else s)"

section \<open>Commands are handled one after another\<close>

fun arrivals :: "channel_event list \<Rightarrow> string list" where
  "arrivals [] = []"
| "arrivals (ChArrive d # es) = d # arrivals es"
| "arrivals (e # es) = arrivals es"

lemma arrivals_append [simp]: "arrivals (es @ fs) = arrivals es @ arrivals fs"
proof (induction es)
  case (Cons e es)
  then show ?case by (cases e) simp_all
qed simp

text \<open>The replies that a command gets.\<close>

fun replied :: "string \<Rightarrow> control_outcome \<times> string list \<Rightarrow> bool" where
  "replied version (CtlSpawn t p, rs) = (\<exists>r. rs = [r] \<and> (r = ''ok'' \<or> (\<exists>m. r = ''error '' @ m)))"
| "replied version (CtlVersion, rs) = (rs = [''version '' @ version])"
| "replied version (c, rs) = (rs = [])"

definition pending :: "control_outcome \<times> string list \<Rightarrow> bool" where
  "pending x \<longleftrightarrow> snd x = [] \<and> (\<exists>t p. fst x = CtlSpawn t p)"

text \<open>What has been received and what waits make up what has arrived; only the latest command can lack its reply.\<close>

definition channel_inv :: "(char \<Rightarrow> string \<Rightarrow> string list) \<Rightarrow> string \<Rightarrow> string list \<Rightarrow> channel_server \<Rightarrow> bool" where
  "channel_inv split version ds s \<longleftrightarrow>
     (\<exists>seen. ds = seen @ cv_queue s \<and> length (cv_log s) \<le> length seen \<and> length seen \<le> Suc (length (cv_log s)) \<and> (cv_open s \<longrightarrow> length seen = length (cv_log s))
        \<and> map (Some \<circ> fst) (cv_log s) = map (OnUdpDatagram split) (take (length (cv_log s)) seen))
     \<and> (if cv_task s then cv_open s \<and> cv_log s \<noteq> [] \<and> pending (List.last (cv_log s)) \<and> list_all (replied version) (butlast (cv_log s))
        else if cv_open s then list_all (replied version) (cv_log s)
        else list_all (replied version) (cv_log s) \<or> (cv_log s \<noteq> [] \<and> pending (List.last (cv_log s)) \<and> list_all (replied version) (butlast (cv_log s))))"

lemma channel_inv_arrive: "channel_inv split version ds s \<Longrightarrow> channel_inv split version (ds @ [d]) (s\<lparr>cv_queue := cv_queue s @ [d]\<rparr>)"
  unfolding channel_inv_def by auto

lemma channel_inv_closed: "channel_inv split version ds s \<Longrightarrow> \<not> cv_task s \<Longrightarrow> channel_inv split version ds (s\<lparr>cv_open := False\<rparr>)"
  unfolding channel_inv_def by (cases "cv_open s") auto

lemma channel_inv_handle:
  assumes "channel_inv split version ds s" and "cv_open s" "\<not> cv_task s" "cv_queue s = d # q"
  shows "channel_inv split version ds (Channel_handle version (OnUdpDatagram split d) (s\<lparr>cv_queue := q\<rparr>))"
proof -
  obtain seen where d: "ds = seen @ d # q" "length seen = length (cv_log s)" "map (Some \<circ> fst) (cv_log s) = map (OnUdpDatagram split) seen"
    and r: "list_all (replied version) (cv_log s)"
    using assms unfolding channel_inv_def by auto
  have e: "ds = (seen @ [d]) @ q" using d(1) by simp
  show ?thesis
  proof (cases "OnUdpDatagram split d")
    case None
    then show ?thesis unfolding channel_inv_def using d r assms(3) by (auto simp: Channel_handle_def intro!: exI [of _ "seen @ [d]"])
  next
    case (Some c)
    define s' where "s' = Channel_handle version (Some c) (s\<lparr>cv_queue := q\<rparr>)"
    have s': "cv_queue s' = q" "cv_open s'" "map fst (cv_log s') = map fst (cv_log s) @ [c]" "length (cv_log s') = Suc (length (cv_log s))"
      "cv_task s' \<longleftrightarrow> (\<exists>t p. c = CtlSpawn t p)" "butlast (cv_log s') = cv_log s"
      using assms(2,3) by (auto simp: s'_def Channel_handle_def Channel_reply_def Let_def split: control_outcome.splits)
    have last: "if cv_task s' then pending (List.last (cv_log s')) else replied version (List.last (cv_log s'))"
      using s'(5) by (cases c) (auto simp: s'_def Channel_handle_def Channel_reply_def Let_def pending_def)
    have ne: "cv_log s' \<noteq> []" using s'(4) by auto
    have "map (Some \<circ> fst) (cv_log s') = map Some (map fst (cv_log s'))" by simp
    also have "\<dots> = map (OnUdpDatagram split) (seen @ [d])" using d(3) Some by (simp add: s'(3))
    finally have m: "map (Some \<circ> fst) (cv_log s') = map (OnUdpDatagram split) (seen @ [d])" .
    have "cv_log s' = cv_log s @ [List.last (cv_log s')]" using append_butlast_last_id [OF ne] s'(6) by simp
    then have "list_all (replied version) (cv_log s')" if "\<not> cv_task s'"
      using last that r by (metis list_all_append list.pred_inject)
    then show ?thesis
      unfolding Some s'_def [symmetric] channel_inv_def using e d(2) s'(1,2,4,6) m last ne r by (auto intro!: exI [of _ "seen @ [d]"])
  qed
qed

lemma channel_inv_spawned:
  assumes "channel_inv split version ds s" and "cv_task s"
  shows "channel_inv split version ds (Channel_spawned a b c s)"
proof -
  have inv: "cv_open s" "cv_log s \<noteq> []" "pending (List.last (cv_log s))" "list_all (replied version) (butlast (cv_log s))"
    using assms by (simp_all add: channel_inv_def)
  obtain seen where d: "ds = seen @ cv_queue s" "length seen = length (cv_log s)" "map (Some \<circ> fst) (cv_log s) = map (OnUdpDatagram split) seen"
    using assms(1) inv(1) by (auto simp: channel_inv_def)
  obtain l t p where l: "cv_log s = l @ [(CtlSpawn t p, [])]"
    using inv(2,3) by (cases "cv_log s" rule: rev_cases) (auto simp: pending_def)
  have closed: "channel_inv split version ds (s\<lparr>cv_task := False, cv_open := False\<rparr>)"
    unfolding channel_inv_def using d inv(2-4) by (auto intro!: exI [of _ seen])
  have answered: "channel_inv split version ds ((Channel_reply r s)\<lparr>cv_task := False\<rparr>)" if "r = ''ok'' \<or> (\<exists>m. r = ''error '' @ m)" for r
    unfolding channel_inv_def using d inv(1,4) that by (auto simp: Channel_reply_def l intro!: exI [of _ seen])
  show ?thesis using closed answered by (auto simp: Channel_spawned_def OnTaskFinished_def Let_def split: option.splits)
qed

lemma channel_inv_step: "channel_inv split version ds s \<Longrightarrow> channel_inv split version (ds @ arrivals [e]) (Channel_step split version e s)"
  by (cases e)
    (auto simp: Channel_step_def channel_inv_arrive channel_inv_handle channel_inv_spawned channel_inv_closed split: list.splits)

lemma channel_inv_run: "channel_inv split version (arrivals es) (fold (Channel_step split version) es channel_init)"
proof (induction es rule: rev_induct)
  case Nil
  show ?case by (simp add: channel_inv_def channel_init_def)
next
  case (snoc e es)
  then show ?case using channel_inv_step [OF snoc] by simp
qed



end
