(* ===== verification/Database_Migration.thy ===== *)
theory Database_Migration
  imports Workshop_Prelude
begin

text \<open>
  The program \<open>cm4all-workshop-migrate\<close> (\<open>src/Migrate.cxx\<close>), which brings the tables of an older
  release up to date. The database is its catalogue: the columns of the tables with their
  types, the indexes and the rewrite rules. The statements have the meaning that PostgreSQL documents for
  them; a failing statement ends the program with an error.
\<close>

section \<open>Catalogue and statements\<close>

text \<open>An index or a rule: its table, the columns it mentions and its text.\<close>

type_synonym dependent = "string \<times> string list \<times> string"

record catalogue =
  ct_tables :: "string \<rightharpoonup> (string \<rightharpoonup> string)"
  ct_indexes :: "string \<rightharpoonup> dependent"
  ct_rules :: "string \<rightharpoonup> dependent"

datatype ddl_error = NoTable string | NoColumn string | NoIndex string | IndexExists string | ColumnInUse string
  | ServerTooOld | RoleNameMissing | NotWorkshopDatabase | MigrateUsage

datatype alter_action = AddColumn string string | AlterColumnType string string

datatype ddl = AlterTable string "alter_action list" | CreateIndex bool string dependent | DropIndex bool string
  | CreateRule string dependent | DropRule string

definition columns_of :: "catalogue \<Rightarrow> string \<Rightarrow> (string \<rightharpoonup> string)" where
  "columns_of c t = (case ct_tables c t of None \<Rightarrow> Map.empty | Some m \<Rightarrow> m)"

text \<open>
  \<open>ADD COLUMN IF NOT EXISTS\<close>, and \<open>ALTER COLUMN ... TYPE\<close>, which PostgreSQL refuses for a column that a
  rule mentions; \<open>blocked\<close> tells for which columns.
\<close>

fun alter_column :: "(string \<Rightarrow> bool) \<Rightarrow> alter_action \<Rightarrow> (string \<rightharpoonup> string) \<Rightarrow> ddl_error + (string \<rightharpoonup> string)" where
  "alter_column blocked (AddColumn c ty) m = Inr (if m c = None then m(c \<mapsto> ty) else m)"
| "alter_column blocked (AlterColumnType c ty) m =
     (if m c = None then Inl (NoColumn c) else if blocked c then Inl (ColumnInUse c) else Inr (m(c \<mapsto> ty)))"

fun alter_actions :: "(string \<Rightarrow> bool) \<Rightarrow> alter_action list \<Rightarrow> (string \<rightharpoonup> string) \<Rightarrow> ddl_error + (string \<rightharpoonup> string)" where
  "alter_actions blocked [] m = Inr m"
| "alter_actions blocked (a # as) m = then_do (alter_column blocked a m) (alter_actions blocked as)"

definition in_use :: "catalogue \<Rightarrow> string \<Rightarrow> string \<Rightarrow> bool" where
  "in_use c t col \<longleftrightarrow> (\<exists>r cols w. ct_rules c r = Some (t, cols, w) \<and> col \<in> set cols)"

definition columns_exist :: "catalogue \<Rightarrow> dependent \<Rightarrow> ddl_error + unit" where
  "columns_exist c d =
     (case d of (t, cols, _) \<Rightarrow>
        if ct_tables c t = None then Inl (NoTable t)
        else (case find (\<lambda>x. columns_of c t x = None) cols of None \<Rightarrow> Inr () | Some x \<Rightarrow> Inl (NoColumn x)))"

text \<open>\<open>CREATE OR REPLACE RULE\<close> and \<open>DROP RULE IF EXISTS\<close>; an index with \<open>IF [NOT] EXISTS\<close> when the flag is set.\<close>

fun Execute :: "ddl \<Rightarrow> catalogue \<Rightarrow> ddl_error + catalogue" where
  "Execute (AlterTable t as) c =
     (case ct_tables c t of
        None \<Rightarrow> Inl (NoTable t)
      | Some m \<Rightarrow> then_do (alter_actions (in_use c t) as m) (\<lambda>m'. Inr (c\<lparr>ct_tables := (ct_tables c)(t \<mapsto> m')\<rparr>)))"
| "Execute (CreateIndex if_not_exists n d) c =
     (if ct_indexes c n \<noteq> None then (if if_not_exists then Inr c else Inl (IndexExists n))
      else then_do (columns_exist c d) (\<lambda>_. Inr (c\<lparr>ct_indexes := (ct_indexes c)(n \<mapsto> d)\<rparr>)))"
| "Execute (DropIndex if_exists n) c =
     (if ct_indexes c n = None \<and> \<not> if_exists then Inl (NoIndex n) else Inr (c\<lparr>ct_indexes := (ct_indexes c)(n := None)\<rparr>))"
| "Execute (CreateRule n d) c = then_do (columns_exist c d) (\<lambda>_. Inr (c\<lparr>ct_rules := (ct_rules c)(n \<mapsto> d)\<rparr>))"
| "Execute (DropRule n) c = Inr (c\<lparr>ct_rules := (ct_rules c)(n := None)\<rparr>)"

fun execute_all :: "ddl list \<Rightarrow> catalogue \<Rightarrow> ddl_error + catalogue" where
  "execute_all [] c = Inr c"
| "execute_all (q # qs) c = then_do (Execute q c) (execute_all qs)"

section \<open>The migration\<close>

definition workshop_ddl :: "ddl list" where
  "workshop_ddl =
     [AlterTable ''jobs'' [AddColumn ''log'' ''text''],
      AlterTable ''jobs'' [AddColumn ''enabled'' ''boolean''],
      DropIndex True ''jobs_sorted'',
      CreateIndex True ''jobs_sorted2'' (''jobs'', [''priority'', ''time_created'', ''enabled'', ''node_name'', ''time_done'', ''exit_status''],
        ''enabled AND node_name IS NULL AND time_done IS NULL AND exit_status IS NULL''),
      DropIndex True ''jobs_scheduled'',
      CreateIndex True ''jobs_scheduled2'' (''jobs'', [''scheduled_time'', ''enabled'', ''node_name'', ''time_done'', ''exit_status''],
        ''enabled AND node_name IS NULL AND time_done IS NULL AND exit_status IS NULL AND scheduled_time IS NOT NULL''),
      CreateRule ''job_enabled'' (''jobs'', [''enabled'', ''node_name'', ''time_done'', ''exit_status''],
        ''NOT OLD.enabled AND NEW.enabled AND NEW.node_name IS NULL AND NEW.time_done IS NULL AND NEW.exit_status IS NULL''),
      AlterTable ''jobs'' [AddColumn ''env'' ''varchar(4096)[]''],
      AlterTable ''jobs'' [AddColumn ''time_started'' ''timestamp''],
      CreateIndex True ''jobs_rate_limit'' (''jobs'', [''plan_name'', ''time_started''], []),
      AlterTable ''jobs'' [AddColumn ''cpu_usage'' ''interval''],
      AlterTable ''jobs'' [AddColumn ''stdin'' ''bytea''],
      AlterTable ''jobs'' [AddColumn ''time_modified'' ''timestamp''],
      CreateIndex True ''jobs_modified'' (''jobs'', [''plan_name'', ''time_modified''], []),
      AlterTable ''jobs'' [AddColumn ''account_id'' ''varchar(32)''],
      CreateIndex True ''jobs_account_modified'' (''jobs'', [''account_id'', ''plan_name'', ''time_modified''], []),
      AlterTable ''jobs'' [AddColumn ''sticky_id'' ''varchar(256)'']]"

definition MigrateWorkshopDatabase :: "catalogue \<Rightarrow> ddl_error + catalogue" where
  "MigrateWorkshopDatabase = execute_all workshop_ddl"

definition scheduled2_index :: dependent where
  "scheduled2_index = (''cronjobs'', [''next_run'', ''enabled'', ''node_name''],
     ''enabled AND node_name IS NULL AND next_run IS NOT NULL AND next_run != infinity'')"

text \<open>The rule that notifies all nodes of a scheduled job, and the variant without the condition on infinity.\<close>

definition schedule_rule :: dependent where
  "schedule_rule = (''cronjobs'', [''enabled'', ''node_name'', ''next_run''],
     ''NEW.enabled AND NEW.node_name IS NULL AND NEW.next_run IS NOT NULL AND NEW.next_run != infinity AND (OLD.next_run IS NULL OR NEW.next_run != OLD.next_run)'')"

definition schedule_rule_short :: dependent where
  "schedule_rule_short = (''cronjobs'', [''enabled'', ''node_name'', ''next_run''],
     ''NEW.enabled AND NEW.node_name IS NULL AND NEW.next_run IS NOT NULL AND (OLD.next_run IS NULL OR NEW.next_run != OLD.next_run)'')"

definition finish_rule :: dependent where
  "finish_rule = (''cronjobs'', [''enabled'', ''node_name'', ''next_run''],
     ''NEW.enabled AND NEW.node_name IS NULL AND NEW.next_run IS NULL AND OLD.next_run IS NOT NULL'')"

abbreviation timestamptz :: string where
  "timestamptz \<equiv> ''timestamp with time zone''"

abbreviation timestamp :: string where
  "timestamp \<equiv> ''timestamp without time zone''"

definition cron_ddl1 :: "ddl list" where
  "cron_ddl1 =
     [AlterTable ''cronjobs'' [AddColumn ''delay'' ''interval'', AddColumn ''delay_range'' ''interval''],
      DropIndex True ''cronjobs_scheduled'',
      CreateIndex True ''cronjobs_scheduled2'' scheduled2_index,
      CreateRule ''schedule_cronjob'' schedule_rule]"

definition cron_ddl2 :: "ddl list" where
  "cron_ddl2 =
     [DropRule ''finish_cronjob'', DropRule ''schedule_cronjob'', DropIndex False ''cronjobs_scheduled2'',
      AlterTable ''cronjobs'' [AlterColumnType ''last_run'' timestamptz, AlterColumnType ''next_run'' timestamptz, AlterColumnType ''node_timeout'' timestamptz],
      CreateRule ''finish_cronjob'' finish_rule, CreateRule ''schedule_cronjob'' schedule_rule_short,
      CreateIndex False ''cronjobs_scheduled2'' scheduled2_index]"

definition cron_ddl3 :: "ddl list" where
  "cron_ddl3 = [AlterTable ''cronresults'' [AlterColumnType ''start_time'' timestamptz, AlterColumnType ''finish_time'' timestamptz]]"

definition cron_ddl4 :: "ddl list" where
  "cron_ddl4 =
     [CreateIndex True ''cronresults_finished'' (''cronresults'', [''finish_time''], []),
      AlterTable ''cronjobs'' [AddColumn ''tz'' ''varchar(64)''],
      AlterTable ''cronjobs'' [AddColumn ''sticky_id'' ''varchar(256)'']]"

definition MigrateCronDatabase :: "catalogue \<Rightarrow> ddl_error + catalogue" where
  "MigrateCronDatabase c0 =
     then_do (execute_all cron_ddl1 c0) (\<lambda>c1.
     then_do (if columns_of c1 ''cronjobs'' ''next_run'' = Some timestamp then execute_all cron_ddl2 c1 else Inr c1) (\<lambda>c2.
     then_do (if columns_of c2 ''cronresults'' ''start_time'' = Some timestamp then execute_all cron_ddl3 c2 else Inr c2)
       (execute_all cron_ddl4)))"

text \<open>The command line: the role to set, the connection and the schema.\<close>

fun migrate_options :: "string option \<Rightarrow> string list \<Rightarrow> ddl_error + string option \<times> string list" where
  "migrate_options role [] = Inr (role, [])"
| "migrate_options role (a # as) =
     (if cderef a \<noteq> CHR ''-'' then Inr (role, a # as)
      else if take 11 a = ''--set-role='' then (if drop 11 a = [] then Inl RoleNameMissing else migrate_options (Some (drop 11 a)) as)
      else Inr (role, []))"

definition migrate_args :: "string list \<Rightarrow> ddl_error + string option \<times> string \<times> string" where
  "migrate_args as =
     then_do (migrate_options None as) (\<lambda>(role, rest).
       case rest of
         [conninfo] \<Rightarrow> Inr (role, conninfo, ''public'')
       | [conninfo, schema] \<Rightarrow> Inr (role, conninfo, schema)
       | _ \<Rightarrow> Inl MigrateUsage)"

text \<open>\<open>version\<close> and \<open>db\<close> are what the connection with this role and schema finds.\<close>

definition migrate_main :: "(string option \<times> string \<times> string \<Rightarrow> nat \<times> catalogue) \<Rightarrow> string list \<Rightarrow> ddl_error + catalogue" where
  "migrate_main connect as =
     then_do (migrate_args as) (\<lambda>target.
       let (version, c0) = connect target
       in if version < 90600 then Inl ServerTooOld
          else then_do (if ct_tables c0 ''jobs'' \<noteq> None then MigrateWorkshopDatabase c0 else Inr c0) (\<lambda>c1.
               then_do (if ct_tables c1 ''cronjobs'' \<noteq> None then MigrateCronDatabase c1 else Inr c1) (\<lambda>c2.
                 if ct_tables c0 ''jobs'' = None \<and> ct_tables c1 ''cronjobs'' = None then Inl NotWorkshopDatabase else Inr c2)))"


section \<open>Statements that can be repeated\<close>

text \<open>Statements that only add what is missing, or remove what is still there.\<close>

fun is_add :: "alter_action \<Rightarrow> bool" where
  "is_add (AddColumn x ty) = True"
| "is_add (AlterColumnType x ty) = False"

fun has_column :: "(string \<rightharpoonup> string) \<Rightarrow> alter_action \<Rightarrow> bool" where
  "has_column m (AddColumn x ty) = (x \<in> dom m)"
| "has_column m (AlterColumnType x ty) = False"

lemma has_column_iff: "has_column m a \<longleftrightarrow> (\<exists>x ty. a = AddColumn x ty \<and> x \<in> dom m)"
  by (cases a) auto

lemma is_add_iff: "is_add a \<longleftrightarrow> (\<exists>x ty. a = AddColumn x ty)"
  by (cases a) auto

fun repeatable :: "ddl \<Rightarrow> bool" where
  "repeatable (AlterTable t as) = list_all is_add as"
| "repeatable (CreateIndex b n d) = b"
| "repeatable (DropIndex b n) = b"
| "repeatable _ = True"

text \<open>The statement has nothing left to do.\<close>

fun settled :: "ddl \<Rightarrow> catalogue \<Rightarrow> bool" where
  "settled (AlterTable t as) c = (\<exists>m. ct_tables c t = Some m \<and> list_all (has_column m) as)"
| "settled (CreateIndex b n d) c = (b \<and> ct_indexes c n \<noteq> None)"
| "settled (DropIndex b n) c = (b \<and> ct_indexes c n = None)"
| "settled (CreateRule n d) c = (ct_rules c n = Some d \<and> columns_exist c d = Inr ())"
| "settled (DropRule n) c = (ct_rules c n = None)"

text \<open>A later statement that undoes an earlier one.\<close>

fun undoes :: "ddl \<Rightarrow> ddl \<Rightarrow> bool" where
  "undoes (DropIndex _ n) (CreateIndex _ n' _) = (n = n')"
| "undoes (CreateIndex _ n _) (DropIndex _ n') = (n = n')"
| "undoes (DropRule n) (CreateRule n' _) = (n = n')"
| "undoes (CreateRule n _) (DropRule n') = (n = n')"
| "undoes (CreateRule n d) (CreateRule n' d') = (n = n' \<and> d \<noteq> d')"
| "undoes _ _ = False"

text \<open>Tables and their columns stay, with the types of the columns.\<close>

definition extends :: "catalogue \<Rightarrow> catalogue \<Rightarrow> bool" where
  "extends c c' \<longleftrightarrow> dom (ct_tables c') = dom (ct_tables c) \<and> (\<forall>t. columns_of c t \<subseteq>\<^sub>m columns_of c' t)"

lemma extends_refl [simp]: "extends c c"
  by (simp add: extends_def)

lemma extends_trans: "extends a b \<Longrightarrow> extends b c \<Longrightarrow> extends a c"
  by (auto simp: extends_def intro: map_le_trans)

lemma add_columns:
  "list_all is_add as \<Longrightarrow>
   \<exists>m'. alter_actions b as m = Inr m' \<and> m \<subseteq>\<^sub>m m' \<and> dom m' = dom m \<union> {x. \<exists>ty. AddColumn x ty \<in> set as}
     \<and> (list_all (has_column m) as \<longrightarrow> m' = m)"
proof (induction as arbitrary: m)
  case (Cons a as)
  then obtain x ty where a: "a = AddColumn x ty" by (cases a) auto
  define m1 where "m1 = (if m x = None then m(x \<mapsto> ty) else m)"
  obtain m' where m': "alter_actions b as m1 = Inr m'" "m1 \<subseteq>\<^sub>m m'" "dom m' = dom m1 \<union> {x. \<exists>ty. AddColumn x ty \<in> set as}"
    "list_all (has_column m1) as \<longrightarrow> m' = m1" using Cons.IH [of m1] Cons.prems by auto
  have "m \<subseteq>\<^sub>m m1" by (auto simp: m1_def map_le_def)
  then have "m \<subseteq>\<^sub>m m'" using m'(2) by (rule map_le_trans)
  moreover have "dom m1 = insert x (dom m)" by (auto simp: m1_def)
  then have "dom m' = dom m \<union> {y. \<exists>ty. AddColumn y ty \<in> set (a # as)}" using m'(3) a by auto
  moreover have "m' = m" if "list_all (has_column m) (a # as)"
    using that m'(4) a by (auto simp: m1_def split: if_splits)
  ultimately show ?case using m'(1) a by (simp add: m1_def)
qed simp

lemma columns_exist_extends: "columns_exist c d = Inr () \<Longrightarrow> extends c c' \<Longrightarrow> columns_exist c' d = Inr ()"
proof -
  assume d: "columns_exist c d = Inr ()" and e: "extends c c'"
  obtain t cols w where dd: "d = (t, cols, w)" by (cases d)
  have "ct_tables c t \<noteq> None" "\<forall>x\<in>set cols. columns_of c t x \<noteq> None"
    using d by (auto simp: dd columns_exist_def find_None_iff split: if_splits option.splits)
  then have "ct_tables c' t \<noteq> None" "\<forall>x\<in>set cols. columns_of c' t x \<noteq> None"
    using e by (auto simp: extends_def map_le_def) (metis domI)
  then show ?thesis by (auto simp: dd columns_exist_def find_None_iff split: option.splits)
qed

lemma Execute_repeatable:
  assumes "repeatable q" and "Execute q c = Inr c'"
  shows "settled q c'" and "extends c c'"
proof -
  have *: "settled q c' \<and> extends c c'"
  proof (cases q)
    case (AlterTable t as)
    obtain m where m: "ct_tables c t = Some m" using assms(2) AlterTable by (auto split: option.splits)
    obtain m' where m': "alter_actions (in_use c t) as m = Inr m'" "m \<subseteq>\<^sub>m m'" "dom m' = dom m \<union> {x. \<exists>ty. AddColumn x ty \<in> set as}"
      using add_columns [of as "in_use c t" m] assms(1) AlterTable by auto
    have c': "c' = c\<lparr>ct_tables := (ct_tables c)(t \<mapsto> m')\<rparr>" using assms(2) by (simp add: AlterTable m m')
    have "extends c c'" using m m'(2) by (auto simp: c' extends_def columns_of_def)
    moreover have "list_all (has_column m') as"
      using assms(1) m'(3) AlterTable by (fastforce simp: list_all_iff has_column_iff is_add_iff)
    ultimately show ?thesis by (simp add: AlterTable c')
  next
    case (CreateRule n d)
    then have d: "columns_exist c d = Inr ()" "c' = c\<lparr>ct_rules := (ct_rules c)(n \<mapsto> d)\<rparr>" using assms(2) by (auto simp: then_do_eq_Inr)
    then have "extends c c'" by (simp add: extends_def columns_of_def)
    then show ?thesis using columns_exist_extends [OF d(1)] d(2) CreateRule by simp
  qed (use assms in \<open>auto simp: then_do_eq_Inr extends_def columns_of_def split: if_splits\<close>)
  then show "settled q c'" "extends c c'" by simp_all
qed

lemma settled_Execute: "settled q c \<Longrightarrow> Execute q c = Inr c"
proof (cases q)
  case (AlterTable t as)
  assume "settled q c"
  then obtain m where m: "ct_tables c t = Some m" "list_all (has_column m) as" by (auto simp: AlterTable)
  then have "list_all is_add as" by (fastforce simp: list_all_iff has_column_iff is_add_iff)
  then have "alter_actions (in_use c t) as m = Inr m" using add_columns [of as "in_use c t" m] m(2) by auto
  then show ?thesis using m by (simp add: AlterTable fun_upd_idem)
qed (auto simp: fun_upd_idem)


lemma settled_stays:
  assumes "settled q c" and "repeatable q'" and "Execute q' c = Inr c'" and "\<not> undoes q' q"
  shows "settled q c'"
proof (cases q)
  case (AlterTable t as)
  then obtain m where m: "ct_tables c t = Some m" "list_all (has_column m) as" using assms(1) by auto
  have e: "extends c c'" using assms(2,3) by (rule Execute_repeatable)
  then obtain m' where m': "ct_tables c' t = Some m'" using m(1) by (auto simp: extends_def)
  then have "m \<subseteq>\<^sub>m m'" using e m(1) by (auto simp: extends_def columns_of_def dest!: spec [of _ t])
  then have "dom m \<subseteq> dom m'" by (rule map_le_implies_dom_le)
  then show ?thesis using m(2) m' by (fastforce simp: AlterTable list_all_iff has_column_iff)
next
  case (CreateRule n d)
  have e: "extends c c'" using assms(2,3) by (rule Execute_repeatable)
  then have "columns_exist c' d = Inr ()" using columns_exist_extends [of c d c'] assms(1) CreateRule by simp
  moreover have "ct_rules c' n = Some d"
    using assms(1,3,4) CreateRule by (cases q') (auto simp: then_do_eq_Inr split: option.splits if_splits)
  ultimately show ?thesis using CreateRule by simp
qed (use assms in \<open>cases q'; auto simp: then_do_eq_Inr split: option.splits if_splits\<close>)+

text \<open>A script of such statements leaves nothing to do, so that it can be executed again.\<close>

fun consistent :: "ddl list \<Rightarrow> bool" where
  "consistent [] = True"
| "consistent (q # qs) = (repeatable q \<and> list_all (\<lambda>q'. \<not> undoes q' q) qs \<and> consistent qs)"

lemma settled_stays_all:
  "execute_all qs c = Inr c' \<Longrightarrow> settled q c \<Longrightarrow> list_all (\<lambda>q'. \<not> undoes q' q) qs \<Longrightarrow> list_all repeatable qs \<Longrightarrow> settled q c'"
  by (induction qs arbitrary: c) (auto simp: then_do_eq_Inr intro: settled_stays)

lemma consistent_repeatable: "consistent qs \<Longrightarrow> list_all repeatable qs"
  by (induction qs) simp_all

lemma execute_all_settles:
  "consistent qs \<Longrightarrow> execute_all qs c = Inr c' \<Longrightarrow> list_all (\<lambda>q. settled q c') qs \<and> extends c c'"
proof (induction qs arbitrary: c)
  case (Cons q qs)
  then obtain c1 where c1: "Execute q c = Inr c1" "execute_all qs c1 = Inr c'" by (auto simp: then_do_eq_Inr)
  then have "list_all (\<lambda>q. settled q c') qs" "extends c1 c'" using Cons.IH [of c1] Cons.prems by simp_all
  moreover have "settled q c1" "extends c c1" using Execute_repeatable [of q] c1(1) Cons.prems(1) by auto
  ultimately show ?case
    using settled_stays_all [OF c1(2), of q] Cons.prems(1) consistent_repeatable [of qs] extends_trans [of c c1 c'] by simp
qed simp

lemma execute_all_again: "list_all (\<lambda>q. settled q c) qs \<Longrightarrow> execute_all qs c = Inr c"
  by (induction qs) (simp_all add: settled_Execute)

text \<open>A script for one table runs when every column it mentions exists or has been added before.\<close>

fun runs_on :: "string \<Rightarrow> string set \<Rightarrow> ddl list \<Rightarrow> bool" where
  "runs_on t A [] = True"
| "runs_on t A (q # qs) =
     ((case q of AlterTable t' as \<Rightarrow> t' = t | CreateIndex b n d \<Rightarrow> b \<and> fst d = t \<and> set (fst (snd d)) \<subseteq> A
         | CreateRule n d \<Rightarrow> fst d = t \<and> set (fst (snd d)) \<subseteq> A | DropIndex b n \<Rightarrow> b | DropRule n \<Rightarrow> True)
      \<and> repeatable q \<and> runs_on t (A \<union> (case q of AlterTable t' as \<Rightarrow> {x. \<exists>ty. AddColumn x ty \<in> set as} | _ \<Rightarrow> {})) qs)"

lemma columns_exist_dom: "ct_tables c (fst d) = Some m \<Longrightarrow> set (fst (snd d)) \<subseteq> dom m \<Longrightarrow> columns_exist c d = Inr ()"
  by (cases d) (auto simp: columns_exist_def columns_of_def find_None_iff split: option.splits)

lemma runs_on_Execute:
  assumes "ct_tables c t = Some m" and "A \<subseteq> dom m" and "runs_on t A (q # qs)"
  obtains c1 m1 where "Execute q c = Inr c1" "ct_tables c1 t = Some m1"
    "A \<union> (case q of AlterTable t' as \<Rightarrow> {x. \<exists>ty. AddColumn x ty \<in> set as} | _ \<Rightarrow> {}) \<subseteq> dom m1"
proof (cases q)
  case (AlterTable t' as)
  obtain m' where m': "alter_actions (in_use c t) as m = Inr m'" "dom m' = dom m \<union> {x. \<exists>ty. AddColumn x ty \<in> set as}"
    using add_columns [of as "in_use c t" m] assms(3) AlterTable by auto
  show thesis
    by (rule that [of "c\<lparr>ct_tables := (ct_tables c)(t \<mapsto> m')\<rparr>" m']) (use assms m' AlterTable in auto)
next
  case (CreateIndex b n d)
  have d: "columns_exist c d = Inr ()" using assms CreateIndex by (intro columns_exist_dom) auto
  show thesis
    by (rule that [of "if ct_indexes c n \<noteq> None then c else c\<lparr>ct_indexes := (ct_indexes c)(n \<mapsto> d)\<rparr>" m]) (use assms d CreateIndex in auto)
next
  case (CreateRule n d)
  have d: "columns_exist c d = Inr ()" using assms CreateRule by (intro columns_exist_dom) auto
  show thesis by (rule that [of "c\<lparr>ct_rules := (ct_rules c)(n \<mapsto> d)\<rparr>" m]) (use assms d CreateRule in auto)
next
  case (DropIndex b n)
  show thesis
    by (rule that [of "c\<lparr>ct_indexes := (ct_indexes c)(n := None)\<rparr>" m]) (use assms DropIndex in auto)
next
  case (DropRule n)
  show thesis by (rule that [of "c\<lparr>ct_rules := (ct_rules c)(n := None)\<rparr>" m]) (use assms DropRule in auto)
qed

lemma runs_on_all: "runs_on t A qs \<Longrightarrow> ct_tables c t = Some m \<Longrightarrow> A \<subseteq> dom m \<Longrightarrow> \<exists>c'. execute_all qs c = Inr c'"
proof (induction qs arbitrary: A c m)
  case (Cons q qs)
  from Cons.prems(2,3,1) obtain c1 m1 where c1: "Execute q c = Inr c1" "ct_tables c1 t = Some m1"
    "A \<union> (case q of AlterTable t' as \<Rightarrow> {x. \<exists>ty. AddColumn x ty \<in> set as} | _ \<Rightarrow> {}) \<subseteq> dom m1" by (rule runs_on_Execute)
  then show ?case using Cons.IH [OF _ c1(2,3)] Cons.prems(1) by simp
qed simp

section \<open>The table of jobs\<close>

text \<open>The columns that every release has, and those that the queue uses.\<close>

definition original_columns :: "string list" where
  "original_columns = [''id'', ''time_created'', ''scheduled_time'', ''priority'', ''plan_name'', ''args'', ''node_name'', ''node_timeout'',
     ''progress'', ''time_done'', ''exit_status'']"

definition added_columns :: "string list" where
  "added_columns = [''log'', ''enabled'', ''env'', ''time_started'', ''cpu_usage'', ''stdin'', ''time_modified'', ''account_id'', ''sticky_id'']"

lemma workshop_ddl_consistent: "consistent workshop_ddl"
  by (simp add: workshop_ddl_def)

lemma workshop_ddl_runs: "runs_on ''jobs'' (set original_columns) workshop_ddl"
  by (simp add: workshop_ddl_def original_columns_def)

text \<open>
  The migration of a table of jobs with at least the columns of the first releases
  succeeds, keeps every column with its type, leaves every column that the queue uses, and can be repeated: a second
  run changes nothing.
\<close>

lemma jobs_migrated:
  assumes "ct_tables c ''jobs'' = Some m" and "set original_columns \<subseteq> dom m"
  shows "\<exists>c' m'. MigrateWorkshopDatabase c = Inr c' \<and> ct_tables c' ''jobs'' = Some m' \<and> m \<subseteq>\<^sub>m m'
    \<and> set original_columns \<union> set added_columns \<subseteq> dom m' \<and> dom (ct_tables c') = dom (ct_tables c)
    \<and> ct_indexes c' ''jobs_sorted'' = None \<and> ct_indexes c' ''jobs_sorted2'' \<noteq> None
    \<and> MigrateWorkshopDatabase c' = Inr c'"
proof -
  obtain c' where c': "MigrateWorkshopDatabase c = Inr c'"
    using runs_on_all [OF workshop_ddl_runs assms] by (auto simp: MigrateWorkshopDatabase_def)
  then have s: "list_all (\<lambda>q. settled q c') workshop_ddl" and e: "extends c c'"
    using execute_all_settles [OF workshop_ddl_consistent] by (auto simp: MigrateWorkshopDatabase_def)
  then have again: "MigrateWorkshopDatabase c' = Inr c'" by (simp add: MigrateWorkshopDatabase_def execute_all_again)
  obtain m' where m': "ct_tables c' ''jobs'' = Some m'" using e assms(1) by (auto simp: extends_def)
  have "m \<subseteq>\<^sub>m m'" using e assms(1) m' by (auto simp: extends_def columns_of_def dest!: spec [of _ "''jobs''"])
  moreover from this have "set original_columns \<subseteq> dom m'" using assms(2) map_le_implies_dom_le by blast
  moreover have "set added_columns \<subseteq> dom m'" using s m' by (auto simp: workshop_ddl_def added_columns_def)
  moreover have "ct_indexes c' ''jobs_sorted'' = None" "ct_indexes c' ''jobs_sorted2'' \<noteq> None"
    using s by (auto simp: workshop_ddl_def)
  ultimately show ?thesis using c' m' again e by (auto simp: extends_def)
qed

definition sample_catalogue :: catalogue where
  "sample_catalogue = \<lparr>ct_tables = [''jobs'' \<mapsto> map_of (map (\<lambda>x. (x, ''text'')) original_columns)], ct_indexes = Map.empty, ct_rules = Map.empty\<rparr>"

text \<open>A column that the migration adds has a shorter type than in \<open>sql/jobs.sql\<close>.\<close>

theorem migrated_account_id:
  assumes "MigrateWorkshopDatabase sample_catalogue = Inr c"
  shows "columns_of c ''jobs'' ''account_id'' = Some ''varchar(32)''"
  using assms
  by (auto simp: MigrateWorkshopDatabase_def workshop_ddl_def sample_catalogue_def original_columns_def columns_exist_def columns_of_def)

section \<open>The tables of cron jobs\<close>

lemma cron_ddl1_runs:
  assumes "ct_tables c ''cronjobs'' = Some m" and "{''next_run'', ''enabled'', ''node_name''} \<subseteq> dom m"
  shows "\<exists>c1 m1. execute_all cron_ddl1 c = Inr c1 \<and> ct_tables c1 = (ct_tables c)(''cronjobs'' \<mapsto> m1) \<and> m \<subseteq>\<^sub>m m1 \<and> {''delay'', ''delay_range''} \<subseteq> dom m1
    \<and> ct_indexes c1 ''cronjobs_scheduled2'' \<noteq> None \<and> ct_rules c1 = (ct_rules c)(''schedule_cronjob'' \<mapsto> schedule_rule)"
proof -
  obtain m1 where m1: "alter_actions (in_use c ''cronjobs'') [AddColumn ''delay'' ''interval'', AddColumn ''delay_range'' ''interval''] m = Inr m1" "m \<subseteq>\<^sub>m m1"
    "{''delay'', ''delay_range''} \<subseteq> dom m1"
    using add_columns [of "[AddColumn ''delay'' ''interval'', AddColumn ''delay_range'' ''interval'']" "in_use c ''cronjobs''" m] by auto
  have "{''next_run'', ''enabled'', ''node_name''} \<subseteq> dom m1" using assms(2) map_le_implies_dom_le [OF m1(2)] by blast
  then have d: "columns_exist x scheduled2_index = Inr ()" "columns_exist x schedule_rule = Inr ()" if "ct_tables x = (ct_tables c)(''cronjobs'' \<mapsto> m1)" for x
    using that columns_exist_dom [of x _ m1] by (auto simp: scheduled2_index_def schedule_rule_def)
  let ?i = "c\<lparr>ct_tables := (ct_tables c)(''cronjobs'' \<mapsto> m1), ct_indexes := (ct_indexes c)(''cronjobs_scheduled'' := None)\<rparr>"
  show ?thesis
    by (rule exI [of _ "(if ct_indexes c ''cronjobs_scheduled2'' \<noteq> None then ?i else ?i\<lparr>ct_indexes := (ct_indexes ?i)(''cronjobs_scheduled2'' \<mapsto> scheduled2_index)\<rparr>)
        \<lparr>ct_rules := (ct_rules c)(''schedule_cronjob'' \<mapsto> schedule_rule)\<rparr>"], rule exI [of _ m1])
      (use m1 assms(1) d in \<open>auto simp: cron_ddl1_def simp del: alter_actions.simps not_None_eq\<close>)
qed


text \<open>
  The columns whose type changes are mentioned by no rule but those that the migration drops first; there is no
  rule for the results.
\<close>

definition free_columns :: "(string \<rightharpoonup> dependent) \<Rightarrow> bool" where
  "free_columns rs \<longleftrightarrow>
     (\<forall>n t cols w. rs n = Some (t, cols, w) \<longrightarrow> t \<noteq> ''cronresults'' \<and>
        (n \<noteq> ''finish_cronjob'' \<and> n \<noteq> ''schedule_cronjob'' \<and> t = ''cronjobs'' \<longrightarrow> set cols \<inter> {''last_run'', ''next_run'', ''node_timeout''} = {}))"

lemma free_columns_upd:
  "free_columns rs \<Longrightarrow> free_columns (rs(''schedule_cronjob'' \<mapsto> schedule_rule))"
  "free_columns rs \<Longrightarrow> free_columns (rs(''finish_cronjob'' \<mapsto> finish_rule, ''schedule_cronjob'' \<mapsto> schedule_rule_short))"
  unfolding free_columns_def by (simp_all add: schedule_rule_def schedule_rule_short_def finish_rule_def)

lemma cron_ddl2_runs:
  assumes "ct_tables c ''cronjobs'' = Some m" and "{''last_run'', ''next_run'', ''node_timeout'', ''enabled'', ''node_name''} \<subseteq> dom m"
    and "ct_indexes c ''cronjobs_scheduled2'' \<noteq> None" and "free_columns (ct_rules c)"
  shows "\<exists>c2. execute_all cron_ddl2 c = Inr c2
    \<and> ct_tables c2 = (ct_tables c)(''cronjobs'' \<mapsto> m(''last_run'' \<mapsto> timestamptz, ''next_run'' \<mapsto> timestamptz, ''node_timeout'' \<mapsto> timestamptz))
    \<and> ct_rules c2 = (ct_rules c)(''finish_cronjob'' \<mapsto> finish_rule, ''schedule_cronjob'' \<mapsto> schedule_rule_short)
    \<and> ct_indexes c2 ''cronjobs_scheduled2'' \<noteq> None"
proof -
  let ?m = "m(''last_run'' \<mapsto> timestamptz, ''next_run'' \<mapsto> timestamptz, ''node_timeout'' \<mapsto> timestamptz)"
  let ?c0 = "c\<lparr>ct_rules := (ct_rules c)(''finish_cronjob'' := None, ''schedule_cronjob'' := None), ct_indexes := (ct_indexes c)(''cronjobs_scheduled2'' := None)\<rparr>"
  have u: "\<not> in_use ?c0 ''cronjobs'' x" if "x \<in> {''last_run'', ''next_run'', ''node_timeout''}" for x
  proof
    assume "in_use ?c0 ''cronjobs'' x"
    then obtain r cols w where r: "ct_rules ?c0 r = Some (''cronjobs'', cols, w)" "x \<in> set cols" unfolding in_use_def by blast
    then have n: "r \<noteq> ''finish_cronjob''" "r \<noteq> ''schedule_cronjob''" "ct_rules c r = Some (''cronjobs'', cols, w)" by (auto split: if_split_asm)
    then have "set cols \<inter> {''last_run'', ''next_run'', ''node_timeout''} = {}" using assms(4) unfolding free_columns_def by blast
    then show False using r(2) that by blast
  qed
  have a: "alter_actions (in_use ?c0 ''cronjobs'')
      [AlterColumnType ''last_run'' timestamptz, AlterColumnType ''next_run'' timestamptz, AlterColumnType ''node_timeout'' timestamptz] m = Inr ?m"
    using assms(2) u [of "''last_run''"] u [of "''next_run''"] u [of "''node_timeout''"] by (simp add: domIff)
  have d: "columns_exist x finish_rule = Inr ()" "columns_exist x schedule_rule_short = Inr ()" "columns_exist x scheduled2_index = Inr ()"
    if "ct_tables x = (ct_tables c)(''cronjobs'' \<mapsto> ?m)" for x
    using that assms(2) columns_exist_dom [of x _ ?m] by (auto simp: finish_rule_def schedule_rule_short_def scheduled2_index_def)
  show ?thesis
    by (rule exI [of _ "?c0\<lparr>ct_tables := (ct_tables c)(''cronjobs'' \<mapsto> ?m), ct_rules := (ct_rules c)(''finish_cronjob'' \<mapsto> finish_rule, ''schedule_cronjob'' \<mapsto> schedule_rule_short),
        ct_indexes := (ct_indexes ?c0)(''cronjobs_scheduled2'' \<mapsto> scheduled2_index)\<rparr>"])
      (use assms(1,3) a d in \<open>auto simp: cron_ddl2_def fun_upd_twist simp del: alter_actions.simps not_None_eq\<close>)
qed

lemma cron_tail_runs:
  assumes "ct_tables c ''cronjobs'' = Some m" and "ct_tables c ''cronresults'' = Some r" and "{''start_time'', ''finish_time''} \<subseteq> dom r"
    and "free_columns (ct_rules c)"
  shows "\<exists>c' m' r'. then_do (if columns_of c ''cronresults'' ''start_time'' = Some timestamp then execute_all cron_ddl3 c else Inr c) (execute_all cron_ddl4) = Inr c'
    \<and> ct_tables c' ''cronjobs'' = Some m' \<and> m \<subseteq>\<^sub>m m' \<and> {''tz'', ''sticky_id''} \<subseteq> dom m'
    \<and> ct_tables c' ''cronresults'' = Some r' \<and> dom r' = dom r \<and> r' ''start_time'' \<noteq> Some timestamp \<and> ct_rules c' = ct_rules c"
proof -
  let ?r = "r(''start_time'' \<mapsto> timestamptz, ''finish_time'' \<mapsto> timestamptz)"
  have "\<not> in_use c ''cronresults'' x" for x using assms(4) unfolding in_use_def free_columns_def by blast
  then have a: "alter_actions (in_use c ''cronresults'') [AlterColumnType ''start_time'' timestamptz, AlterColumnType ''finish_time'' timestamptz] r = Inr ?r"
    using assms(3) by (simp add: domIff)
  define r' where "r' = (if r ''start_time'' = Some timestamp then ?r else r)"
  define c3 where "c3 = (if r ''start_time'' = Some timestamp then c\<lparr>ct_tables := (ct_tables c)(''cronresults'' \<mapsto> ?r)\<rparr> else c)"
  have c3: "(if columns_of c ''cronresults'' ''start_time'' = Some timestamp then execute_all cron_ddl3 c else Inr c) = Inr c3"
    using a assms(2) by (simp add: cron_ddl3_def columns_of_def c3_def del: alter_actions.simps)
  have t3: "ct_tables c3 ''cronjobs'' = Some m" "ct_tables c3 ''cronresults'' = Some r'" "ct_rules c3 = ct_rules c"
    using assms(1,2) by (simp_all add: c3_def r'_def)
  have r': "dom r' = dom r" "r' ''start_time'' \<noteq> Some timestamp" using assms(3) by (auto simp: r'_def)
  define c4 where "c4 = (if ct_indexes c3 ''cronresults_finished'' \<noteq> None then c3
    else c3\<lparr>ct_indexes := (ct_indexes c3)(''cronresults_finished'' \<mapsto> (''cronresults'', [''finish_time''], []))\<rparr>)"
  have i: "Execute (CreateIndex True ''cronresults_finished'' (''cronresults'', [''finish_time''], [])) c3 = Inr c4"
    using columns_exist_dom [of c3 "(''cronresults'', [''finish_time''], [])" r'] t3(2) r'(1) assms(3) by (simp add: c4_def)
  have t4: "ct_tables c4 = ct_tables c3" "ct_rules c4 = ct_rules c" using t3(3) by (simp_all add: c4_def)
  let ?m1 = "if m ''tz'' = None then m(''tz'' \<mapsto> ''varchar(64)'') else m"
  let ?m2 = "if ?m1 ''sticky_id'' = None then ?m1(''sticky_id'' \<mapsto> ''varchar(256)'') else ?m1"
  have m2: "m \<subseteq>\<^sub>m ?m2" "{''tz'', ''sticky_id''} \<subseteq> dom ?m2" by (auto simp: map_le_def)
  let ?c5 = "c4\<lparr>ct_tables := (ct_tables c4)(''cronjobs'' \<mapsto> ?m2)\<rparr>"
  have "execute_all cron_ddl4 c3 = Inr ?c5" unfolding cron_ddl4_def execute_all.simps i then_do_Inr using t3(1) t4(1) by simp
  moreover have "ct_tables ?c5 ''cronresults'' = Some r'" "ct_tables ?c5 ''cronjobs'' = Some ?m2" "ct_rules ?c5 = ct_rules c"
    using t3(2) t4 by simp_all
  ultimately show ?thesis unfolding c3 then_do_Inr using m2 r' by blast
qed

lemma map_le_Some: "m \<subseteq>\<^sub>m m' \<Longrightarrow> m x = Some y \<Longrightarrow> m' x = Some y"
  by (metis domI map_le_def)

text \<open>One run of the migration. When the timestamps have no time zones, two rules are replaced, otherwise only one.\<close>

definition cron_tables_ok :: "catalogue \<Rightarrow> bool" where
  "cron_tables_ok c \<longleftrightarrow> (\<exists>m r. ct_tables c ''cronjobs'' = Some m \<and> {''last_run'', ''next_run'', ''node_timeout'', ''enabled'', ''node_name''} \<subseteq> dom m
     \<and> ct_tables c ''cronresults'' = Some r \<and> {''start_time'', ''finish_time''} \<subseteq> dom r) \<and> free_columns (ct_rules c)"

lemma cron_ddl12_runs:
  assumes "ct_tables c ''cronjobs'' = Some m" and "{''last_run'', ''next_run'', ''node_timeout'', ''enabled'', ''node_name''} \<subseteq> dom m"
    and "free_columns (ct_rules c)"
  shows "\<exists>c2 m2. then_do (execute_all cron_ddl1 c) (\<lambda>c1. if columns_of c1 ''cronjobs'' ''next_run'' = Some timestamp then execute_all cron_ddl2 c1 else Inr c1) = Inr c2
    \<and> ct_tables c2 = (ct_tables c)(''cronjobs'' \<mapsto> m2) \<and> dom m \<union> {''delay'', ''delay_range''} \<subseteq> dom m2 \<and> m2 ''next_run'' \<noteq> Some timestamp
    \<and> ct_rules c2 = (if m ''next_run'' = Some timestamp then (ct_rules c)(''finish_cronjob'' \<mapsto> finish_rule, ''schedule_cronjob'' \<mapsto> schedule_rule_short)
         else (ct_rules c)(''schedule_cronjob'' \<mapsto> schedule_rule))"
proof -
  obtain c1 m1 where c1: "execute_all cron_ddl1 c = Inr c1" "ct_tables c1 = (ct_tables c)(''cronjobs'' \<mapsto> m1)" "m \<subseteq>\<^sub>m m1" "{''delay'', ''delay_range''} \<subseteq> dom m1"
    "ct_indexes c1 ''cronjobs_scheduled2'' \<noteq> None" "ct_rules c1 = (ct_rules c)(''schedule_cronjob'' \<mapsto> schedule_rule)"
    using cron_ddl1_runs [OF assms(1)] assms(2) by blast
  have m1: "ct_tables c1 ''cronjobs'' = Some m1" "dom m \<subseteq> dom m1" using c1(2) map_le_implies_dom_le [OF c1(3)] by simp_all
  have d1: "{''last_run'', ''next_run'', ''node_timeout'', ''enabled'', ''node_name''} \<subseteq> dom m1" by (rule subset_trans [OF assms(2) m1(2)])
  have f1: "free_columns (ct_rules c1)" unfolding c1(6) by (rule free_columns_upd(1) [OF assms(3)])
  have nxt: "columns_of c1 ''cronjobs'' ''next_run'' = m ''next_run''" "m1 ''next_run'' = m ''next_run''"
    using map_le_Some [OF c1(3)] assms(2) m1(1) by (auto simp: columns_of_def)
  show ?thesis
  proof (cases "m ''next_run'' = Some timestamp")
    case True
    obtain c2 where c2: "execute_all cron_ddl2 c1 = Inr c2"
      "ct_tables c2 = (ct_tables c1)(''cronjobs'' \<mapsto> m1(''last_run'' \<mapsto> timestamptz, ''next_run'' \<mapsto> timestamptz, ''node_timeout'' \<mapsto> timestamptz))"
      "ct_rules c2 = (ct_rules c1)(''finish_cronjob'' \<mapsto> finish_rule, ''schedule_cronjob'' \<mapsto> schedule_rule_short)"
      using cron_ddl2_runs [OF m1(1) d1 c1(5) f1] by blast
    let ?m2 = "m1(''last_run'' \<mapsto> timestamptz, ''next_run'' \<mapsto> timestamptz, ''node_timeout'' \<mapsto> timestamptz)"
    have "dom m \<union> {''delay'', ''delay_range''} \<subseteq> dom ?m2" using c1(4) m1(2) by auto
    then show ?thesis using True c2 c1(1,2,6) nxt by (intro exI [of _ c2] exI [of _ ?m2]) (simp add: fun_upd_twist)
  next
    case False
    then show ?thesis using c1 nxt m1(2) by (intro exI [of _ c1] exI [of _ m1]) simp
  qed
qed

lemma then_do_assoc: "then_do (then_do x f) g = then_do x (\<lambda>y. then_do (f y) g)"
  by (cases x) simp_all

lemma MigrateCronDatabase_stages:
  "MigrateCronDatabase c =
     then_do (then_do (execute_all cron_ddl1 c) (\<lambda>c1. if columns_of c1 ''cronjobs'' ''next_run'' = Some timestamp then execute_all cron_ddl2 c1 else Inr c1))
       (\<lambda>c2. then_do (if columns_of c2 ''cronresults'' ''start_time'' = Some timestamp then execute_all cron_ddl3 c2 else Inr c2) (execute_all cron_ddl4))"
  unfolding MigrateCronDatabase_def then_do_assoc ..

lemma MigrateCronDatabase_runs:
  assumes "cron_tables_ok c"
  shows "\<exists>c'. MigrateCronDatabase c = Inr c' \<and> cron_tables_ok c' \<and> {''delay'', ''delay_range'', ''tz'', ''sticky_id''} \<subseteq> dom (columns_of c' ''cronjobs'')
    \<and> columns_of c' ''cronjobs'' ''next_run'' \<noteq> Some timestamp \<and> columns_of c' ''cronresults'' ''start_time'' \<noteq> Some timestamp
    \<and> ct_rules c' = (if columns_of c ''cronjobs'' ''next_run'' = Some timestamp
       then (ct_rules c)(''finish_cronjob'' \<mapsto> finish_rule, ''schedule_cronjob'' \<mapsto> schedule_rule_short)
       else (ct_rules c)(''schedule_cronjob'' \<mapsto> schedule_rule))"
proof -
  obtain m r where m: "ct_tables c ''cronjobs'' = Some m" "{''last_run'', ''next_run'', ''node_timeout'', ''enabled'', ''node_name''} \<subseteq> dom m"
    and r: "ct_tables c ''cronresults'' = Some r" "{''start_time'', ''finish_time''} \<subseteq> dom r" and f: "free_columns (ct_rules c)"
    using assms unfolding cron_tables_ok_def by blast
  obtain c2 m2 where c2: "then_do (execute_all cron_ddl1 c) (\<lambda>c1. if columns_of c1 ''cronjobs'' ''next_run'' = Some timestamp then execute_all cron_ddl2 c1 else Inr c1) = Inr c2"
    "ct_tables c2 = (ct_tables c)(''cronjobs'' \<mapsto> m2)" "dom m \<union> {''delay'', ''delay_range''} \<subseteq> dom m2" "m2 ''next_run'' \<noteq> Some timestamp"
    "ct_rules c2 = (if m ''next_run'' = Some timestamp then (ct_rules c)(''finish_cronjob'' \<mapsto> finish_rule, ''schedule_cronjob'' \<mapsto> schedule_rule_short)
       else (ct_rules c)(''schedule_cronjob'' \<mapsto> schedule_rule))"
    using cron_ddl12_runs [OF m f] by blast
  have t2: "ct_tables c2 ''cronjobs'' = Some m2" "ct_tables c2 ''cronresults'' = Some r" "free_columns (ct_rules c2)"
    using c2(2,5) r(1) free_columns_upd [OF f] by simp_all
  obtain c' m' r' where c': "then_do (if columns_of c2 ''cronresults'' ''start_time'' = Some timestamp then execute_all cron_ddl3 c2 else Inr c2) (execute_all cron_ddl4) = Inr c'"
    "ct_tables c' ''cronjobs'' = Some m'" "m2 \<subseteq>\<^sub>m m'" "{''tz'', ''sticky_id''} \<subseteq> dom m'"
    "ct_tables c' ''cronresults'' = Some r'" "dom r' = dom r" "r' ''start_time'' \<noteq> Some timestamp" "ct_rules c' = ct_rules c2"
    using cron_tail_runs [OF t2(1,2) r(2) t2(3)] by blast
  have dm: "dom m \<union> {''delay'', ''delay_range''} \<subseteq> dom m'" by (rule subset_trans [OF c2(3) map_le_implies_dom_le [OF c'(3)]])
  have "''next_run'' \<in> dom m2" using c2(3) m(2) by (simp add: subset_iff)
  then have nx: "m' ''next_run'' \<noteq> Some timestamp" using map_le_Some [OF c'(3)] c2(4) by auto
  have "MigrateCronDatabase c = Inr c'" unfolding MigrateCronDatabase_stages c2(1) then_do_Inr by (rule c'(1))
  moreover have "cron_tables_ok c'" 
    unfolding cron_tables_ok_def c'(8) using c'(2,5,6) r(2) t2(3) subset_trans [OF m(2), of "dom m'"] dm by simp
  ultimately show ?thesis using c'(2,4,5,7,8) dm nx c2(5) m(1) by (simp add: columns_of_def)
qed

text \<open>
  The migration of the tables of cron jobs succeeds: it adds the missing columns and gives the
  timestamps time zones. From a database without time zones it leaves the rule for scheduled jobs without its
  condition on infinity, which a second run restores.
\<close>

theorem migrate_cron:
  assumes "cron_tables_ok c"
  shows "\<exists>c' c''. MigrateCronDatabase c = Inr c' \<and> {''delay'', ''delay_range'', ''tz'', ''sticky_id''} \<subseteq> dom (columns_of c' ''cronjobs'')
    \<and> columns_of c' ''cronjobs'' ''next_run'' \<noteq> Some timestamp \<and> columns_of c' ''cronresults'' ''start_time'' \<noteq> Some timestamp
    \<and> ct_rules c' ''schedule_cronjob'' = Some (if columns_of c ''cronjobs'' ''next_run'' = Some timestamp then schedule_rule_short else schedule_rule)
    \<and> MigrateCronDatabase c' = Inr c'' \<and> ct_rules c'' ''schedule_cronjob'' = Some schedule_rule \<and> schedule_rule \<noteq> schedule_rule_short"
proof -
  obtain c' where c': "MigrateCronDatabase c = Inr c'" "cron_tables_ok c'" "{''delay'', ''delay_range'', ''tz'', ''sticky_id''} \<subseteq> dom (columns_of c' ''cronjobs'')"
    "columns_of c' ''cronjobs'' ''next_run'' \<noteq> Some timestamp" "columns_of c' ''cronresults'' ''start_time'' \<noteq> Some timestamp"
    "ct_rules c' = (if columns_of c ''cronjobs'' ''next_run'' = Some timestamp
       then (ct_rules c)(''finish_cronjob'' \<mapsto> finish_rule, ''schedule_cronjob'' \<mapsto> schedule_rule_short)
       else (ct_rules c)(''schedule_cronjob'' \<mapsto> schedule_rule))"
    using MigrateCronDatabase_runs [OF assms] by blast
  obtain c'' where "MigrateCronDatabase c' = Inr c''" "ct_rules c'' = (ct_rules c')(''schedule_cronjob'' \<mapsto> schedule_rule)"
    using MigrateCronDatabase_runs [OF c'(2)] c'(4) by auto
  moreover have "schedule_rule \<noteq> schedule_rule_short" by (simp add: schedule_rule_def schedule_rule_short_def)
  ultimately show ?thesis using c' by (intro exI [of _ c'] exI [of _ c'']) simp
qed

definition sample_cron_catalogue :: catalogue where
  "sample_cron_catalogue = \<lparr>ct_tables = [''cronjobs'' \<mapsto> (\<lambda>x. Some timestamp), ''cronresults'' \<mapsto> (\<lambda>x. Some timestamp)], ct_indexes = Map.empty, ct_rules = Map.empty\<rparr>"

theorem migrate_cron_witness:
  "\<exists>c' c''. MigrateCronDatabase sample_cron_catalogue = Inr c' \<and> ct_rules c' ''schedule_cronjob'' = Some schedule_rule_short
     \<and> MigrateCronDatabase c' = Inr c'' \<and> ct_rules c'' ''schedule_cronjob'' = Some schedule_rule"
proof -
  have "cron_tables_ok sample_cron_catalogue" by (auto simp: cron_tables_ok_def sample_cron_catalogue_def free_columns_def)
  moreover have "columns_of sample_cron_catalogue ''cronjobs'' ''next_run'' = Some timestamp" by (simp add: columns_of_def sample_cron_catalogue_def)
  ultimately show ?thesis using migrate_cron [of sample_cron_catalogue] by fastforce
qed

section \<open>The program\<close>

text \<open>The migration of the jobs touches no rule of the cron jobs.\<close>

lemma free_columns_jobs: "free_columns rs \<Longrightarrow> fst d = ''jobs'' \<Longrightarrow> free_columns (rs(n \<mapsto> d))"
  by (cases d) (simp add: free_columns_def)

lemma execute_all_free:
  "execute_all qs c = Inr c' \<Longrightarrow> list_all (\<lambda>q. case q of CreateRule n d \<Rightarrow> fst d = ''jobs'' | DropRule n \<Rightarrow> False | _ \<Rightarrow> True) qs \<Longrightarrow>
   free_columns (ct_rules c) \<Longrightarrow> free_columns (ct_rules c')"
proof (induction qs arbitrary: c)
  case (Cons q qs)
  then obtain c1 where c1: "Execute q c = Inr c1" "execute_all qs c1 = Inr c'" by (auto simp: then_do_eq_Inr)
  have "free_columns (ct_rules c1)"
  proof (cases q)
    case (CreateRule n d)
    then show ?thesis using c1(1) Cons.prems(2,3) free_columns_jobs [of "ct_rules c" d n] by (auto simp: then_do_eq_Inr simp del: fun_upd_apply)
  qed (use c1(1) Cons.prems(2,3) in \<open>auto simp: then_do_eq_Inr split: option.splits if_splits\<close>)
  then show ?case using Cons.IH [OF c1(2)] Cons.prems(2) by simp
qed simp

lemma MigrateWorkshop_cron_ok:
  assumes "MigrateWorkshopDatabase c = Inr c'" and "cron_tables_ok c"
  shows "cron_tables_ok c'"
proof -
  have e: "extends c c'" using execute_all_settles [OF workshop_ddl_consistent] assms(1) by (auto simp: MigrateWorkshopDatabase_def)
  have grow: "\<exists>m'. ct_tables c' t = Some m' \<and> dom m \<subseteq> dom m'" if "ct_tables c t = Some m" for t m
  proof -
    have "t \<in> dom (ct_tables c')" using e that by (auto simp: extends_def)
    then obtain m' where m': "ct_tables c' t = Some m'" by blast
    have "m \<subseteq>\<^sub>m m'" using e that m' by (auto simp: extends_def columns_of_def dest!: spec [of _ t])
    then show ?thesis using m' map_le_implies_dom_le by blast
  qed
  have f: "free_columns (ct_rules c')"
  proof (rule execute_all_free)
    show "execute_all workshop_ddl c = Inr c'" using assms(1) by (simp add: MigrateWorkshopDatabase_def)
  qed (use assms(2) in \<open>simp_all add: workshop_ddl_def cron_tables_ok_def\<close>)
  obtain m r where m: "ct_tables c ''cronjobs'' = Some m" "{''last_run'', ''next_run'', ''node_timeout'', ''enabled'', ''node_name''} \<subseteq> dom m"
    and r: "ct_tables c ''cronresults'' = Some r" "{''start_time'', ''finish_time''} \<subseteq> dom r"
    using assms(2) unfolding cron_tables_ok_def by blast
  obtain m' r' where g: "ct_tables c' ''cronjobs'' = Some m'" "dom m \<subseteq> dom m'" "ct_tables c' ''cronresults'' = Some r'" "dom r \<subseteq> dom r'"
    using grow [OF m(1)] grow [OF r(1)] by blast
  show ?thesis
    unfolding cron_tables_ok_def using g(1,3) subset_trans [OF m(2) g(2)] subset_trans [OF r(2) g(4)] f by simp
qed

lemma execute_all_table:
  "execute_all qs c = Inr c' \<Longrightarrow> list_all (\<lambda>q. case q of AlterTable t' as \<Rightarrow> t' \<noteq> t | _ \<Rightarrow> True) qs \<Longrightarrow> ct_tables c' t = ct_tables c t"
proof (induction qs arbitrary: c)
  case (Cons q qs)
  then obtain c1 where c1: "Execute q c = Inr c1" "execute_all qs c1 = Inr c'" by (auto simp: then_do_eq_Inr)
  have "ct_tables c1 t = ct_tables c t"
    using c1(1) Cons.prems(2) by (cases q) (auto simp: then_do_eq_Inr split: option.splits if_splits)
  then show ?case using Cons.IH [OF c1(2)] Cons.prems(2) by simp
qed simp

lemma MigrateCron_jobs:
  assumes "MigrateCronDatabase c = Inr c'"
  shows "ct_tables c' ''jobs'' = ct_tables c ''jobs''"
proof -
  have step: "ct_tables b ''jobs'' = ct_tables a ''jobs''"
    if "execute_all qs a = Inr b" "qs \<in> {cron_ddl1, cron_ddl2, cron_ddl3, cron_ddl4}" for qs a b
    by (rule execute_all_table [OF that(1)]) (use that(2) in \<open>auto simp: cron_ddl1_def cron_ddl2_def cron_ddl3_def cron_ddl4_def\<close>)
  show ?thesis
    using assms unfolding MigrateCronDatabase_def then_do_eq_Inr by (auto dest!: step split: if_splits)
qed


definition sample_database :: catalogue where
  "sample_database = \<lparr>ct_tables = [''jobs'' \<mapsto> (\<lambda>x. Some ''text''), ''cronjobs'' \<mapsto> (\<lambda>x. Some timestamp), ''cronresults'' \<mapsto> (\<lambda>x. Some timestamp)],
     ct_indexes = Map.empty, ct_rules = Map.empty\<rparr>"


end
