(* ===== verification/Helper_Processes.thy ===== *)
theory Helper_Processes
  imports Job_Channels
begin

text \<open>
  Two small programs beside the daemon: \<open>cm4all-workshop-run-job\<close> (\<open>src/workshop/RunJob.cxx\<close>), which
  runs one job on the command line, and the process that connects an email to the relay of a container
  (\<open>src/NsQrelayConnect.cxx\<close>). The event loop, the spawner and the system calls are the sequence of what
  they report.
\<close>

section \<open>Running one job\<close>

datatype run_error = RunUsage | UnrecognizedOption string | NoExecutable

record run_cmdline =
  rc_control :: bool
  rc_args :: "string list"

fun RunJob_ParseCommandLine :: "bool \<Rightarrow> string list \<Rightarrow> run_error + run_cmdline" where
  "RunJob_ParseCommandLine control [] = Inl NoExecutable"
| "RunJob_ParseCommandLine control (s # as) =
     (if cderef s = CHR ''-''
      then (if s = ''--help'' \<or> s = ''-h'' then Inl RunUsage
            else if s = ''--control'' then RunJob_ParseCommandLine True as
            else Inl (UnrecognizedOption s))
      else Inr \<lparr>rc_control = control, rc_args = s # as\<rparr>)"

text \<open>The standard output of the child is either that of the tool or a pipe to the progress reader.\<close>

record run_job =
  rj_control_channel :: bool
  rj_progress_reader :: "progress_reader option"
  rj_printed :: "string list"
  rj_exit_status :: int
  rj_break :: bool

definition RunJob_Start :: "run_cmdline \<Rightarrow> run_job" where
  "RunJob_Start c = \<lparr>rj_control_channel = rc_control c, rj_progress_reader = (if rc_control c then None else Some progress_reader_init),
     rj_printed = [], rj_exit_status = 1, rj_break = False\<rparr>"

definition RunJob_print :: "string \<Rightarrow> run_job \<Rightarrow> run_job" where
  "RunJob_print t s = s\<lparr>rj_printed := rj_printed s @ [t]\<rparr>"

definition RunJob_OnProgress :: "nat \<Rightarrow> run_job \<Rightarrow> run_job" where
  "RunJob_OnProgress p = RunJob_print (''received PROGRESS '' @ show_nat p)"

text \<open>The handlers of the control channel; \<open>quote\<close> is the format of a string for debugging.\<close>

definition RunJob_OnControl :: "(string \<Rightarrow> string) \<Rightarrow> control_outcome \<Rightarrow> run_job \<Rightarrow> run_job" where
  "RunJob_OnControl quote c s =
     (case c of
        CtlProgress p \<Rightarrow> RunJob_OnProgress p s
      | CtlSetEnv e \<Rightarrow> RunJob_print (''received SETENV '' @ quote e) s
      | CtlAgain d \<Rightarrow> RunJob_print (''received AGAIN '' @ show_nat d) s
      | CtlVersion \<Rightarrow> s
      | CtlSpawn _ _ \<Rightarrow> RunJob_print ''spawn not implemented'' s
      | CtlError e \<Rightarrow> RunJob_print e s)"

definition RunJob_OnControlClosed :: "run_job \<Rightarrow> run_job" where
  "RunJob_OnControlClosed s = s\<lparr>rj_control_channel := False\<rparr>"

text \<open>\<open>status\<close> as \<open>waitpid()\<close> returns it, or a negative error code.\<close>

definition RunJob_OnChildProcessExit :: "int \<Rightarrow> run_job \<Rightarrow> run_job" where
  "RunJob_OnChildProcessExit status s =
     (let termsig = status mod 128
      in if status < 0 then RunJob_print ''exited with errno'' (s\<lparr>rj_exit_status := 1\<rparr>)
         else if termsig \<noteq> 0 \<and> termsig \<noteq> 127 then RunJob_print ''died from signal'' (s\<lparr>rj_exit_status := 1\<rparr>)
         else if termsig = 0 then s\<lparr>rj_exit_status := status div 256 mod 256\<rparr>
         else s)"

datatype run_event = RunOutput string | RunControl control_outcome | RunControlClosed | RunControlError string | RunChildExit int | RunStartFailed string

text \<open>An event is ignored when what it belongs to has been closed, and the loop ends after a failed start.\<close>

definition RunJob_event :: "(string \<Rightarrow> string) \<Rightarrow> run_event \<Rightarrow> run_job \<Rightarrow> run_job" where
  "RunJob_event quote e s =
     (if rj_break s then s
      else case e of
        RunOutput bytes \<Rightarrow>
          (case rj_progress_reader s of
             None \<Rightarrow> s
           | Some r \<Rightarrow> (let (p, r') = PipeReady bytes r; s' = s\<lparr>rj_progress_reader := Some r'\<rparr>
                        in case p of None \<Rightarrow> s' | Some x \<Rightarrow> RunJob_OnProgress x s'))
      | RunControl c \<Rightarrow> if rj_control_channel s then RunJob_OnControl quote c s else s
      | RunControlClosed \<Rightarrow> RunJob_OnControlClosed s
      | RunControlError m \<Rightarrow> RunJob_print m (RunJob_OnControlClosed s)
      | RunChildExit status \<Rightarrow> RunJob_OnChildProcessExit status s
      | RunStartFailed m \<Rightarrow> (RunJob_print m s)\<lparr>rj_break := True\<rparr>)"

definition RunJob_main :: "(string \<Rightarrow> string) \<Rightarrow> string list \<Rightarrow> run_event list \<Rightarrow> int" where
  "RunJob_main quote as es =
     (case RunJob_ParseCommandLine False as of Inl _ \<Rightarrow> 1 | Inr c \<Rightarrow> rj_exit_status (fold (RunJob_event quote) es (RunJob_Start c)))"

lemma rj_exit_status_event: "rj_exit_status (RunJob_event quote e s) \<noteq> rj_exit_status s \<Longrightarrow> \<exists>status. e = RunChildExit status"
  by (cases e) (auto simp: RunJob_event_def RunJob_OnControl_def RunJob_OnProgress_def RunJob_print_def RunJob_OnControlClosed_def Let_def
      case_prod_beta split: option.splits control_outcome.splits if_splits)

lemma rj_exit_status_fold:
  "(\<forall>status. RunChildExit status \<notin> set es) \<Longrightarrow> rj_exit_status (fold (RunJob_event quote) es s) = rj_exit_status s"
  by (induction es arbitrary: s) (use rj_exit_status_event in fastforce)+

lemma rj_break_event: "rj_break (RunJob_event quote e s) \<Longrightarrow> rj_break s \<or> (\<exists>m. e = RunStartFailed m)"
  by (cases e) (auto simp: RunJob_event_def RunJob_OnControl_def RunJob_OnProgress_def RunJob_print_def RunJob_OnControlClosed_def Let_def
      RunJob_OnChildProcessExit_def case_prod_beta split: option.splits control_outcome.splits if_splits)

lemma rj_break_fold: "rj_break (fold (RunJob_event quote) es s) \<Longrightarrow> rj_break s \<or> (\<exists>m. RunStartFailed m \<in> set es)"
  by (induction es arbitrary: s) (use rj_break_event in fastforce)+

text \<open>The tool exits with the status of the job, and with 1 when it was killed, was not started or is not known to have ended.\<close>

theorem RunJob_exit_status:
  assumes "RunJob_ParseCommandLine False as = Inr c" and "\<forall>x. RunChildExit x \<notin> set es" and "\<forall>m. RunStartFailed m \<notin> set es"
    and "0 \<le> status"
  shows "RunJob_main quote as es = 1 \<and> RunJob_main quote as (es @ [RunChildExit status]) = (if status mod 128 = 0 then status div 256 mod 256 else 1)"
proof -
  let ?s = "fold (RunJob_event quote) es (RunJob_Start c)"
  have s: "rj_exit_status ?s = 1" "\<not> rj_break ?s"
    using rj_exit_status_fold [OF assms(2)] rj_break_fold [of quote es "RunJob_Start c"] assms(3) by (auto simp: RunJob_Start_def)
  show ?thesis using assms(1,4) s by (simp add: RunJob_main_def RunJob_event_def RunJob_OnChildProcessExit_def RunJob_print_def Let_def)
qed

text \<open>The option of the manual is not one of the tool.\<close>

theorem run_job_documented_option: "RunJob_ParseCommandLine False [''--control-channel'', ''/usr/bin/my-plan'', ''--foo''] = Inl (UnrecognizedOption ''--control-channel'')"
  by simp

section \<open>The relay\<close>

text \<open>
  One side of one pass of the loop: whether \<open>poll()\<close> reported anything, what \<open>splice()\<close> moved into the pipe
  (nothing at the end of the stream or after an error), and the sizes that the following calls moved out of it.
  The pipe is shared by both directions.
\<close>

record relay_side =
  sd_revents :: bool
  sd_read :: string
  sd_writes :: "nat list"

record relay =
  rl_a_events :: bool
  rl_b_events :: bool
  rl_pipe :: string
  rl_to_a :: string
  rl_to_b :: string
  rl_shut_a :: bool
  rl_shut_b :: bool

definition relay_init :: relay where
  "relay_init = \<lparr>rl_a_events = True, rl_b_events = True, rl_pipe = [], rl_to_a = [], rl_to_b = [], rl_shut_a = False, rl_shut_b = False\<rparr>"

text \<open>\<open>SpliceFromPipe()\<close>: success, what was written, what is left in the pipe. No more sizes means a failed call.\<close>

fun SpliceFromPipe :: "nat \<Rightarrow> nat list \<Rightarrow> string \<Rightarrow> bool \<times> string \<times> string" where
  "SpliceFromPipe n0 ws pipe =
     (if n0 = 0 then (True, [], pipe)
      else case ws of
        [] \<Rightarrow> (False, [], pipe)
      | w # ws' \<Rightarrow>
          (let n = min w (min n0 (length pipe))
           in if n = 0 then (False, [], pipe)
              else (let (ok, out, rest) = SpliceFromPipe (n0 - n) ws' (drop n pipe) in (ok, take n pipe @ out, rest))))"

declare SpliceFromPipe.simps [simp del]

text \<open>\<open>SpliceSockets()\<close> after \<open>SpliceToPipe()\<close>.\<close>

definition SpliceSockets :: "relay_side \<Rightarrow> string \<Rightarrow> bool \<times> string \<times> string" where
  "SpliceSockets x pipe = (if sd_read x = [] then (False, [], pipe) else SpliceFromPipe (length (sd_read x)) (sd_writes x) (pipe @ sd_read x))"

definition relay_a :: "relay_side \<Rightarrow> relay \<Rightarrow> relay" where
  "relay_a x s =
     (if sd_revents x
      then (let (ok, out, pipe) = SpliceSockets x (rl_pipe s); s' = s\<lparr>rl_pipe := pipe, rl_to_b := rl_to_b s @ out\<rparr>
            in if ok then s' else s'\<lparr>rl_a_events := False, rl_shut_b := True\<rparr>)
      else s)"

definition relay_b :: "relay_side \<Rightarrow> relay \<Rightarrow> relay" where
  "relay_b y s =
     (if sd_revents y
      then (let (ok, out, pipe) = SpliceSockets y (rl_pipe s); s' = s\<lparr>rl_pipe := pipe, rl_to_a := rl_to_a s @ out\<rparr>
            in if ok then s' else s'\<lparr>rl_b_events := False, rl_shut_a := True\<rparr>)
      else s)"

fun SpliceTwoSockets :: "(relay_side \<times> relay_side) list \<Rightarrow> relay \<Rightarrow> relay" where
  "SpliceTwoSockets [] s = s"
| "SpliceTwoSockets ((x, y) # its) s =
     (let s' = relay_b y (relay_a x s) in if rl_a_events s' \<or> rl_b_events s' then SpliceTwoSockets its s' else s')"

text \<open>No call that writes fails.\<close>

definition writes_ok :: "relay_side \<Rightarrow> bool" where
  "writes_ok x \<longleftrightarrow> 0 \<notin> set (sd_writes x) \<and> length (sd_read x) \<le> sum_list (sd_writes x)"

lemma SpliceFromPipe_ok:
  "0 \<notin> set ws \<Longrightarrow> length pipe \<le> sum_list ws \<Longrightarrow> SpliceFromPipe (length pipe) ws pipe = (True, pipe, [])"
proof (induction ws arbitrary: pipe)
  case (Cons w ws)
  show ?case
  proof (cases "pipe = []")
    case False
    let ?n = "min w (length pipe)"
    have n: "?n \<noteq> 0" using False Cons.prems(1) by auto
    have "SpliceFromPipe (length (drop ?n pipe)) ws (drop ?n pipe) = (True, drop ?n pipe, [])"
      using Cons.prems by (intro Cons.IH) (auto simp: min_def)
    then show ?thesis using n by (simp add: SpliceFromPipe.simps [of _ "w # ws"] Let_def)
  qed (simp add: SpliceFromPipe.simps)
qed (simp add: SpliceFromPipe.simps)

lemma relay_a_ok:
  assumes "rl_pipe s = []" and "writes_ok x"
  shows "relay_a x s = s\<lparr>rl_to_b := rl_to_b s @ (if sd_revents x then sd_read x else []),
    rl_a_events := rl_a_events s \<and> \<not> (sd_revents x \<and> sd_read x = []), rl_shut_b := rl_shut_b s \<or> sd_revents x \<and> sd_read x = []\<rparr>"
  using assms SpliceFromPipe_ok [of "sd_writes x" "sd_read x"] by (simp add: relay_a_def SpliceSockets_def writes_ok_def)

lemma relay_b_ok:
  assumes "rl_pipe s = []" and "writes_ok y"
  shows "relay_b y s = s\<lparr>rl_to_a := rl_to_a s @ (if sd_revents y then sd_read y else []),
    rl_b_events := rl_b_events s \<and> \<not> (sd_revents y \<and> sd_read y = []), rl_shut_a := rl_shut_a s \<or> sd_revents y \<and> sd_read y = []\<rparr>"
  using assms SpliceFromPipe_ok [of "sd_writes y" "sd_read y"] by (simp add: relay_b_def SpliceSockets_def writes_ok_def)


text \<open>What a pass takes from its side.\<close>

definition taken :: "relay_side \<Rightarrow> string" where
  "taken x = (if sd_revents x then sd_read x else [])"

lemma relay_run:
  assumes "rl_pipe s = []" and "list_all (\<lambda>(x, y). writes_ok x \<and> writes_ok y) its"
  shows "\<exists>n. rl_to_b (SpliceTwoSockets its s) = rl_to_b s @ concat (map (\<lambda>i. taken (fst i)) (take n its))
    \<and> rl_to_a (SpliceTwoSockets its s) = rl_to_a s @ concat (map (\<lambda>i. taken (snd i)) (take n its))
    \<and> rl_pipe (SpliceTwoSockets its s) = []
    \<and> (length its \<le> n \<or> \<not> rl_a_events (SpliceTwoSockets its s) \<and> \<not> rl_b_events (SpliceTwoSockets its s))
    \<and> ((rl_a_events s \<or> rl_shut_b s) \<and> (rl_b_events s \<or> rl_shut_a s) \<longrightarrow>
         (rl_a_events (SpliceTwoSockets its s) \<or> rl_shut_b (SpliceTwoSockets its s)) \<and> (rl_b_events (SpliceTwoSockets its s) \<or> rl_shut_a (SpliceTwoSockets its s)))"
  using assms
proof (induction its arbitrary: s)
  case (Cons i its)
  obtain x y where i: "i = (x, y)" by (cases i)
  define s' where "s' = relay_b y (relay_a x s)"
  have w: "writes_ok x" "writes_ok y" and p: "list_all (\<lambda>(x, y). writes_ok x \<and> writes_ok y) its" using Cons.prems(2) i by simp_all
  have s': "rl_to_b s' = rl_to_b s @ taken x" "rl_to_a s' = rl_to_a s @ taken y" "rl_pipe s' = []"
    "(rl_a_events s \<or> rl_shut_b s) \<and> (rl_b_events s \<or> rl_shut_a s) \<Longrightarrow> (rl_a_events s' \<or> rl_shut_b s') \<and> (rl_b_events s' \<or> rl_shut_a s')"
    using Cons.prems(1) w by (auto simp: s'_def relay_a_ok relay_b_ok taken_def)
  show ?case
  proof (cases "rl_a_events s' \<or> rl_b_events s'")
    case True
    then have e: "SpliceTwoSockets (i # its) s = SpliceTwoSockets its s'" by (simp add: i s'_def Let_def)
    obtain n where n: "rl_to_b (SpliceTwoSockets its s') = rl_to_b s' @ concat (map (\<lambda>i. taken (fst i)) (take n its))"
      "rl_to_a (SpliceTwoSockets its s') = rl_to_a s' @ concat (map (\<lambda>i. taken (snd i)) (take n its))" "rl_pipe (SpliceTwoSockets its s') = []"
      "length its \<le> n \<or> \<not> rl_a_events (SpliceTwoSockets its s') \<and> \<not> rl_b_events (SpliceTwoSockets its s')"
      "(rl_a_events s' \<or> rl_shut_b s') \<and> (rl_b_events s' \<or> rl_shut_a s') \<longrightarrow>
         (rl_a_events (SpliceTwoSockets its s') \<or> rl_shut_b (SpliceTwoSockets its s')) \<and> (rl_b_events (SpliceTwoSockets its s') \<or> rl_shut_a (SpliceTwoSockets its s'))"
      using Cons.IH [OF s'(3) p] by (elim exE conjE) (rule that)
    show ?thesis unfolding e by (rule exI [of _ "Suc n"]) (use n s' in \<open>simp add: i\<close>)
  next
    case False
    then have e: "SpliceTwoSockets (i # its) s = s'" by (simp add: i s'_def Let_def)
    show ?thesis unfolding e by (rule exI [of _ 1]) (use False s' in \<open>simp add: i\<close>)
  qed
qed simp

text \<open>
  C40: the relay of a notification email. As long as no write fails, each socket receives exactly what was read from the
  other, in order and without a change, whatever the pieces; the loop ends only when both directions have ended, and the
  end of one is passed on by closing the other socket for writing.
\<close>

theorem relay_faithful:
  assumes "list_all (\<lambda>(x, y). writes_ok x \<and> writes_ok y) its" and "s = SpliceTwoSockets its relay_init"
  shows "\<exists>n. rl_to_b s = concat (map (\<lambda>i. taken (fst i)) (take n its)) \<and> rl_to_a s = concat (map (\<lambda>i. taken (snd i)) (take n its))
    \<and> rl_pipe s = [] \<and> (length its \<le> n \<or> \<not> rl_a_events s \<and> \<not> rl_b_events s)
    \<and> (rl_a_events s \<or> rl_shut_b s) \<and> (rl_b_events s \<or> rl_shut_a s)"
  using relay_run [of relay_init, OF _ assms(1)] by (simp add: assms(2) relay_init_def)

theorem relay_faithful_witness:
  "rl_to_b (SpliceTwoSockets [(\<lparr>sd_revents = True, sd_read = ''mail'', sd_writes = [3, 1]\<rparr>, \<lparr>sd_revents = False, sd_read = [], sd_writes = []\<rparr>)] relay_init) = ''mail''"
proof -
  let ?its = "[(\<lparr>sd_revents = True, sd_read = ''mail'', sd_writes = [3, 1]\<rparr>, \<lparr>sd_revents = False, sd_read = [], sd_writes = []\<rparr>)]"
  have w: "list_all (\<lambda>(x, y). writes_ok x \<and> writes_ok y) ?its" by (simp add: writes_ok_def)
  have e: "rl_a_events (SpliceTwoSockets ?its relay_init)"
    by (simp add: relay_init_def relay_a_ok relay_b_ok writes_ok_def)
  from relay_faithful [OF w refl] e show ?thesis by (auto simp: taken_def)
qed

text \<open>
  When a write fails, what is left in the pipe is sent in the other direction: the first socket receives its own data
  instead of the answer of the second one.
\<close>

theorem relay_mixes:
  "rl_to_a (SpliceTwoSockets
     [(\<lparr>sd_revents = True, sd_read = ''mail'', sd_writes = []\<rparr>, \<lparr>sd_revents = True, sd_read = ''D5:x'', sd_writes = [4]\<rparr>)] relay_init) = ''mail''"
  by (simp add: relay_init_def relay_a_def relay_b_def SpliceSockets_def SpliceFromPipe.simps)

end
