(* ===== verification/Spec2Isabelle.thy ===== *)
theory Spec2Isabelle
  imports Cron_Syntax Cron_Table Jobs_Table Cron_Run Plan_Library Job_Channels Output_Capture Process_Spawn Workshop_Instance
    Daemon_Config Translation_Client Cron_Operators Control_Client Channel_Server Database_Migration Helper_Processes
begin

text \<open>
  CM4all Workshop is a daemon that executes jobs: jobs queued in the PostgreSQL table \<open>jobs\<close>, described
  by \<^emph>\<open>plans\<close> in the file system, and cron jobs of the table \<open>cronjobs\<close>. Several nodes share the tables. This
  library models the daemon and the programs beside it, and proves what makes them correct. Paths below are
  relative to \<open>src/src/\<close> of the repository, SQL scripts to \<open>src/sql/\<close>. C1 to C40 are the main properties.

  \<^bold>\<open>How the program works.\<close> \<open>main()\<close> reads the command line and the configuration and builds the \<open>Instance\<close>
  with one object per \<open>workshop\<close> and \<open>cron\<close> section. A \<open>WorkshopPartition\<close> connects a \<open>WorkshopQueue\<close> (its
  database connection, timers and filters) with a \<open>WorkshopWorkplace\<close> (the operators that run now) and the
  library of plans that all partitions share. The queue selects new jobs, asks the partition whether one may
  start, and claims it by an \<open>UPDATE\<close> that only one node wins; the workplace starts a \<open>WorkshopOperator\<close>, which
  spawns the process of the plan, reads its progress, log and control commands, and reports the result back to
  the queue. When the workplace is full, the queue is closed; when an operator ends, it is opened. A
  \<open>CronPartition\<close> is built in the same way from \<open>CronQueue\<close> and \<open>CronWorkplace\<close>; its queue also computes \<open>next_run\<close>
  from the schedule of a row, and a sticky id restricts a job to one node of the cluster. The spawner is a
  separate process that verifies each prepared process in a hook. Control packets and signals reach the
  \<open>Instance\<close>. The programs beside the daemon are the control client, \<open>run-job\<close>, the migration of old tables
  and the relay to \<open>qrelay\<close>.

  \<^bold>\<open>Conventions.\<close> An object is a record with the names of its members, an operation is a function that returns the
  changed record together with the actions it takes (statements, spawned processes, sent packets, timers). An
  exception is the left side of a sum type. A pointer into a null-terminated string is the suffix it points to.
  Integers whose width matters are words or are reduced explicitly. A callback is a call, in the order of the
  code; what the event loop, the database or the kernel report is an event, an argument of the handler, and
  the partitions and the instance run by \<open>inductive\<close> step relations over these events. Undefined or endless
  behaviour is a value of its own, never a default: \<open>MarshalOverflow\<close> for a write past an array,
  \<open>BitSetTerminate\<close> for an exception out of a \<open>noexcept\<close> function, \<open>StepZeroLoop\<close> for the endless loop over a
  zero step, \<open>None\<close> for a search for a date that does not end.

  \<^bold>\<open>Parameters.\<close> Code that is not part of the repository (the submodule libcommon, PostgreSQL, the C library's
  conversions, the kernel) is an argument of the definitions that call it. What the program relies on is a
  locale: \<open>string_util\<close> (stripping of white space), \<open>calendar\<close> (the conversion between time points
  and UTC dates, interpreted by the Gregorian calendar), \<open>pg_text\<close> (the text form of timestamps, intervals and arrays).

  \<^bold>\<open>Theories and results.\<close>

  \<^item> \<open>Workshop_Prelude\<close>: C strings, \<open>strtoul\<close>, error-passing sequencing, the collections of simp rules.
  \<^item> \<open>Range_Bit_Set\<close> (\<open>util/RangeBitSet.hxx\<close>), \<open>Cron_Schedule\<close> and \<open>Cron_Syntax\<close> (\<open>cron/Schedule.cxx\<close>): the bounded bit
    set with the locale \<open>bounded_bits\<close>, and the parser of schedules. A parsed schedule has well-formed, non-empty sets (C1), the
    parser never runs into the undefined cases (C2), and it inverts the printer of the crontab syntax (C3).
  \<^item> \<open>Calendar\<close> and \<open>Cron_Next\<close> (\<open>cron/Schedule.cxx\<close>): the next time of a schedule matches it (C4), is the earliest one
    when the last run fell on an admitted date (C5), and exists exactly when the schedule admits a date (C6).
  \<^item> \<open>Sql_Table\<close> and \<open>Claim_Table\<close>: the statements' \<open>UPDATE\<close>, \<open>SELECT\<close> and text functions on a list of rows, and the
    locale \<open>claim_table\<close>, the contract by which a table is a work queue of several nodes: a row is never run by
    two nodes, and the executions refine a lock service.
  \<^item> \<open>Jobs_Table\<close> (\<open>workshop/PGQueue.cxx\<close>, \<open>jobs.sql\<close>) and \<open>Cron_Table\<close> (\<open>cron/CalculateNextRun.cxx\<close>, the statements of
    \<open>cron/Queue.cxx\<close>, \<open>cronjobs.sql\<close>): every prepared statement and its caller, and the two interpretations of
    \<open>claim_table\<close>. Exclusive execution (C7), environment (C8), rate limits (C9), the selection of new jobs (C10), the end
    of a job is final (C11), both tables refine the locks (C12), \<open>next_run\<close> (C13) and its calculation (C14).
  \<^item> \<open>Sticky_Manager\<close> (\<open>StickyManager.cxx\<close>, \<open>StickyTable.cxx\<close>): all nodes agree on the node of a sticky id (C15).
  \<^item> \<open>Capacity_Gate\<close>, \<open>Cron_Node\<close> and \<open>Cron_Run\<close> (\<open>cron/Queue.cxx\<close>, \<open>cron/Workplace.cxx\<close>, \<open>cron/Partition.cxx\<close>): the locale
    of a queue closed while the workplace is full, the cron partition and its events. The loop over pending jobs ends
    (C16) and leaves no job pending unless the queue is closed (C17), the limit holds (C18), the end of a job is reported (C19), a shutdown is
    final until the queue is enabled again (C20), and what is executed for a row (C21).
  \<^item> \<open>Plan_Loader\<close> (\<open>workshop/PlanLoader.cxx\<close>, \<open>Plan.hxx\<close>, \<open>RateLimit.cxx\<close>) and \<open>Plan_Library\<close> (\<open>workshop/Library.hxx\<close>,
    \<open>PlanLibrary.cxx\<close>, \<open>PlanUpdate.cxx\<close>, \<open>MultiLibrary.cxx\<close>): a loaded plan meets every check (C22), a lookup returns the plan of
    the current file (C23); the locale \<open>entry_property\<close> carries a property of the entries through all updates.
  \<^item> \<open>Job_Channels\<close>, \<open>Channel_Server\<close> and \<open>Output_Capture\<close> (\<open>workshop/ProgressReader.cxx\<close>, \<open>LogBridge.cxx\<close>,
    \<open>ControlChannelServer.cxx\<close>, \<open>Expand.cxx\<close>, \<open>CaptureBuffer.cxx\<close>, \<open>PipePondAdapter.cxx\<close>, \<open>CgroupAccounting.cxx\<close>): reported
    progress is within its bounds (C24), commands are parsed back from their text (C25) and
    handled in order (C26), and the output reaches Pond line by line (C27).
  \<^item> \<open>Workshop_Node\<close>, \<open>Workshop_Partition\<close>, \<open>Workshop_Run\<close> and \<open>Workshop_Result\<close> (\<open>workshop/Queue.cxx\<close>, \<open>Workplace.cxx\<close>,
    \<open>Partition.cxx\<close>, \<open>Operator.cxx\<close>): the limits of the node and of each plan hold (C28), the end of an operator
    reaches the database (C29), the lists of running and full plans are those of a reference count (C30).
  \<^item> \<open>Process_Spawn\<close> (\<open>workshop/Operator.cxx\<close>, \<open>Hook.cxx\<close>): the process of a job (C31) and the verification (C32).
  \<^item> \<open>Workshop_Instance\<close> (\<open>Instance.cxx\<close>): partitions, control packets, signals. The locale \<open>winding_down\<close>, interpreted on
    both kinds of partition, gives that nothing is started once the instance exits (C33); a client that is not local can only end processes (C34).
  \<^item> \<open>Daemon_Config\<close> (\<open>Config.cxx\<close>, \<open>workshop/Config.cxx\<close>, \<open>cron/Config.cxx\<close>, \<open>CommandLine.cxx\<close>, \<open>main.cxx\<close>): what a loaded
    configuration fulfils (C36), and when the daemon starts.
  \<^item> \<open>Translation_Client\<close> (\<open>translation/\<close>): the request and the buffer it is built in (C37).
  \<^item> \<open>Cron_Operators\<close> (\<open>cron/SpawnOperator.cxx\<close>, \<open>CurlOperator.cxx\<close>, \<open>Notification.cxx\<close>, \<open>EmailService.cxx\<close>): the result of a
    cron job (C38) and its notification.
  \<^item> \<open>Control_Client\<close> (\<open>control/Client.cxx\<close>): what the commands do in the instance that receives them (C35).
  \<^item> \<open>Database_Migration\<close> (\<open>Migrate.cxx\<close>): the migration of old tables succeeds, keeps their columns and adds those
    that the queues use (C39).
  \<^item> \<open>Helper_Processes\<close> (\<open>workshop/RunJob.cxx\<close>, \<open>NsQrelayConnect.cxx\<close>): the relay sends on what it receives while no write fails (C40), and
    the exit status of \<open>run-job\<close>.

  \<^bold>\<open>Bounds.\<close> No definition needs fuel. Loops are total functions except two, each a \<open>partial_function\<close> into \<open>option\<close>
  in which \<open>None\<close> is a run that does not return: the search for a date, which need not end (C6 and C14 say when it
  returns), and the loop of \<open>CronQueue::RunClaim()\<close>, which does (C16).

  \<^bold>\<open>Conditions.\<close> Exclusive execution assumes that no node reconnects to its database while it has running jobs and that
  no claim expires while its job is running: \<open>OnConnect()\<close> releases the node's own claims and other nodes release
  expired ones, so without it the code does run a job twice. The tables are modelled statement by statement,
  each statement atomic.

  \<^bold>\<open>Not modelled.\<close> The copying of strings into memory pools (\<open>AllocatorPtr\<close>), since the model has no addresses;
  \<open>translation/CronGlue.cxx\<close> and \<open>Features.hxx\<close>, one connecting call and compile-time switches; the namespace and mount
  options of the children of \<open>CurlOperator\<close> and \<open>NsQrelayConnect\<close> and the list of spawned children of an operator, which
  are objects of libcommon; Avahi, systemd, capabilities, logging and the event loop itself.
\<close>

section \<open>The job tables as a lock service\<close>



end
